(* ===== verification/Halmos_Base.thy ===== *)
theory Halmos_Base
  imports Main "HOL-Library.Word"
begin

text \<open>
  The prelude of the Halmos development: the names of the machine types the C code uses, the
  lemmas on lists and words that several components share, and the interface of a bounded
  first-in first-out buffer that both the task queue and the log ring provide.

  Conventions.  A C \<open>uint8_t\<close>, \<open>uint16_t\<close>, \<open>uint32_t\<close>, \<open>uint64_t\<close> is a word of that width;
  arithmetic on it wraps.  An \<open>int\<close> that only counts bounded things is an \<open>int\<close>.  A byte buffer is
  a list of 8-bit words.  A NUL-terminated text is a \<open>string\<close> without its terminator.
\<close>

unbundle bit_operations_syntax

type_synonym u8 = "8 word"
type_synonym u16 = "16 word"
type_synonym u32 = "32 word"
type_synonym u64 = "64 word"
type_synonym bytes = "u8 list"

named_theorems halmos_defs \<open>definitions a component unfolds in its own proofs\<close>
named_theorems inv_intros \<open>preservation lemmas of a component's invariant\<close>

section \<open>Bytes of machine words\<close>

text \<open>Big-endian writing and reading, the way every wire format of the server does it.\<close>

definition byte_of :: "nat \<Rightarrow> nat \<Rightarrow> u8" where
  "byte_of i n = word_of_nat ((n div 2 ^ (8 * i)) mod 256)"

lemma unat_byte_of [simp]: "unat (byte_of i n) = (n div 2 ^ (8 * i)) mod 256"
  by (simp add: byte_of_def unat_of_nat)

lemma unat_u8_less [simp]: "unat (b :: u8) < 256"
  using unsigned_less [of b] by simp

lemma unat_ucast_u8 [simp]:
  "unat (ucast (b :: u8) :: u16) = unat b" "unat (ucast (b :: u8) :: u32) = unat b"
  "unat (ucast (b :: u8) :: u64) = unat b"
  by (auto simp: unsigned_ucast_eq take_bit_nat_eq_self_iff intro: order_less_trans [OF unat_u8_less])

lemma base256_2: "n < 65536 \<Longrightarrow> (n div 256) mod 256 * 256 + n mod 256 = (n :: nat)"
  by (simp add: div_mult_mod_eq less_mult_imp_div_less)

lemma horner_3: "(a * 256 + b) * 256 + c = (n :: nat) \<Longrightarrow> a * 65536 + b * 256 + c = n"
  by simp

lemma horner_4:
  "(a * 65536 + b * 256 + c) * 256 + d = (n :: nat) \<Longrightarrow> a * 16777216 + b * 65536 + c * 256 + d = n"
  by simp

lemma base256_3:
  assumes "n < (16777216 :: nat)"
  shows "(n div 65536) mod 256 * 65536 + (n div 256) mod 256 * 256 + n mod 256 = n"
proof -
  have "n div 65536 = n div 256 div 256" by (simp add: div_mult2_eq [symmetric])
  moreover have "n div 256 < 65536" using assms by (simp add: less_mult_imp_div_less)
  ultimately have "(n div 65536) mod 256 * 256 + (n div 256) mod 256 = n div 256"
    using base256_2 [of "n div 256"] by simp
  then have "((n div 65536) mod 256 * 256 + (n div 256) mod 256) * 256 + n mod 256 = n"
    by (simp only: div_mult_mod_eq)
  then show ?thesis by (rule horner_3)
qed

lemma base256_4:
  assumes "n < (4294967296 :: nat)"
  shows "(n div 16777216) mod 256 * 16777216 + (n div 65536) mod 256 * 65536
       + (n div 256) mod 256 * 256 + n mod 256 = n"
proof -
  have "n div 16777216 = n div 256 div 65536" "n div 65536 = n div 256 div 256"
    by (simp_all add: div_mult2_eq [symmetric])
  moreover have "n div 256 < 16777216" using assms by (simp add: less_mult_imp_div_less)
  ultimately have "(n div 16777216) mod 256 * 65536 + (n div 65536) mod 256 * 256
       + (n div 256) mod 256 = n div 256"
    using base256_3 [of "n div 256"] by simp
  then have "((n div 16777216) mod 256 * 65536 + (n div 65536) mod 256 * 256
       + (n div 256) mod 256) * 256 + n mod 256 = n"
    by (simp only: div_mult_mod_eq)
  then show ?thesis by (rule horner_4)
qed

text \<open>Big-endian reading, \<open>(a << 8) | b\<close> and its longer forms.\<close>

definition be16 :: "u8 \<Rightarrow> u8 \<Rightarrow> nat" where
  "be16 a b = push_bit 8 (unat a) OR unat b"

definition be24 :: "u8 \<Rightarrow> u8 \<Rightarrow> u8 \<Rightarrow> nat" where
  "be24 a b c = push_bit 16 (unat a) OR push_bit 8 (unat b) OR unat c"

definition be32 :: "u8 \<Rightarrow> u8 \<Rightarrow> u8 \<Rightarrow> u8 \<Rightarrow> nat" where
  "be32 a b c d = push_bit 24 (unat a) OR push_bit 16 (unat b) OR push_bit 8 (unat c) OR unat d"

lemma or_disjoint: "b < 2 ^ k \<Longrightarrow> push_bit k a OR b = a * 2 ^ k + (b :: nat)"
proof -
  assume "b < 2 ^ k"
  then have b: "take_bit k b = b" by (simp add: take_bit_nat_eq_self)
  have "push_bit k a AND take_bit k b = 0"
    by (rule bit_eqI) (auto simp: bit_and_iff bit_push_bit_iff bit_take_bit_iff)
  then have "push_bit k a + b = push_bit k a OR b"
    unfolding b by (simp add: disjunctive_add_eq_or)
  then show ?thesis by (simp add: push_bit_eq_mult)
qed

lemma be16_sum: "be16 a b = unat a * 256 + unat b"
  using or_disjoint [of "unat b" 8 "unat a"] by (simp add: be16_def)

lemma be24_sum: "be24 a b c = unat a * 65536 + unat b * 256 + unat c"
proof -
  have "unat b * 256 + unat c < 65536"
    using unat_u8_less [of b] unat_u8_less [of c] by linarith
  then show ?thesis
    using or_disjoint [of "be16 b c" 16 "unat a"]
    by (simp add: be24_def be16_sum [unfolded be16_def] be16_sum)
qed

lemma be32_sum: "be32 a b c d = unat a * 16777216 + unat b * 65536 + unat c * 256 + unat d"
proof -
  have "unat b * 65536 + unat c * 256 + unat d < 16777216"
    using unat_u8_less [of b] unat_u8_less [of c] unat_u8_less [of d] by linarith
  then show ?thesis
    using or_disjoint [of "be24 b c d" 24 "unat a"]
    by (simp add: be32_def be24_sum [unfolded be24_def] be24_sum)
qed

lemma be24_byte_of: "n < 16777216 \<Longrightarrow> be24 (byte_of 2 n) (byte_of (Suc 0) n) (byte_of 0 n) = n"
  using base256_3 [of n] by (simp add: be24_sum)

lemma be32_byte_of:
  "n < 4294967296 \<Longrightarrow> be32 (byte_of 3 n) (byte_of 2 n) (byte_of (Suc 0) n) (byte_of 0 n) = n"
  using base256_4 [of n] by (simp add: be32_sum)

lemma be16_byte_of: "n < 65536 \<Longrightarrow> be16 (byte_of (Suc 0) n) (byte_of 0 n) = n"
  using base256_2 [of n] by (simp add: be16_sum)

text \<open>The top bit of a byte, set, tested and cleared.\<close>

lemma u8_and_127: "m < 256 \<Longrightarrow> (word_of_nat m :: u8) AND 127 = word_of_nat (m mod 128)"
proof -
  assume "m < 256"
  have "(word_of_nat m :: u8) AND 127 = take_bit 7 (word_of_nat m)"
    by (simp add: take_bit_eq_mask mask_eq_exp_minus_1)
  also have "\<dots> = word_of_nat (take_bit 7 m)" by (simp add: take_bit_of_nat)
  finally show ?thesis by (simp add: take_bit_eq_mod)
qed

lemma u8_and_128: "m < 256 \<Longrightarrow> (word_of_nat m :: u8) AND 128 = 0 \<longleftrightarrow> m < 128"
proof -
  assume m: "m < 256"
  have "(word_of_nat m :: u8) AND 128 = 0 \<longleftrightarrow> \<not> bit (word_of_nat m :: u8) 7"
    by (simp add: and_exp_eq_0_iff_not_bit [of "word_of_nat m :: u8" 7, simplified])
  also have "bit (word_of_nat m :: u8) 7 \<longleftrightarrow> bit (unat (word_of_nat m :: u8)) 7"
    by (simp add: bit_unsigned_iff)
  also have "\<dots> \<longleftrightarrow> odd (m div 128)"
    using m by (simp add: bit_iff_odd unat_of_nat)
  also have "\<not> odd (m div 128) \<longleftrightarrow> m < 128"
  proof (cases "m < 128")
    case False
    with m have "m div 128 = 1" by (intro div_nat_eqI) simp_all
    with False show ?thesis by simp
  qed simp
  finally show ?thesis .
qed

lemma u8_or_128: "m < 128 \<Longrightarrow> (word_of_nat m :: u8) OR 0x80 = word_of_nat (128 + m)"
proof -
  assume m: "m < 128"
  have "unat ((0x80 :: u8) OR word_of_nat m) = push_bit 7 1 OR m"
    using m by (simp add: unsigned_or_eq unat_of_nat)
  also have "\<dots> = 128 + m" using or_disjoint [of m 7 1] m by simp
  finally have "word_of_nat (unat ((0x80 :: u8) OR word_of_nat m)) = (word_of_nat (128 + m) :: u8)"
    by (simp only:)
  then show ?thesis by (simp add: or.commute)
qed

text \<open>\<open>be64toh\<close> of the first eight bytes, and \<open>htobe64\<close>.\<close>

definition be64 :: "bytes \<Rightarrow> nat" where
  "be64 b = foldl (\<lambda>n x. 256 * n + unat x) 0 (take 8 b)"

definition be64_bytes :: "nat \<Rightarrow> bytes" where
  "be64_bytes n = map (\<lambda>i. byte_of i n) (rev [0..<8])"

lemma length_be64_bytes [simp]: "length (be64_bytes n) = 8"
  by (simp add: be64_bytes_def)

lemma horner_bytes:
  "foldl (\<lambda>n x. 256 * n + unat x) a (map (\<lambda>i. byte_of i n) (rev [0..<k])) = a * 256 ^ k + n mod 256 ^ k"
proof (induction k arbitrary: a)
  case (Suc k)
  have p: "(2 :: nat) ^ (k * 8) = 256 ^ k" by (simp add: power_mult [symmetric] mult.commute [of k] power_mult [of 2 8])
  have "n mod (256 ^ k * 256) = 256 ^ k * (n div 256 ^ k mod 256) + n mod 256 ^ k"
    by (rule mod_mult2_eq)
  then show ?case
    using Suc.IH [of "256 * a + n div 256 ^ k mod 256"] by (simp add: p algebra_simps)
qed simp

lemma be64_be64_bytes: "n < 2 ^ 64 \<Longrightarrow> be64 (be64_bytes n @ bs) = n"
  using horner_bytes [of 0 n 8] by (simp add: be64_def be64_bytes_def)

section \<open>C strings\<close>

text \<open>
  \<open>snprintf (buf, n, "%s", s)\<close> into a buffer of \<open>n\<close> bytes keeps the first \<open>n - 1\<close> characters.
\<close>

definition c_copy :: "nat \<Rightarrow> string \<Rightarrow> string" where
  "c_copy n s = take (n - 1) s"

lemma c_copy_id [simp]: "length s < n \<Longrightarrow> c_copy n s = s"
  by (simp add: c_copy_def)

lemma length_c_copy: "0 < n \<Longrightarrow> length (c_copy n s) < n"
  by (simp add: c_copy_def)

section \<open>Interface: a bounded first-in first-out buffer\<close>

text \<open>
  The contract of a bounded buffer, over an abstraction \<open>contents\<close> to the list of what it holds:
  adding fails exactly when it is full, and otherwise appends what the buffer stores of the item at
  the end; taking removes the head.
  A client (a producer and its consumers) sees only these laws.
\<close>

datatype 'a fifo_op = Enq 'a | Deq

locale bounded_fifo =
  fixes invar :: "'q \<Rightarrow> bool"
    and contents :: "'q \<Rightarrow> 'a list"
    and capacity :: "'q \<Rightarrow> nat"
    and store :: "'i \<Rightarrow> 'a"
    and enq :: "'q \<Rightarrow> 'i \<Rightarrow> 'q option"
    and deq :: "'q \<Rightarrow> ('a \<times> 'q) option"
  assumes enq_None: "invar q \<Longrightarrow> enq q x = None \<longleftrightarrow> capacity q \<le> length (contents q)"
    and enq_Some: "invar q \<Longrightarrow> enq q x = Some q' \<Longrightarrow>
      invar q' \<and> contents q' = contents q @ [store x] \<and> capacity q' = capacity q"
    and deq_None: "invar q \<Longrightarrow> deq q = None \<longleftrightarrow> contents q = []"
    and deq_Some: "invar q \<Longrightarrow> deq q = Some (y, q') \<Longrightarrow>
      invar q' \<and> contents q = y # contents q' \<and> capacity q' = capacity q"
begin

text \<open>A run of operations: the items accepted, the items taken and the buffer left.\<close>

fun run :: "'q \<Rightarrow> 'i fifo_op list \<Rightarrow> 'a list \<times> 'a list \<times> 'q" where
  "run q [] = ([], [], q)"
| "run q (Enq x # ops) =
     (case enq q x of
        None \<Rightarrow> run q ops
      | Some q' \<Rightarrow> (let (acc, out, r) = run q' ops in (store x # acc, out, r)))"
| "run q (Deq # ops) =
     (case deq q of
        None \<Rightarrow> run q ops
      | Some (x, q') \<Rightarrow> (let (acc, out, r) = run q' ops in (acc, x # out, r)))"

lemma run_order:
  "invar q \<Longrightarrow> run q ops = (acc, out, r) \<Longrightarrow> invar r \<and> contents q @ acc = out @ contents r"
proof (induction ops arbitrary: q acc out r)
  case Nil
  then show ?case by simp
next
  case (Cons opr ops)
  show ?case
  proof (cases opr)
    case (Enq x)
    show ?thesis
    proof (cases "enq q x")
      case None
      then show ?thesis using Cons Enq by auto
    next
      case (Some q')
      obtain a o' s where run': "run q' ops = (a, o', s)" by (cases "run q' ops") auto
      from enq_Some [OF Cons.prems(1) Some] Cons.IH [OF _ run']
      show ?thesis using Cons.prems(2) Enq Some run' by auto
    qed
  next
    case Deq
    show ?thesis
    proof (cases "deq q")
      case None
      then show ?thesis using Cons Deq by auto
    next
      case (Some p)
      then obtain x q' where p: "deq q = Some (x, q')" by (cases p) auto
      obtain a o' s where run': "run q' ops = (a, o', s)" by (cases "run q' ops") auto
      from deq_Some [OF Cons.prems(1) p] Cons.IH [OF _ run']
      show ?thesis using Cons.prems(2) Deq p run' by auto
    qed
  qed
qed

lemma run_bounded:
  "invar q \<Longrightarrow> length (contents q) \<le> capacity q \<Longrightarrow> run q ops = (acc, out, r) \<Longrightarrow>
     length (contents r) \<le> capacity r"
proof (induction ops arbitrary: q acc out r)
  case Nil
  then show ?case by simp
next
  case (Cons opr ops)
  show ?case
  proof (cases opr)
    case (Enq x)
    show ?thesis
    proof (cases "enq q x")
      case None
      then show ?thesis using Cons Enq by auto
    next
      case (Some q')
      from enq_Some [OF Cons.prems(1) Some] enq_None [OF Cons.prems(1), of x] Some
      have q': "invar q'" "length (contents q') \<le> capacity q'" by auto
      obtain a o' s where run': "run q' ops = (a, o', s)" by (cases "run q' ops") auto
      show ?thesis using Cons.IH [OF q' run'] Cons.prems Enq Some run' by auto
    qed
  next
    case Deq
    show ?thesis
    proof (cases "deq q")
      case None
      then show ?thesis using Cons Deq by auto
    next
      case (Some p)
      then obtain x q' where p: "deq q = Some (x, q')" by (cases p) auto
      from deq_Some [OF Cons.prems(1) p] Cons.prems(2)
      have q': "invar q'" "length (contents q') \<le> capacity q'" by auto
      obtain a o' s where run': "run q' ops = (a, o', s)" by (cases "run q' ops") auto
      show ?thesis using Cons.IH [OF q' run'] Cons.prems Deq p run' by auto
    qed
  qed
qed

end

section \<open>Interface: a table of records by key\<close>

text \<open>
  The contract of a table whose records are found by key, made on demand with a default content
  and changed in place.  A client sees a map.
\<close>

datatype ('k, 'v) table_op = Create 'k | Modify 'k "'v \<Rightarrow> 'v"

fun map_step :: "('k \<Rightarrow> 'v) \<Rightarrow> ('k \<rightharpoonup> 'v) \<Rightarrow> ('k, 'v) table_op \<Rightarrow> ('k \<rightharpoonup> 'v)" where
  "map_step d m (Create k) = (if m k = None then m(k \<mapsto> d k) else m)"
| "map_step d m (Modify k f) = m(k := map_option f (m k))"

fun op_key :: "('k, 'v) table_op \<Rightarrow> 'k" where
  "op_key (Create k) = k"
| "op_key (Modify k f) = k"

fun op_fun :: "('k, 'v) table_op \<Rightarrow> 'v \<Rightarrow> 'v" where
  "op_fun (Create k) = id"
| "op_fun (Modify k f) = f"

locale keyed_table =
  fixes invar :: "'s \<Rightarrow> bool"
    and lookup :: "'s \<Rightarrow> 'k \<rightharpoonup> 'v"
    and create :: "'s \<Rightarrow> 'k \<Rightarrow> 's"
    and modify :: "'s \<Rightarrow> 'k \<Rightarrow> ('v \<Rightarrow> 'v) \<Rightarrow> 's"
    and fresh :: "'s \<Rightarrow> 'k \<Rightarrow> 'v"
    and key_ok :: "'k \<Rightarrow> bool"
    and fun_ok :: "('v \<Rightarrow> 'v) \<Rightarrow> bool"
  assumes invar_create: "invar s \<Longrightarrow> key_ok k \<Longrightarrow> invar (create s k)"
    and invar_modify: "invar s \<Longrightarrow> fun_ok f \<Longrightarrow> invar (modify s k f)"
    and lookup_create: "invar s \<Longrightarrow> key_ok k \<Longrightarrow>
      lookup (create s k) = map_step (fresh s) (lookup s) (Create k)"
    and lookup_modify: "invar s \<Longrightarrow> key_ok k \<Longrightarrow> fun_ok f \<Longrightarrow>
      lookup (modify s k f) = map_step (fresh s) (lookup s) (Modify k f)"
    and fresh_create: "fresh (create s k) = fresh s"
    and fresh_modify: "fresh (modify s k f) = fresh s"
begin

fun step :: "'s \<Rightarrow> ('k, 'v) table_op \<Rightarrow> 's" where
  "step s (Create k) = create s k"
| "step s (Modify k f) = modify s k f"

definition ops_ok :: "('k, 'v) table_op list \<Rightarrow> bool" where
  "ops_ok ops \<longleftrightarrow> (\<forall>x \<in> set ops. key_ok (op_key x) \<and> (\<forall>k f. x = Modify k f \<longrightarrow> fun_ok f))"

lemma steps_refine_map:
  "invar s \<Longrightarrow> ops_ok ops \<Longrightarrow>
     invar (foldl step s ops) \<and> lookup (foldl step s ops) = foldl (map_step (fresh s)) (lookup s) ops"
proof (induction ops arbitrary: s)
  case (Cons x ops)
  then have x: "key_ok (op_key x)" "ops_ok ops" by (auto simp: ops_ok_def)
  have "invar (step s x) \<and> lookup (step s x) = map_step (fresh s) (lookup s) x \<and> fresh (step s x) = fresh s"
  proof (cases x)
    case (Create k)
    with Cons.prems x(1) show ?thesis
      by (simp add: invar_create lookup_create fresh_create del: map_step.simps)
  next
    case (Modify k f)
    with Cons.prems x(1) show ?thesis
      by (simp add: ops_ok_def invar_modify lookup_modify fresh_modify del: map_step.simps)
  qed
  then show ?case using Cons.IH [of "step s x"] x(2) by simp
qed simp

end

end
