(* ===== verification/Core_Queue.thy ===== *)
theory Core_Queue
  imports Halmos_Base
begin

text \<open>
  The task queue and its adaptive pool of detached workers
  (src/core/halmos_core_queue.c, and \<open>mark_worker_idle\<close> of src/core/halmos_core_thread_pool.c).

  \<^verbatim>\<open>TaskQueue\<close> is a record whose linked list \<open>head .. tail\<close> is the list \<open>tq_tasks\<close>; \<open>count\<close> stays a
  field of its own.  An operation is split where it releases its mutex: \<open>core_queue_push_locked\<close>
  is the first critical section of \<open>core_queue_push\<close>, \<open>core_queue_push_unreserve\<close> and
  \<open>core_queue_push_finish\<close> the two later ones.  The worker side of \<open>core_queue_pop\<close> is
  \<open>pop_test\<close> (the code from taking the mutex to the next wait) and \<open>pop_wake\<close> (the code after
  a wake-up).  \<open>pool_step\<close> interleaves these sections; what malloc, pthread_create, the clock and
  the wake-ups do is an argument.
\<close>

section \<open>Data\<close>

record timeval =
  tv_sec :: int
  tv_usec :: int

record halmos_event_t =
  ev_fd :: int
  ev_generation :: u32
  ev_events :: u32

record Task =
  task_event :: halmos_event_t
  task_arrival :: timeval

record TaskQueue =
  tq_tasks :: "Task list"
  tq_count :: int
  tq_max_queue_limit :: int
  tq_active_workers :: int
  tq_total_workers :: int
  tq_scaling_in_progress :: bool
  tq_is_running :: bool
  tq_min_threads_limit :: int
  tq_max_threads_limit :: int

definition init_queue :: "int \<Rightarrow> int \<Rightarrow> int \<Rightarrow> TaskQueue" where
  "init_queue min_limit max_limit max_queue_size =
     \<lparr> tq_tasks = [], tq_count = 0, tq_max_queue_limit = max_queue_size,
       tq_active_workers = 0, tq_total_workers = min_limit,
       tq_scaling_in_progress = False, tq_is_running = True,
       tq_min_threads_limit = min_limit, tq_max_threads_limit = max_limit \<rparr>"

section \<open>Pushing\<close>

text \<open>\<open>(int) (limit * 0.5)\<close>: the conversion truncates towards zero.\<close>

definition queue_threshold :: "int \<Rightarrow> int" where
  "queue_threshold limit = (if 0 \<le> limit then limit div 2 else - ((- limit) div 2))"

text \<open>The first critical section: the return code, the workers to spawn and the queue.\<close>

definition core_queue_push_locked ::
  "TaskQueue \<Rightarrow> halmos_event_t \<Rightarrow> timeval \<Rightarrow> bool \<Rightarrow> int \<times> int \<times> TaskQueue" where
  "core_queue_push_locked q ev now malloc_ok =
     (if tq_count q \<ge> tq_max_queue_limit q then (-1, 0, q)
      else if \<not> malloc_ok then (-2, 0, q)
      else
        let q1 = q\<lparr> tq_tasks := tq_tasks q @ [\<lparr> task_event = ev, task_arrival = now \<rparr>],
                    tq_count := tq_count q + 1 \<rparr>
        in if tq_count q1 > queue_threshold (tq_max_queue_limit q1)
              \<and> tq_total_workers q1 < tq_max_threads_limit q1
              \<and> \<not> tq_scaling_in_progress q1
           then
             let available_slots = tq_max_threads_limit q1 - tq_total_workers q1;
                 spawn_count = (if available_slots < 4 then available_slots else 4)
             in (0, spawn_count,
                 q1\<lparr> tq_total_workers := tq_total_workers q1 + spawn_count,
                     tq_scaling_in_progress := True \<rparr>)
           else (0, 0, q1))"

definition core_queue_push_unreserve :: "TaskQueue \<Rightarrow> int \<Rightarrow> TaskQueue" where
  "core_queue_push_unreserve q failed =
     (if 0 < failed then q\<lparr> tq_total_workers := tq_total_workers q - failed \<rparr> else q)"

definition core_queue_push_finish :: "TaskQueue \<Rightarrow> TaskQueue" where
  "core_queue_push_finish q = q\<lparr> tq_scaling_in_progress := False \<rparr>"

text \<open>
  The whole call when no other thread moves in between; \<open>spawn_ok i\<close> tells whether the i-th
  \<open>pthread_create\<close> succeeds.
\<close>

definition core_queue_push ::
  "TaskQueue \<Rightarrow> halmos_event_t \<Rightarrow> timeval \<Rightarrow> bool \<Rightarrow> (nat \<Rightarrow> bool) \<Rightarrow> int \<times> TaskQueue" where
  "core_queue_push q ev now malloc_ok spawn_ok =
     (let (rc, spawn_count, q1) = core_queue_push_locked q ev now malloc_ok
      in if rc \<noteq> 0 then (rc, q1)
         else if 0 < spawn_count then
           let actually_spawned = int (length (filter spawn_ok [0..<nat spawn_count]));
               q2 = core_queue_push_unreserve q1 (spawn_count - actually_spawned)
           in (0, core_queue_push_finish q2)
         else (0, q1))"

section \<open>Popping\<close>

text \<open>
  The waiting time.  The code compares \<open>(float) count / limit\<close> with 0.5; for the limits in use
  (at most 4096) the single-precision quotient is above 0.5 exactly when \<open>2 * count > limit\<close>.
\<close>

definition get_adaptive_timeout :: "int \<Rightarrow> TaskQueue \<Rightarrow> int" where
  "get_adaptive_timeout nproc q =
     (let n_cores = (if nproc < 1 then 1 else nproc);
          high_load_threshold = n_cores * 2
      in if (0 < tq_max_queue_limit q \<and> 2 * tq_count q > tq_max_queue_limit q)
            \<or> tq_count q > high_load_threshold then 300
         else if tq_count q > 0 then 60
         else 30)"

datatype pop_result =
    PopExit
  | PopTask int halmos_event_t timeval

datatype pop_outcome =
    Leave TaskQueue
  | Wait int
  | Take int halmos_event_t timeval TaskQueue

definition pop_test :: "int \<Rightarrow> TaskQueue \<Rightarrow> pop_outcome" where
  "pop_test nproc q =
     (case tq_tasks q of
        [] \<Rightarrow> (if \<not> tq_is_running q
               then Leave (q\<lparr> tq_total_workers := tq_total_workers q - 1 \<rparr>)
               else Wait (get_adaptive_timeout nproc q))
      | t # ts \<Rightarrow>
          (if \<not> tq_is_running q
           then Leave (q\<lparr> tq_total_workers := tq_total_workers q - 1 \<rparr>)
           else Take (ev_fd (task_event t)) (task_event t) (task_arrival t)
                  (q\<lparr> tq_tasks := ts, tq_count := tq_count q - 1,
                      tq_active_workers := tq_active_workers q + 1 \<rparr>)))"

definition pop_wake :: "bool \<Rightarrow> TaskQueue \<Rightarrow> TaskQueue option" where
  "pop_wake timed_out q =
     (if \<not> tq_is_running q then Some (q\<lparr> tq_total_workers := tq_total_workers q - 1 \<rparr>)
      else if timed_out \<and> tq_tasks q = [] \<and> tq_total_workers q > tq_min_threads_limit q
      then Some (q\<lparr> tq_total_workers := tq_total_workers q - 1 \<rparr>)
      else None)"

text \<open>
  The whole call: each wake-up brings whether it was the timeout and the queue the worker finds
  when it has the mutex again.  \<open>None\<close>: still waiting when the wake-ups are used up.
\<close>

fun core_queue_pop ::
  "int \<Rightarrow> TaskQueue \<Rightarrow> (bool \<times> TaskQueue) list \<Rightarrow> (pop_result \<times> TaskQueue) option" where
  "core_queue_pop nproc q wakeups =
     (case pop_test nproc q of
        Leave q' \<Rightarrow> Some (PopExit, q')
      | Take fd ev arrival q' \<Rightarrow> Some (PopTask fd ev arrival, q')
      | Wait _ \<Rightarrow>
          (case wakeups of
             [] \<Rightarrow> None
           | (timed_out, q1) # ws \<Rightarrow>
               (case pop_wake timed_out q1 of
                  Some q2 \<Rightarrow> Some (PopExit, q2)
                | None \<Rightarrow> core_queue_pop nproc q1 ws)))"

declare core_queue_pop.simps [simp del]

definition mark_worker_idle :: "TaskQueue \<Rightarrow> TaskQueue" where
  "mark_worker_idle q = q\<lparr> tq_active_workers := tq_active_workers q - 1 \<rparr>"

section \<open>Starting and stopping the pool\<close>

text \<open>\<open>core_queue_thread_worker_start\<close>: the queue and how many of the initial workers exist.\<close>

definition core_queue_thread_worker_start ::
  "int \<Rightarrow> int \<Rightarrow> int \<Rightarrow> (nat \<Rightarrow> bool) \<Rightarrow> TaskQueue \<times> nat" where
  "core_queue_thread_worker_start g_worker_min g_worker_max g_queue_capacity spawn_ok =
     (init_queue g_worker_min g_worker_max g_queue_capacity,
      length (filter spawn_ok [0..<nat g_worker_min]))"

text \<open>
  \<open>core_queue_thread_worker_stop\<close>: stopping, the condition of its wait loop, and the final
  clean-up, which returns the descriptors it deactivates and closes, in order.
\<close>

definition stop_signal :: "TaskQueue \<Rightarrow> TaskQueue" where
  "stop_signal q = q\<lparr> tq_is_running := False \<rparr>"

definition stop_waits :: "TaskQueue \<Rightarrow> bool" where
  "stop_waits q \<longleftrightarrow> tq_total_workers q > 0"

definition stop_drain :: "TaskQueue \<Rightarrow> int list \<times> TaskQueue" where
  "stop_drain q =
     (filter (\<lambda>fd. fd \<ge> 0) (map (\<lambda>t. ev_fd (task_event t)) (tq_tasks q)),
      q\<lparr> tq_tasks := [], tq_count := 0 \<rparr>)"

section \<open>The queue is a bounded FIFO buffer\<close>

definition queue_ok :: "TaskQueue \<Rightarrow> bool" where
  "queue_ok q \<longleftrightarrow> tq_count q = int (length (tq_tasks q)) \<and> 0 \<le> tq_max_queue_limit q
     \<and> tq_count q \<le> tq_max_queue_limit q"

lemma queue_ok_init: "0 \<le> cap \<Longrightarrow> queue_ok (init_queue lo hi cap)"
  by (simp add: queue_ok_def init_queue_def)

lemmas push_locked_cases = core_queue_push_locked_def Let_def

lemma push_locked_queue_ok:
  "queue_ok q \<Longrightarrow> queue_ok (snd (snd (core_queue_push_locked q ev now m)))"
  by (auto simp: push_locked_cases queue_ok_def)

lemma push_locked_rc:
  "fst (core_queue_push_locked q ev now m) =
     (if tq_count q \<ge> tq_max_queue_limit q then -1 else if m then 0 else -2)"
  by (auto simp: push_locked_cases)

lemma push_locked_tasks:
  "tq_tasks (snd (snd (core_queue_push_locked q ev now m))) =
     (if fst (core_queue_push_locked q ev now m) = 0
      then tq_tasks q @ [\<lparr> task_event = ev, task_arrival = now \<rparr>] else tq_tasks q)"
  by (auto simp: push_locked_cases)

lemma push_locked_count:
  "tq_count (snd (snd (core_queue_push_locked q ev now m))) =
     (if fst (core_queue_push_locked q ev now m) = 0 then tq_count q + 1 else tq_count q)"
  by (auto simp: push_locked_cases)

lemma push_locked_frame:
  "tq_max_queue_limit (snd (snd (core_queue_push_locked q ev now m))) = tq_max_queue_limit q"
  "tq_is_running (snd (snd (core_queue_push_locked q ev now m))) = tq_is_running q"
  "tq_active_workers (snd (snd (core_queue_push_locked q ev now m))) = tq_active_workers q"
  "tq_max_threads_limit (snd (snd (core_queue_push_locked q ev now m))) = tq_max_threads_limit q"
  "tq_min_threads_limit (snd (snd (core_queue_push_locked q ev now m))) = tq_min_threads_limit q"
  by (auto simp: push_locked_cases)

lemma push_later_frame [simp]:
  "tq_tasks (core_queue_push_unreserve q n) = tq_tasks q"
  "tq_count (core_queue_push_unreserve q n) = tq_count q"
  "tq_max_queue_limit (core_queue_push_unreserve q n) = tq_max_queue_limit q"
  "tq_is_running (core_queue_push_unreserve q n) = tq_is_running q"
  "tq_tasks (core_queue_push_finish q) = tq_tasks q"
  "tq_count (core_queue_push_finish q) = tq_count q"
  "tq_max_queue_limit (core_queue_push_finish q) = tq_max_queue_limit q"
  "tq_is_running (core_queue_push_finish q) = tq_is_running q"
  by (auto simp: core_queue_push_unreserve_def core_queue_push_finish_def)

lemma core_queue_push_same:
  fixes q ev now m s
  defines "p \<equiv> core_queue_push_locked q ev now m" and "r \<equiv> core_queue_push q ev now m s"
  shows "fst r = fst p" and "tq_tasks (snd r) = tq_tasks (snd (snd p))"
    and "tq_count (snd r) = tq_count (snd (snd p))"
    and "tq_max_queue_limit (snd r) = tq_max_queue_limit (snd (snd p))"
    and "tq_is_running (snd r) = tq_is_running (snd (snd p))"
  by (auto simp: p_def r_def core_queue_push_def Let_def split: prod.splits)

definition enq_task :: "TaskQueue \<Rightarrow> halmos_event_t \<times> timeval \<Rightarrow> TaskQueue option" where
  "enq_task q x =
     (let (rc, q') = core_queue_push q (fst x) (snd x) True (\<lambda>_. True)
      in if rc = 0 then Some q' else None)"

definition deq_task :: "TaskQueue \<Rightarrow> ((halmos_event_t \<times> timeval) \<times> TaskQueue) option" where
  "deq_task q =
     (case pop_test 1 q of Take fd ev arrival q' \<Rightarrow> Some ((ev, arrival), q') | _ \<Rightarrow> None)"

definition queue_contents :: "TaskQueue \<Rightarrow> (halmos_event_t \<times> timeval) list" where
  "queue_contents q = map (\<lambda>t. (task_event t, task_arrival t)) (tq_tasks q)"

lemma length_queue_contents [simp]: "length (queue_contents q) = length (tq_tasks q)"
  by (simp add: queue_contents_def)

lemma enq_task_Some:
  assumes "queue_ok q" and "enq_task q x = Some q'"
  shows "queue_ok q' \<and> queue_contents q' = queue_contents q @ [x]
     \<and> tq_max_queue_limit q' = tq_max_queue_limit q \<and> tq_is_running q' = tq_is_running q"
proof -
  let ?p = "core_queue_push_locked q (fst x) (snd x) True"
  let ?r = "core_queue_push q (fst x) (snd x) True (\<lambda>_. True)"
  from assms(2) have rc: "fst ?p = 0" and q': "q' = snd ?r"
    using core_queue_push_same(1) [of q "fst x" "snd x" True "\<lambda>_. True"]
    by (auto simp: enq_task_def Let_def split: prod.splits if_splits)
  from push_locked_queue_ok [OF assms(1), of "fst x" "snd x" True] have "queue_ok q'"
    by (simp add: q' queue_ok_def core_queue_push_same)
  with rc show ?thesis
    by (simp add: q' core_queue_push_same push_locked_tasks push_locked_frame queue_contents_def)
qed

interpretation task_fifo: bounded_fifo
  "\<lambda>q. queue_ok q \<and> tq_is_running q" queue_contents "\<lambda>q. nat (tq_max_queue_limit q)"
  "\<lambda>x. x" enq_task deq_task
proof
  fix q :: TaskQueue and x
  assume ok: "queue_ok q \<and> tq_is_running q"
  show "enq_task q x = None \<longleftrightarrow> nat (tq_max_queue_limit q) \<le> length (queue_contents q)"
    using ok push_locked_rc [of q "fst x" "snd x" True]
      core_queue_push_same(1) [of q "fst x" "snd x" True "\<lambda>_. True"]
    by (auto simp: enq_task_def Let_def queue_ok_def split: prod.splits if_splits)
next
  fix q q' :: TaskQueue and x
  assume ok: "queue_ok q \<and> tq_is_running q" and "enq_task q x = Some q'"
  then show "(queue_ok q' \<and> tq_is_running q') \<and> queue_contents q' = queue_contents q @ [x]
      \<and> nat (tq_max_queue_limit q') = nat (tq_max_queue_limit q)"
    using enq_task_Some [of q x q'] by auto
next
  fix q :: TaskQueue
  assume ok: "queue_ok q \<and> tq_is_running q"
  then show "deq_task q = None \<longleftrightarrow> queue_contents q = []"
    by (auto simp: deq_task_def pop_test_def queue_contents_def split: list.splits)
next
  fix q q' :: TaskQueue and x
  assume ok: "queue_ok q \<and> tq_is_running q" and "deq_task q = Some (x, q')"
  then show "(queue_ok q' \<and> tq_is_running q') \<and> queue_contents q = x # queue_contents q'
      \<and> nat (tq_max_queue_limit q') = nat (tq_max_queue_limit q)"
    by (auto simp: deq_task_def pop_test_def queue_contents_def queue_ok_def split: list.splits)
qed

section \<open>Producers, workers and the scaling of the pool\<close>

text \<open>
  The pool: the queue, the worker threads that exist, those busy with a task, and the producers
  that are between reserving worker slots and clearing the scaling flag.
\<close>

datatype upscaler =
    Creating nat nat  \<comment> \<open>threads still to create, creations that failed\<close>
  | Finishing

record pool =
  pl_queue :: TaskQueue
  pl_live :: nat
  pl_busy :: nat
  pl_upscalers :: "upscaler list"

fun reserved :: "upscaler \<Rightarrow> nat" where
  "reserved (Creating r f) = r + f"
| "reserved Finishing = 0"

inductive pool_step :: "pool \<Rightarrow> pool \<Rightarrow> bool" where
  push: "core_queue_push_locked (pl_queue p) ev now m = (rc, n, q') \<Longrightarrow>
     pool_step p (p\<lparr> pl_queue := q',
       pl_upscalers := (if 0 < n then Creating (nat n) 0 # pl_upscalers p else pl_upscalers p) \<rparr>)"
| create_ok: "pl_upscalers p = us @ Creating (Suc r) f # vs \<Longrightarrow>
     pool_step p (p\<lparr> pl_live := Suc (pl_live p), pl_upscalers := us @ Creating r f # vs \<rparr>)"
| create_fail: "pl_upscalers p = us @ Creating (Suc r) f # vs \<Longrightarrow>
     pool_step p (p\<lparr> pl_upscalers := us @ Creating r (Suc f) # vs \<rparr>)"
| unreserve: "pl_upscalers p = us @ Creating 0 f # vs \<Longrightarrow>
     pool_step p (p\<lparr> pl_queue := core_queue_push_unreserve (pl_queue p) (int f),
       pl_upscalers := us @ Finishing # vs \<rparr>)"
| finish: "pl_upscalers p = us @ Finishing # vs \<Longrightarrow>
     pool_step p (p\<lparr> pl_queue := core_queue_push_finish (pl_queue p), pl_upscalers := us @ vs \<rparr>)"
| take: "pl_busy p < pl_live p \<Longrightarrow> pop_test nproc (pl_queue p) = Take fd ev arrival q' \<Longrightarrow>
     pool_step p (p\<lparr> pl_queue := q', pl_busy := Suc (pl_busy p) \<rparr>)"
| leave: "pl_busy p < pl_live p \<Longrightarrow> pop_test nproc (pl_queue p) = Leave q' \<Longrightarrow>
     pool_step p (p\<lparr> pl_queue := q', pl_live := pl_live p - 1 \<rparr>)"
| wake_leave: "pl_busy p < pl_live p \<Longrightarrow> pop_wake timed_out (pl_queue p) = Some q' \<Longrightarrow>
     pool_step p (p\<lparr> pl_queue := q', pl_live := pl_live p - 1 \<rparr>)"
| idle: "0 < pl_busy p \<Longrightarrow>
     pool_step p (p\<lparr> pl_queue := mark_worker_idle (pl_queue p), pl_busy := pl_busy p - 1 \<rparr>)"
| stop: "pool_step p (p\<lparr> pl_queue := stop_signal (pl_queue p) \<rparr>)"

definition pool_start :: "int \<Rightarrow> int \<Rightarrow> int \<Rightarrow> (nat \<Rightarrow> bool) \<Rightarrow> pool" where
  "pool_start lo hi cap spawn_ok =
     (let (q, n) = core_queue_thread_worker_start lo hi cap spawn_ok
      in \<lparr> pl_queue = q, pl_live = n, pl_busy = 0, pl_upscalers = [] \<rparr>)"

inductive pool_reach :: "pool \<Rightarrow> pool \<Rightarrow> bool" where
  refl: "pool_reach p p"
| step: "pool_reach p q \<Longrightarrow> pool_step q r \<Longrightarrow> pool_reach p r"

text \<open>
  The accounting: \<open>total_workers\<close> is the number of live workers, plus the slots reserved by a
  producer that is still creating threads, plus \<open>lost\<close>, the initial workers whose creation
  failed and which nothing takes off the counter.
\<close>

definition pool_inv :: "int \<Rightarrow> pool \<Rightarrow> bool" where
  "pool_inv lost p \<longleftrightarrow>
     (let q = pl_queue p in
      queue_ok q
      \<and> tq_total_workers q = int (pl_live p) + int (sum_list (map reserved (pl_upscalers p))) + lost
      \<and> tq_total_workers q \<le> tq_max_threads_limit q
      \<and> tq_active_workers q = int (pl_busy p)
      \<and> pl_busy p \<le> pl_live p
      \<and> length (pl_upscalers p) \<le> (if tq_scaling_in_progress q then 1 else 0))"

lemma pool_inv_start:
  assumes "0 \<le> lo" "lo \<le> hi" "0 \<le> cap"
  shows "pool_inv (lo - int (length (filter spawn_ok [0..<nat lo]))) (pool_start lo hi cap spawn_ok)"
  using assms
  by (simp add: pool_inv_def pool_start_def core_queue_thread_worker_start_def init_queue_def
      queue_ok_def)

lemma singleton_split: "us @ x # vs = ys \<Longrightarrow> length ys \<le> Suc 0 \<Longrightarrow> us = [] \<and> vs = []"
  by auto

lemma pool_step_inv: "pool_step p p' \<Longrightarrow> pool_inv lost p \<Longrightarrow> pool_inv lost p'"
proof (induction rule: pool_step.induct)
  case (push p ev now m rc n q')
  have "queue_ok q'"
    using push_locked_queue_ok [of "pl_queue p" ev now m] push by (simp add: pool_inv_def Let_def)
  with push show ?case
    by (auto simp: pool_inv_def push_locked_cases split: if_splits)
next
  case (unreserve p us f vs)
  then show ?case
    by (auto simp: pool_inv_def Let_def core_queue_push_unreserve_def queue_ok_def split: if_splits)
next
  case (take p nproc fd ev arrival q')
  then show ?case
    by (auto simp: pool_inv_def Let_def pop_test_def queue_ok_def split: list.splits if_splits)
next
  case (leave p nproc q')
  then show ?case
    by (auto simp: pool_inv_def Let_def pop_test_def queue_ok_def split: list.splits if_splits)
next
  case (wake_leave p timed_out q')
  then show ?case
    by (auto simp: pool_inv_def Let_def pop_wake_def queue_ok_def split: if_splits)
qed (auto simp: pool_inv_def Let_def core_queue_push_finish_def mark_worker_idle_def
      stop_signal_def queue_ok_def split: if_splits)

lemma pool_reach_inv: "pool_reach p q \<Longrightarrow> pool_inv lost p \<Longrightarrow> pool_inv lost q"
  by (induction rule: pool_reach.induct) (auto intro: pool_step_inv)

section \<open>Stopping\<close>

lemma pool_step_stopped:
  "pool_step p p' \<Longrightarrow> \<not> tq_is_running (pl_queue p) \<Longrightarrow> \<not> tq_is_running (pl_queue p')"
  by (induction rule: pool_step.induct)
    (auto simp: push_locked_cases core_queue_push_unreserve_def core_queue_push_finish_def
      pop_test_def pop_wake_def mark_worker_idle_def stop_signal_def
      split: if_splits list.splits)

lemma pop_test_stopped:
  "\<not> tq_is_running q \<Longrightarrow> pop_test n q = Leave (q\<lparr> tq_total_workers := tq_total_workers q - 1 \<rparr>)"
  by (simp add: pop_test_def split: list.splits)

lemma pop_wake_stopped:
  "\<not> tq_is_running q \<Longrightarrow> pop_wake b q = Some (q\<lparr> tq_total_workers := tq_total_workers q - 1 \<rparr>)"
  by (simp add: pop_wake_def)

lemma pool_reach_trans: "pool_reach q r \<Longrightarrow> pool_reach p q \<Longrightarrow> pool_reach p r"
  by (induction rule: pool_reach.induct) (auto intro: pool_reach.step)

text \<open>A stopped pool with no creation under way can always empty itself.\<close>

lemma stopped_drains:
  assumes "\<not> tq_is_running (pl_queue p)" and "pl_upscalers p = []" and "pl_busy p \<le> pl_live p"
  shows "\<exists>p'. pool_reach p p' \<and> pl_live p' = 0 \<and> pl_upscalers p' = []"
  using assms
proof (induction "pl_live p + pl_busy p" arbitrary: p rule: less_induct)
  case less
  consider "pl_live p = 0" | "0 < pl_busy p" | "pl_busy p = 0" "0 < pl_live p" by auto
  then show ?case
  proof cases
    case 1
    with less.prems show ?thesis by (auto intro: pool_reach.refl)
  next
    case 2
    let ?r = "p\<lparr> pl_queue := mark_worker_idle (pl_queue p), pl_busy := pl_busy p - 1 \<rparr>"
    have "pool_step p ?r" using 2 by (rule pool_step.idle)
    then have r: "pool_reach p ?r" by (blast intro: pool_reach.intros)
    have "\<exists>p'. pool_reach ?r p' \<and> pl_live p' = 0 \<and> pl_upscalers p' = []"
      using less.prems 2 by (intro less.hyps) (auto simp: mark_worker_idle_def)
    then show ?thesis using r pool_reach_trans by blast
  next
    case 3
    let ?q = "(pl_queue p)\<lparr> tq_total_workers := tq_total_workers (pl_queue p) - 1 \<rparr>"
    let ?r = "p\<lparr> pl_queue := ?q, pl_live := pl_live p - 1 \<rparr>"
    have "pool_step p ?r"
      using 3 pop_test_stopped [OF less.prems(1)] by (intro pool_step.leave) auto
    then have r: "pool_reach p ?r" by (blast intro: pool_reach.intros)
    have "\<exists>p'. pool_reach ?r p' \<and> pl_live p' = 0 \<and> pl_upscalers p' = []"
      using less.prems 3 by (intro less.hyps) auto
    then show ?thesis using r pool_reach_trans by blast
  qed
qed

section \<open>Properties\<close>

text \<open>C1: in every state the pool can reach, whatever the interleaving of producers and workers and
  whatever fails, the worker counter is exactly the live workers plus the slots producers still
  hold in reserve plus the initial workers that were never created; it never passes
  \<open>max_threads_limit\<close>, \<open>count\<close> is the length of the list and never passes the queue limit, the
  active counter is the number of busy workers, and at most one producer scales the pool.\<close>

theorem pool_accounting:
  assumes "0 \<le> lo" and "lo \<le> hi" and "0 \<le> cap"
    and "pool_reach (pool_start lo hi cap spawn_ok) p"
  shows "tq_total_workers (pl_queue p) = int (pl_live p)
           + int (sum_list (map reserved (pl_upscalers p)))
           + (lo - int (length (filter spawn_ok [0..<nat lo])))
     \<and> tq_total_workers (pl_queue p) \<le> tq_max_threads_limit (pl_queue p)
     \<and> tq_count (pl_queue p) = int (length (tq_tasks (pl_queue p)))
     \<and> tq_count (pl_queue p) \<le> tq_max_queue_limit (pl_queue p)
     \<and> tq_active_workers (pl_queue p) = int (pl_busy p) \<and> pl_busy p \<le> pl_live p
     \<and> length (pl_upscalers p) \<le> 1"
  using pool_reach_inv [OF assms(4) pool_inv_start [OF assms(1-3)]]
  by (auto simp: pool_inv_def queue_ok_def Let_def split: if_splits)

theorem pool_accounting_witness:
  "tq_active_workers (pl_queue (pool_start 2 4 8 (\<lambda>_. True))) = 0"
  using pool_accounting [of 2 4 8 "\<lambda>_. True" "pool_start 2 4 8 (\<lambda>_. True)"]
  by (simp add: pool_reach.refl pool_start_def core_queue_thread_worker_start_def)



text \<open>If one of the initial \<open>pthread_create\<close> calls fails, the counter is never lowered for it:
  in every reachable state, stopped or not and with all workers gone, \<open>stop_waits\<close> still holds,
  so \<open>core_queue_thread_worker_stop\<close> never returns.\<close>

theorem failed_start_never_stops:
  assumes "0 \<le> lo" and "lo \<le> hi" and "0 \<le> cap" and "i < nat lo" and "\<not> spawn_ok i"
    and "pool_reach (pool_start lo hi cap spawn_ok) p"
  shows "stop_waits (pl_queue p)"
proof -
  have "length (filter spawn_ok [0..<nat lo]) < length [0..<nat lo]"
    using assms(4,5) by (intro length_filter_less [of i]) auto
  then have "0 < lo - int (length (filter spawn_ok [0..<nat lo]))" by simp
  with pool_reach_inv [OF assms(6) pool_inv_start [OF assms(1-3)]] show ?thesis
    by (simp add: pool_inv_def Let_def stop_waits_def)
qed

theorem failed_start_never_stops_witness:
  "stop_waits (pl_queue (pool_start 1 4 8 (\<lambda>_. False)))"
  using failed_start_never_stops [of 1 4 8 0 "\<lambda>_. False" "pool_start 1 4 8 (\<lambda>_. False)"]
  by (simp add: pool_reach.refl)

text \<open>C3: the queue is first-in first-out: over any sequence of pushes and pops on a running queue,
  the tasks accepted, appended to those already there, are the tasks handed to workers followed by
  those still queued, in this order; and the queue never holds more than its limit.\<close>

theorem task_queue_fifo:
  assumes "queue_ok q" and "tq_is_running q"
    and "task_fifo.run q ops = (accepted, handed, r)"
  shows "queue_contents q @ accepted = handed @ queue_contents r
       \<and> length (queue_contents r) \<le> nat (tq_max_queue_limit r)"
  using task_fifo.run_order [OF _ assms(3)] task_fifo.run_bounded [OF _ _ assms(3)] assms(1,2)
  by (auto simp: queue_ok_def)

theorem task_queue_fifo_witness:
  "\<exists>a h r. task_fifo.run (init_queue 1 2 1)
       [Enq (\<lparr> ev_fd = 5, ev_generation = 1, ev_events = 1 \<rparr>, \<lparr> tv_sec = 0, tv_usec = 0 \<rparr>), Deq]
       = (a, h, r) \<and> a = h @ queue_contents r"
  (is "\<exists>a h r. ?run = (a, h, r) \<and> _ a h r")
proof -
  obtain a h r where *: "?run = (a, h, r)" by (cases ?run) auto
  then show ?thesis
    using task_queue_fifo [OF _ _ *]
    by (simp add: init_queue_def queue_ok_def queue_contents_def)
qed

lemma core_queue_push_rc:
  "fst (core_queue_push q ev now m ok) =
     (if tq_max_queue_limit q \<le> tq_count q then -1 else if m then 0 else -2)"
  by (simp add: core_queue_push_same push_locked_rc)

lemma core_queue_push_refused:
  "fst (core_queue_push q ev now m ok) \<noteq> 0 \<Longrightarrow> snd (core_queue_push q ev now m ok) = q"
  by (auto simp: core_queue_push_def push_locked_cases split: if_splits)

lemma core_queue_push_total_workers:
  assumes "fst (core_queue_push q ev now m ok) = 0"
  shows "\<exists>n. tq_total_workers (snd (core_queue_push q ev now m ok))
              = tq_total_workers q + int (length (filter ok [0..<n]))
            \<and> (n = 0 \<or> n = nat (min 4 (tq_max_threads_limit q - tq_total_workers q)))"
proof (cases "tq_count q + 1 > queue_threshold (tq_max_queue_limit q)
              \<and> tq_total_workers q < tq_max_threads_limit q \<and> \<not> tq_scaling_in_progress q")
  case True
  let ?n = "nat (min 4 (tq_max_threads_limit q - tq_total_workers q))"
  have min4: "(if k < 4 then k else 4) = min 4 k" for k :: int by auto
  have "length (filter ok [0..<?n]) \<le> ?n"
    by (rule order_trans [OF length_filter_le]) simp
  with True have le: "int (length (filter ok [0..<?n])) \<le> 4"
    "int (length (filter ok [0..<?n])) \<le> tq_max_threads_limit q - tq_total_workers q"
    by linarith+
  have unreserve: "tq_total_workers (core_queue_push_unreserve p f) = tq_total_workers p - f"
    if "0 \<le> f" for p f
    using that by (simp add: core_queue_push_unreserve_def)
  have "tq_total_workers (snd (core_queue_push q ev now m ok))
              = tq_total_workers q + int (length (filter ok [0..<?n]))"
    using True assms le
    by (simp add: core_queue_push_rc core_queue_push_def push_locked_cases min4
        unreserve core_queue_push_finish_def split: if_splits)
  then show ?thesis by blast
next
  case False
  then have "tq_total_workers (snd (core_queue_push q ev now m ok)) = tq_total_workers q"
    using assms by (auto simp: core_queue_push_rc core_queue_push_def push_locked_cases split: if_splits)
  then show ?thesis by (intro exI [of _ 0]) simp
qed

text \<open>\<open>core_queue_push\<close>, called alone, returns -1 exactly on a full queue and -2 exactly when the
  node cannot be allocated, leaving the queue as it was; otherwise it returns 0 and the event is
  the last of the list.  The threads it creates are at most four and at most the free slots, and
  those that could not be created are taken off the counter again.\<close>

theorem core_queue_push_spec:
  assumes "core_queue_push q ev now malloc_ok spawn_ok = (rc, q')"
  shows "rc = (if tq_max_queue_limit q \<le> tq_count q then -1 else if malloc_ok then 0 else -2)
       \<and> (rc \<noteq> 0 \<longrightarrow> q' = q)
       \<and> (rc = 0 \<longrightarrow> tq_tasks q' = tq_tasks q @ [\<lparr> task_event = ev, task_arrival = now \<rparr>]
             \<and> tq_count q' = tq_count q + 1
             \<and> (\<exists>n. tq_total_workers q' = tq_total_workers q + int (length (filter spawn_ok [0..<n]))
                  \<and> (n = 0 \<or> n = nat (min 4 (tq_max_threads_limit q - tq_total_workers q)))))"
  using core_queue_push_rc [of q ev now malloc_ok spawn_ok]
    core_queue_push_refused [of q ev now malloc_ok spawn_ok]
    core_queue_push_total_workers [of q ev now malloc_ok spawn_ok]
    core_queue_push_same(2,3) [of q ev now malloc_ok spawn_ok]
    push_locked_tasks [of q ev now malloc_ok] push_locked_rc [of q ev now malloc_ok]
    push_locked_count [of q ev now malloc_ok] assms
  by simp

theorem core_queue_push_spec_witness:
  "fst (core_queue_push (init_queue 1 2 0) \<lparr> ev_fd = 5, ev_generation = 1, ev_events = 1 \<rparr>
     \<lparr> tv_sec = 0, tv_usec = 0 \<rparr> True (\<lambda>_. True)) = -1"
  using core_queue_push_spec [of "init_queue 1 2 0"
      "\<lparr> ev_fd = 5, ev_generation = 1, ev_events = 1 \<rparr>" "\<lparr> tv_sec = 0, tv_usec = 0 \<rparr>" True "\<lambda>_. True"]
  by (cases "core_queue_push (init_queue 1 2 0) \<lparr> ev_fd = 5, ev_generation = 1, ev_events = 1 \<rparr>
     \<lparr> tv_sec = 0, tv_usec = 0 \<rparr> True (\<lambda>_. True)") (auto simp: init_queue_def)

end
