(* ===== verification/Http_Types.thy ===== *)
theory Http_Types
  imports Halmos_Base
begin

text \<open>
  Texts and the request record the protocol parsers fill (include/halmos/halmos_http1_header.h),
  and the parts of the C library they use on texts.

  A field that is a pointer in the source is an \<open>option\<close>: \<open>None\<close> is \<open>NULL\<close>, \<open>Some s\<close> points to the
  text \<open>s\<close>.  A fixed \<open>char\<close> array is its text up to the terminator.
\<close>

section \<open>C texts\<close>

text \<open>The bytes of a buffer as characters, and the C string a buffer holds: what is before NUL.\<close>

definition text_of :: "bytes \<Rightarrow> string" where
  "text_of = map (\<lambda>b. char_of (unat b))"

definition bytes_of :: "string \<Rightarrow> bytes" where
  "bytes_of = map (\<lambda>c. word_of_nat (of_char c))"

definition cstr :: "string \<Rightarrow> string" where
  "cstr = takeWhile (\<lambda>c. c \<noteq> CHR 0x00)"

lemma text_of_bytes_of [simp]: "text_of (bytes_of s) = s"
  by (simp add: text_of_def bytes_of_def unat_of_nat comp_def)

lemma bytes_of_text_of [simp]: "bytes_of (text_of b) = b"
  by (simp add: text_of_def bytes_of_def comp_def)

lemma length_text_of [simp]: "length (text_of b) = length b"
  by (simp add: text_of_def)

lemma length_bytes_of [simp]: "length (bytes_of b) = length b"
  by (simp add: bytes_of_def)

lemma text_of_Nil [simp]: "text_of [] = []"
  by (simp add: text_of_def)

lemma text_of_append [simp]: "text_of (a @ b) = text_of a @ text_of b"
  by (simp add: text_of_def)

lemma take_text_of [simp]: "take n (text_of b) = text_of (take n b)"
  by (simp add: text_of_def take_map)

lemma length_cstr: "length (cstr s) \<le> length s"
  by (simp add: cstr_def length_takeWhile_le)

lemma cstr_id: "CHR 0x00 \<notin> set s \<Longrightarrow> cstr s = s"
  by (auto simp: cstr_def takeWhile_eq_all_conv)

lemma cstr_no_nul: "CHR 0x00 \<notin> set (cstr s)"
  by (auto simp: cstr_def dest: set_takeWhileD)

lemma cstr_append: "CHR 0x00 \<notin> set a \<Longrightarrow> cstr (a @ b) = a @ cstr b"
  unfolding cstr_def by (rule takeWhile_append2) auto

text \<open>\<open>isspace\<close> and \<open>isdigit\<close> of the C locale.\<close>

definition c_isspace :: "char \<Rightarrow> bool" where
  "c_isspace c \<longleftrightarrow> (let n = of_char c :: nat in n = 32 \<or> (9 \<le> n \<and> n \<le> 13))"

definition c_isdigit :: "char \<Rightarrow> bool" where
  "c_isdigit c \<longleftrightarrow> (let n = of_char c :: nat in 48 \<le> n \<and> n \<le> 57)"

definition digit_val :: "char \<Rightarrow> nat" where
  "digit_val c = of_char c - 48"

definition digits_val :: "string \<Rightarrow> nat" where
  "digits_val = foldl (\<lambda>n c. 10 * n + digit_val c) 0"

text \<open>
  \<open>strtol (s, NULL, 10)\<close> on 64-bit longs: white space, a sign, digits, clamped to the range; and
  the conversion to \<open>int\<close> that follows it, which keeps the low 32 bits.
\<close>

definition c_strtol10 :: "string \<Rightarrow> int" where
  "c_strtol10 s =
     (let t = dropWhile c_isspace s;
          neg = (t \<noteq> [] \<and> hd t = CHR ''-'');
          u = (if t \<noteq> [] \<and> (hd t = CHR ''-'' \<or> hd t = CHR ''+'') then tl t else t);
          v = int (digits_val (takeWhile c_isdigit u))
      in if neg then max (- v) (- (2 ^ 63)) else min v (2 ^ 63 - 1))"

definition c_int :: "int \<Rightarrow> int" where
  "c_int n = (let m = n mod 2 ^ 32 in if m < 2 ^ 31 then m else m - 2 ^ 32)"

lemma c_int_id [simp]: "- (2 ^ 31) \<le> n \<Longrightarrow> n < 2 ^ 31 \<Longrightarrow> c_int n = n"
proof (cases "0 \<le> n")
  case False
  assume "- (2 ^ 31) \<le> n"
  with False have "(n + 2 ^ 32) mod 2 ^ 32 = n + 2 ^ 32"
    by (intro mod_pos_pos_trivial) simp_all
  then have "n mod 2 ^ 32 = n + 2 ^ 32" by simp
  with False \<open>- (2 ^ 31) \<le> n\<close> show ?thesis by (simp add: c_int_def Let_def)
qed (simp add: c_int_def Let_def mod_pos_pos_trivial)

lemma c_int_range: "- (2 ^ 31) \<le> c_int n \<and> c_int n < 2 ^ 31"
proof -
  have "0 \<le> n mod 2 ^ 32" "n mod 2 ^ 32 < 2 ^ 32" by simp_all
  then show ?thesis by (auto simp: c_int_def Let_def)
qed

text \<open>Decimal digits, as \<open>%d\<close> and \<open>%zu\<close> print a number that is not negative.\<close>

fun dec_nat :: "nat \<Rightarrow> string" where
  "dec_nat n = (if n < 10 then [char_of (48 + n)] else dec_nat (n div 10) @ [char_of (48 + n mod 10)])"

declare dec_nat.simps [simp del]

definition dec_int :: "int \<Rightarrow> string" where
  "dec_int n = (if n < 0 then CHR ''-'' # dec_nat (nat (- n)) else dec_nat (nat n))"

text \<open>A \<open>char\<close> widened to \<open>unsigned long\<close>: it is signed, so bytes from 128 on are negative.\<close>

definition schar :: "char \<Rightarrow> u64" where
  "schar c = (if of_char c < (128 :: nat) then word_of_nat (of_char c) else word_of_nat (of_char c) - 256)"

text \<open>The string hash of several tables, \<open>hash * 33 + c\<close> in 64 bits from 5381 on.\<close>

definition djb2 :: "string \<Rightarrow> u64" where
  "djb2 str = foldl (\<lambda>h c. (push_bit 5 h + h) + schar c) 5381 str"

text \<open>\<open>strtok\<close>: the non-empty pieces between delimiters.\<close>

function c_tokens :: "(char \<Rightarrow> bool) \<Rightarrow> string \<Rightarrow> string list" where
  "c_tokens d s =
     (let t = dropWhile d s
      in if t = [] then [] else takeWhile (\<lambda>c. \<not> d c) t # c_tokens d (dropWhile (\<lambda>c. \<not> d c) t))"
  by pat_completeness auto
termination
proof (relation "measure (\<lambda>(_, s). length s)", goal_cases)
  case (2 d s t)
  then obtain c cs where t: "t = c # cs" by (meson neq_Nil_conv)
  with 2 have dw: "dropWhile d s = c # cs" by simp
  with hd_dropWhile [of d s] have "\<not> d c" by simp
  then have "length (dropWhile (\<lambda>c. \<not> d c) t) \<le> length cs"
    using t by (simp add: length_dropWhile_le)
  also have "\<dots> < length s"
    using length_dropWhile_le [of d s] unfolding dw by simp
  finally show ?case by simp
qed simp

declare c_tokens.simps [simp del]

text \<open>What \<open>send\<close> and \<open>SSL_write\<close> answer: bytes taken, would block or interrupted, or an error.\<close>

datatype send_result = Sent nat | SendAgain | SendFail

text \<open>What \<open>recv\<close> answers: bytes, none yet, an error, or the end of the stream.\<close>

datatype recv_result = Received bytes | RecvAgain | RecvFail | RecvEof

text \<open>What the file system says of a path: its size, or what is wrong with it.\<close>

datatype file_state = NoFile | NotOpened | File int nat

section \<open>The request\<close>

text \<open>The backends by name, and a part of a \<open>multipart/form-data\<close> body.\<close>

datatype FcgiBackend = FCGI_PHP | FCGI_PY | FCGI_RS

record MultipartPart =
  mp_name :: "string option"
  mp_filename :: "string option"
  mp_data :: bytes

text \<open>The virtual host of a request is its index in the configuration.\<close>

record RequestHeader =
  rh_client_ip :: string
  rh_method :: string
  rh_uri :: "string option"
  rh_host :: "string option"
  rh_content_type :: "string option"
  rh_cookie_buf :: string
  rh_cookie_data :: "string option"
  rh_content_length :: int
  rh_error_code :: int
  rh_is_tls :: bool
  rh_is_keep_alive :: bool
  rh_is_upgrade :: bool
  rh_is_valid :: bool
  rh_body :: bytes
  rh_http_version :: string
  rh_directory :: "string option"
  rh_query_string :: "string option"
  rh_path_info :: "string option"
  rh_vhost :: "nat option"
  rh_backend_type :: FcgiBackend
  rh_ws_key :: "string option"
  rh_parts :: "MultipartPart list"

text \<open>A request that \<open>calloc\<close> made.\<close>

definition empty_request :: RequestHeader where
  "empty_request = \<lparr> rh_client_ip = [], rh_method = [], rh_uri = None, rh_host = None,
     rh_content_type = None, rh_cookie_buf = [], rh_cookie_data = None, rh_content_length = 0,
     rh_error_code = 0, rh_is_tls = False, rh_is_keep_alive = False, rh_is_upgrade = False,
     rh_is_valid = False, rh_body = [], rh_http_version = [], rh_directory = None,
     rh_query_string = None, rh_path_info = None, rh_vhost = None, rh_backend_type = FCGI_PHP,
     rh_ws_key = None, rh_parts = [] \<rparr>"

definition HTTP2_URI_MAX :: nat where "HTTP2_URI_MAX = 1024"
definition HTTP2_HOST_MAX :: nat where "HTTP2_HOST_MAX = 256"
definition HTTP2_COOKIE_MAX :: nat where "HTTP2_COOKIE_MAX = 1024"
definition HTTP2_CONTENT_TYPE_MAX :: nat where "HTTP2_CONTENT_TYPE_MAX = 128"
definition METHOD_MAX :: nat where "METHOD_MAX = 16"
definition CLIENT_IP_MAX :: nat where "CLIENT_IP_MAX = 45"

lemmas http2_buf_sizes = HTTP2_URI_MAX_def HTTP2_HOST_MAX_def HTTP2_COOKIE_MAX_def
  HTTP2_CONTENT_TYPE_MAX_def METHOD_MAX_def CLIENT_IP_MAX_def

text \<open>Every text fits, with its terminator, in the array it is in.\<close>

definition request_fits :: "RequestHeader \<Rightarrow> bool" where
  "request_fits r \<longleftrightarrow>
     length (rh_client_ip r) < CLIENT_IP_MAX \<and> length (rh_method r) < METHOD_MAX
     \<and> (\<forall>s. rh_uri r = Some s \<longrightarrow> length s < HTTP2_URI_MAX)
     \<and> (\<forall>s. rh_host r = Some s \<longrightarrow> length s < HTTP2_HOST_MAX)
     \<and> (\<forall>s. rh_content_type r = Some s \<longrightarrow> length s < HTTP2_CONTENT_TYPE_MAX)
     \<and> length (rh_cookie_buf r) < HTTP2_COOKIE_MAX
     \<and> (\<forall>s. rh_cookie_data r = Some s \<longrightarrow> s = rh_cookie_buf r)"

end
