(* ===== verification/Huff_Table.thy ===== *)
theory Huff_Table
  imports Halmos_Base
begin

text \<open>
  The Huffman decoder of src/protocol/http2/halmos_http2_hpack.c.  First its table, entry by entry:
  257 states, each with one entry for every 4-bit input.  Eight states are one definition; the
  table is their concatenation.  Then \<open>http2_huffman_decode\<close>, two table look-ups for each byte.
\<close>

text \<open>The C struct: the next state, the flags (1 accepted, 2 a symbol is emitted) and the symbol.\<close>

datatype nghttp2_huff_decode = HD (hd_fstate: nat) (hd_flags: nat) (hd_sym: nat)

definition huff_states_0 :: "nghttp2_huff_decode list list" where
  "huff_states_0 = [
    [
      HD 4 0 0, HD 5 0 0, HD 7 0 0, HD 8 0 0, HD 11 0 0, HD 12 0 0, HD 16 0 0, HD 19 0 0,
      HD 25 0 0, HD 28 0 0, HD 32 0 0, HD 35 0 0, HD 42 0 0, HD 49 0 0, HD 57 0 0, HD 64 1 0],
    [
      HD 0 3 48, HD 0 3 49, HD 0 3 50, HD 0 3 97, HD 0 3 99, HD 0 3 101, HD 0 3 105, HD 0 3 111,
      HD 0 3 115, HD 0 3 116, HD 13 0 0, HD 14 0 0, HD 17 0 0, HD 18 0 0, HD 20 0 0, HD 21 0 0],
    [
      HD 1 2 48, HD 22 3 48, HD 1 2 49, HD 22 3 49, HD 1 2 50, HD 22 3 50, HD 1 2 97, HD 22 3 97,
      HD 1 2 99, HD 22 3 99, HD 1 2 101, HD 22 3 101, HD 1 2 105, HD 22 3 105, HD 1 2 111,
      HD 22 3 111],
    [
      HD 2 2 48, HD 9 2 48, HD 23 2 48, HD 40 3 48, HD 2 2 49, HD 9 2 49, HD 23 2 49, HD 40 3 49,
      HD 2 2 50, HD 9 2 50, HD 23 2 50, HD 40 3 50, HD 2 2 97, HD 9 2 97, HD 23 2 97, HD 40 3 97],
    [
      HD 3 2 48, HD 6 2 48, HD 10 2 48, HD 15 2 48, HD 24 2 48, HD 31 2 48, HD 41 2 48,
      HD 56 3 48, HD 3 2 49, HD 6 2 49, HD 10 2 49, HD 15 2 49, HD 24 2 49, HD 31 2 49,
      HD 41 2 49, HD 56 3 49],
    [
      HD 3 2 50, HD 6 2 50, HD 10 2 50, HD 15 2 50, HD 24 2 50, HD 31 2 50, HD 41 2 50,
      HD 56 3 50, HD 3 2 97, HD 6 2 97, HD 10 2 97, HD 15 2 97, HD 24 2 97, HD 31 2 97,
      HD 41 2 97, HD 56 3 97],
    [
      HD 2 2 99, HD 9 2 99, HD 23 2 99, HD 40 3 99, HD 2 2 101, HD 9 2 101, HD 23 2 101,
      HD 40 3 101, HD 2 2 105, HD 9 2 105, HD 23 2 105, HD 40 3 105, HD 2 2 111, HD 9 2 111,
      HD 23 2 111, HD 40 3 111],
    [
      HD 3 2 99, HD 6 2 99, HD 10 2 99, HD 15 2 99, HD 24 2 99, HD 31 2 99, HD 41 2 99,
      HD 56 3 99, HD 3 2 101, HD 6 2 101, HD 10 2 101, HD 15 2 101, HD 24 2 101, HD 31 2 101,
      HD 41 2 101, HD 56 3 101]]"

definition huff_states_8 :: "nghttp2_huff_decode list list" where
  "huff_states_8 = [
    [
      HD 3 2 105, HD 6 2 105, HD 10 2 105, HD 15 2 105, HD 24 2 105, HD 31 2 105, HD 41 2 105,
      HD 56 3 105, HD 3 2 111, HD 6 2 111, HD 10 2 111, HD 15 2 111, HD 24 2 111, HD 31 2 111,
      HD 41 2 111, HD 56 3 111],
    [
      HD 1 2 115, HD 22 3 115, HD 1 2 116, HD 22 3 116, HD 0 3 32, HD 0 3 37, HD 0 3 45,
      HD 0 3 46, HD 0 3 47, HD 0 3 51, HD 0 3 52, HD 0 3 53, HD 0 3 54, HD 0 3 55, HD 0 3 56,
      HD 0 3 57],
    [
      HD 2 2 115, HD 9 2 115, HD 23 2 115, HD 40 3 115, HD 2 2 116, HD 9 2 116, HD 23 2 116,
      HD 40 3 116, HD 1 2 32, HD 22 3 32, HD 1 2 37, HD 22 3 37, HD 1 2 45, HD 22 3 45, HD 1 2 46,
      HD 22 3 46],
    [
      HD 3 2 115, HD 6 2 115, HD 10 2 115, HD 15 2 115, HD 24 2 115, HD 31 2 115, HD 41 2 115,
      HD 56 3 115, HD 3 2 116, HD 6 2 116, HD 10 2 116, HD 15 2 116, HD 24 2 116, HD 31 2 116,
      HD 41 2 116, HD 56 3 116],
    [
      HD 2 2 32, HD 9 2 32, HD 23 2 32, HD 40 3 32, HD 2 2 37, HD 9 2 37, HD 23 2 37, HD 40 3 37,
      HD 2 2 45, HD 9 2 45, HD 23 2 45, HD 40 3 45, HD 2 2 46, HD 9 2 46, HD 23 2 46, HD 40 3 46],
    [
      HD 3 2 32, HD 6 2 32, HD 10 2 32, HD 15 2 32, HD 24 2 32, HD 31 2 32, HD 41 2 32,
      HD 56 3 32, HD 3 2 37, HD 6 2 37, HD 10 2 37, HD 15 2 37, HD 24 2 37, HD 31 2 37,
      HD 41 2 37, HD 56 3 37],
    [
      HD 3 2 45, HD 6 2 45, HD 10 2 45, HD 15 2 45, HD 24 2 45, HD 31 2 45, HD 41 2 45,
      HD 56 3 45, HD 3 2 46, HD 6 2 46, HD 10 2 46, HD 15 2 46, HD 24 2 46, HD 31 2 46,
      HD 41 2 46, HD 56 3 46],
    [
      HD 1 2 47, HD 22 3 47, HD 1 2 51, HD 22 3 51, HD 1 2 52, HD 22 3 52, HD 1 2 53, HD 22 3 53,
      HD 1 2 54, HD 22 3 54, HD 1 2 55, HD 22 3 55, HD 1 2 56, HD 22 3 56, HD 1 2 57, HD 22 3 57]]"

definition huff_states_16 :: "nghttp2_huff_decode list list" where
  "huff_states_16 = [
    [
      HD 2 2 47, HD 9 2 47, HD 23 2 47, HD 40 3 47, HD 2 2 51, HD 9 2 51, HD 23 2 51, HD 40 3 51,
      HD 2 2 52, HD 9 2 52, HD 23 2 52, HD 40 3 52, HD 2 2 53, HD 9 2 53, HD 23 2 53, HD 40 3 53],
    [
      HD 3 2 47, HD 6 2 47, HD 10 2 47, HD 15 2 47, HD 24 2 47, HD 31 2 47, HD 41 2 47,
      HD 56 3 47, HD 3 2 51, HD 6 2 51, HD 10 2 51, HD 15 2 51, HD 24 2 51, HD 31 2 51,
      HD 41 2 51, HD 56 3 51],
    [
      HD 3 2 52, HD 6 2 52, HD 10 2 52, HD 15 2 52, HD 24 2 52, HD 31 2 52, HD 41 2 52,
      HD 56 3 52, HD 3 2 53, HD 6 2 53, HD 10 2 53, HD 15 2 53, HD 24 2 53, HD 31 2 53,
      HD 41 2 53, HD 56 3 53],
    [
      HD 2 2 54, HD 9 2 54, HD 23 2 54, HD 40 3 54, HD 2 2 55, HD 9 2 55, HD 23 2 55, HD 40 3 55,
      HD 2 2 56, HD 9 2 56, HD 23 2 56, HD 40 3 56, HD 2 2 57, HD 9 2 57, HD 23 2 57, HD 40 3 57],
    [
      HD 3 2 54, HD 6 2 54, HD 10 2 54, HD 15 2 54, HD 24 2 54, HD 31 2 54, HD 41 2 54,
      HD 56 3 54, HD 3 2 55, HD 6 2 55, HD 10 2 55, HD 15 2 55, HD 24 2 55, HD 31 2 55,
      HD 41 2 55, HD 56 3 55],
    [
      HD 3 2 56, HD 6 2 56, HD 10 2 56, HD 15 2 56, HD 24 2 56, HD 31 2 56, HD 41 2 56,
      HD 56 3 56, HD 3 2 57, HD 6 2 57, HD 10 2 57, HD 15 2 57, HD 24 2 57, HD 31 2 57,
      HD 41 2 57, HD 56 3 57],
    [
      HD 26 0 0, HD 27 0 0, HD 29 0 0, HD 30 0 0, HD 33 0 0, HD 34 0 0, HD 36 0 0, HD 37 0 0,
      HD 43 0 0, HD 46 0 0, HD 50 0 0, HD 53 0 0, HD 58 0 0, HD 61 0 0, HD 65 0 0, HD 68 1 0],
    [
      HD 0 3 61, HD 0 3 65, HD 0 3 95, HD 0 3 98, HD 0 3 100, HD 0 3 102, HD 0 3 103, HD 0 3 104,
      HD 0 3 108, HD 0 3 109, HD 0 3 110, HD 0 3 112, HD 0 3 114, HD 0 3 117, HD 38 0 0, HD 39 0 0]]"

definition huff_states_24 :: "nghttp2_huff_decode list list" where
  "huff_states_24 = [
    [
      HD 1 2 61, HD 22 3 61, HD 1 2 65, HD 22 3 65, HD 1 2 95, HD 22 3 95, HD 1 2 98, HD 22 3 98,
      HD 1 2 100, HD 22 3 100, HD 1 2 102, HD 22 3 102, HD 1 2 103, HD 22 3 103, HD 1 2 104,
      HD 22 3 104],
    [
      HD 2 2 61, HD 9 2 61, HD 23 2 61, HD 40 3 61, HD 2 2 65, HD 9 2 65, HD 23 2 65, HD 40 3 65,
      HD 2 2 95, HD 9 2 95, HD 23 2 95, HD 40 3 95, HD 2 2 98, HD 9 2 98, HD 23 2 98, HD 40 3 98],
    [
      HD 3 2 61, HD 6 2 61, HD 10 2 61, HD 15 2 61, HD 24 2 61, HD 31 2 61, HD 41 2 61,
      HD 56 3 61, HD 3 2 65, HD 6 2 65, HD 10 2 65, HD 15 2 65, HD 24 2 65, HD 31 2 65,
      HD 41 2 65, HD 56 3 65],
    [
      HD 3 2 95, HD 6 2 95, HD 10 2 95, HD 15 2 95, HD 24 2 95, HD 31 2 95, HD 41 2 95,
      HD 56 3 95, HD 3 2 98, HD 6 2 98, HD 10 2 98, HD 15 2 98, HD 24 2 98, HD 31 2 98,
      HD 41 2 98, HD 56 3 98],
    [
      HD 2 2 100, HD 9 2 100, HD 23 2 100, HD 40 3 100, HD 2 2 102, HD 9 2 102, HD 23 2 102,
      HD 40 3 102, HD 2 2 103, HD 9 2 103, HD 23 2 103, HD 40 3 103, HD 2 2 104, HD 9 2 104,
      HD 23 2 104, HD 40 3 104],
    [
      HD 3 2 100, HD 6 2 100, HD 10 2 100, HD 15 2 100, HD 24 2 100, HD 31 2 100, HD 41 2 100,
      HD 56 3 100, HD 3 2 102, HD 6 2 102, HD 10 2 102, HD 15 2 102, HD 24 2 102, HD 31 2 102,
      HD 41 2 102, HD 56 3 102],
    [
      HD 3 2 103, HD 6 2 103, HD 10 2 103, HD 15 2 103, HD 24 2 103, HD 31 2 103, HD 41 2 103,
      HD 56 3 103, HD 3 2 104, HD 6 2 104, HD 10 2 104, HD 15 2 104, HD 24 2 104, HD 31 2 104,
      HD 41 2 104, HD 56 3 104],
    [
      HD 1 2 108, HD 22 3 108, HD 1 2 109, HD 22 3 109, HD 1 2 110, HD 22 3 110, HD 1 2 112,
      HD 22 3 112, HD 1 2 114, HD 22 3 114, HD 1 2 117, HD 22 3 117, HD 0 3 58, HD 0 3 66,
      HD 0 3 67, HD 0 3 68]]"

definition huff_states_32 :: "nghttp2_huff_decode list list" where
  "huff_states_32 = [
    [
      HD 2 2 108, HD 9 2 108, HD 23 2 108, HD 40 3 108, HD 2 2 109, HD 9 2 109, HD 23 2 109,
      HD 40 3 109, HD 2 2 110, HD 9 2 110, HD 23 2 110, HD 40 3 110, HD 2 2 112, HD 9 2 112,
      HD 23 2 112, HD 40 3 112],
    [
      HD 3 2 108, HD 6 2 108, HD 10 2 108, HD 15 2 108, HD 24 2 108, HD 31 2 108, HD 41 2 108,
      HD 56 3 108, HD 3 2 109, HD 6 2 109, HD 10 2 109, HD 15 2 109, HD 24 2 109, HD 31 2 109,
      HD 41 2 109, HD 56 3 109],
    [
      HD 3 2 110, HD 6 2 110, HD 10 2 110, HD 15 2 110, HD 24 2 110, HD 31 2 110, HD 41 2 110,
      HD 56 3 110, HD 3 2 112, HD 6 2 112, HD 10 2 112, HD 15 2 112, HD 24 2 112, HD 31 2 112,
      HD 41 2 112, HD 56 3 112],
    [
      HD 2 2 114, HD 9 2 114, HD 23 2 114, HD 40 3 114, HD 2 2 117, HD 9 2 117, HD 23 2 117,
      HD 40 3 117, HD 1 2 58, HD 22 3 58, HD 1 2 66, HD 22 3 66, HD 1 2 67, HD 22 3 67, HD 1 2 68,
      HD 22 3 68],
    [
      HD 3 2 114, HD 6 2 114, HD 10 2 114, HD 15 2 114, HD 24 2 114, HD 31 2 114, HD 41 2 114,
      HD 56 3 114, HD 3 2 117, HD 6 2 117, HD 10 2 117, HD 15 2 117, HD 24 2 117, HD 31 2 117,
      HD 41 2 117, HD 56 3 117],
    [
      HD 2 2 58, HD 9 2 58, HD 23 2 58, HD 40 3 58, HD 2 2 66, HD 9 2 66, HD 23 2 66, HD 40 3 66,
      HD 2 2 67, HD 9 2 67, HD 23 2 67, HD 40 3 67, HD 2 2 68, HD 9 2 68, HD 23 2 68, HD 40 3 68],
    [
      HD 3 2 58, HD 6 2 58, HD 10 2 58, HD 15 2 58, HD 24 2 58, HD 31 2 58, HD 41 2 58,
      HD 56 3 58, HD 3 2 66, HD 6 2 66, HD 10 2 66, HD 15 2 66, HD 24 2 66, HD 31 2 66,
      HD 41 2 66, HD 56 3 66],
    [
      HD 3 2 67, HD 6 2 67, HD 10 2 67, HD 15 2 67, HD 24 2 67, HD 31 2 67, HD 41 2 67,
      HD 56 3 67, HD 3 2 68, HD 6 2 68, HD 10 2 68, HD 15 2 68, HD 24 2 68, HD 31 2 68,
      HD 41 2 68, HD 56 3 68]]"

definition huff_states_40 :: "nghttp2_huff_decode list list" where
  "huff_states_40 = [
    [
      HD 44 0 0, HD 45 0 0, HD 47 0 0, HD 48 0 0, HD 51 0 0, HD 52 0 0, HD 54 0 0, HD 55 0 0,
      HD 59 0 0, HD 60 0 0, HD 62 0 0, HD 63 0 0, HD 66 0 0, HD 67 0 0, HD 69 0 0, HD 72 1 0],
    [
      HD 0 3 69, HD 0 3 70, HD 0 3 71, HD 0 3 72, HD 0 3 73, HD 0 3 74, HD 0 3 75, HD 0 3 76,
      HD 0 3 77, HD 0 3 78, HD 0 3 79, HD 0 3 80, HD 0 3 81, HD 0 3 82, HD 0 3 83, HD 0 3 84],
    [
      HD 1 2 69, HD 22 3 69, HD 1 2 70, HD 22 3 70, HD 1 2 71, HD 22 3 71, HD 1 2 72, HD 22 3 72,
      HD 1 2 73, HD 22 3 73, HD 1 2 74, HD 22 3 74, HD 1 2 75, HD 22 3 75, HD 1 2 76, HD 22 3 76],
    [
      HD 2 2 69, HD 9 2 69, HD 23 2 69, HD 40 3 69, HD 2 2 70, HD 9 2 70, HD 23 2 70, HD 40 3 70,
      HD 2 2 71, HD 9 2 71, HD 23 2 71, HD 40 3 71, HD 2 2 72, HD 9 2 72, HD 23 2 72, HD 40 3 72],
    [
      HD 3 2 69, HD 6 2 69, HD 10 2 69, HD 15 2 69, HD 24 2 69, HD 31 2 69, HD 41 2 69,
      HD 56 3 69, HD 3 2 70, HD 6 2 70, HD 10 2 70, HD 15 2 70, HD 24 2 70, HD 31 2 70,
      HD 41 2 70, HD 56 3 70],
    [
      HD 3 2 71, HD 6 2 71, HD 10 2 71, HD 15 2 71, HD 24 2 71, HD 31 2 71, HD 41 2 71,
      HD 56 3 71, HD 3 2 72, HD 6 2 72, HD 10 2 72, HD 15 2 72, HD 24 2 72, HD 31 2 72,
      HD 41 2 72, HD 56 3 72],
    [
      HD 2 2 73, HD 9 2 73, HD 23 2 73, HD 40 3 73, HD 2 2 74, HD 9 2 74, HD 23 2 74, HD 40 3 74,
      HD 2 2 75, HD 9 2 75, HD 23 2 75, HD 40 3 75, HD 2 2 76, HD 9 2 76, HD 23 2 76, HD 40 3 76],
    [
      HD 3 2 73, HD 6 2 73, HD 10 2 73, HD 15 2 73, HD 24 2 73, HD 31 2 73, HD 41 2 73,
      HD 56 3 73, HD 3 2 74, HD 6 2 74, HD 10 2 74, HD 15 2 74, HD 24 2 74, HD 31 2 74,
      HD 41 2 74, HD 56 3 74]]"

definition huff_states_48 :: "nghttp2_huff_decode list list" where
  "huff_states_48 = [
    [
      HD 3 2 75, HD 6 2 75, HD 10 2 75, HD 15 2 75, HD 24 2 75, HD 31 2 75, HD 41 2 75,
      HD 56 3 75, HD 3 2 76, HD 6 2 76, HD 10 2 76, HD 15 2 76, HD 24 2 76, HD 31 2 76,
      HD 41 2 76, HD 56 3 76],
    [
      HD 1 2 77, HD 22 3 77, HD 1 2 78, HD 22 3 78, HD 1 2 79, HD 22 3 79, HD 1 2 80, HD 22 3 80,
      HD 1 2 81, HD 22 3 81, HD 1 2 82, HD 22 3 82, HD 1 2 83, HD 22 3 83, HD 1 2 84, HD 22 3 84],
    [
      HD 2 2 77, HD 9 2 77, HD 23 2 77, HD 40 3 77, HD 2 2 78, HD 9 2 78, HD 23 2 78, HD 40 3 78,
      HD 2 2 79, HD 9 2 79, HD 23 2 79, HD 40 3 79, HD 2 2 80, HD 9 2 80, HD 23 2 80, HD 40 3 80],
    [
      HD 3 2 77, HD 6 2 77, HD 10 2 77, HD 15 2 77, HD 24 2 77, HD 31 2 77, HD 41 2 77,
      HD 56 3 77, HD 3 2 78, HD 6 2 78, HD 10 2 78, HD 15 2 78, HD 24 2 78, HD 31 2 78,
      HD 41 2 78, HD 56 3 78],
    [
      HD 3 2 79, HD 6 2 79, HD 10 2 79, HD 15 2 79, HD 24 2 79, HD 31 2 79, HD 41 2 79,
      HD 56 3 79, HD 3 2 80, HD 6 2 80, HD 10 2 80, HD 15 2 80, HD 24 2 80, HD 31 2 80,
      HD 41 2 80, HD 56 3 80],
    [
      HD 2 2 81, HD 9 2 81, HD 23 2 81, HD 40 3 81, HD 2 2 82, HD 9 2 82, HD 23 2 82, HD 40 3 82,
      HD 2 2 83, HD 9 2 83, HD 23 2 83, HD 40 3 83, HD 2 2 84, HD 9 2 84, HD 23 2 84, HD 40 3 84],
    [
      HD 3 2 81, HD 6 2 81, HD 10 2 81, HD 15 2 81, HD 24 2 81, HD 31 2 81, HD 41 2 81,
      HD 56 3 81, HD 3 2 82, HD 6 2 82, HD 10 2 82, HD 15 2 82, HD 24 2 82, HD 31 2 82,
      HD 41 2 82, HD 56 3 82],
    [
      HD 3 2 83, HD 6 2 83, HD 10 2 83, HD 15 2 83, HD 24 2 83, HD 31 2 83, HD 41 2 83,
      HD 56 3 83, HD 3 2 84, HD 6 2 84, HD 10 2 84, HD 15 2 84, HD 24 2 84, HD 31 2 84,
      HD 41 2 84, HD 56 3 84]]"

definition huff_states_56 :: "nghttp2_huff_decode list list" where
  "huff_states_56 = [
    [
      HD 0 3 85, HD 0 3 86, HD 0 3 87, HD 0 3 89, HD 0 3 106, HD 0 3 107, HD 0 3 113, HD 0 3 118,
      HD 0 3 119, HD 0 3 120, HD 0 3 121, HD 0 3 122, HD 70 0 0, HD 71 0 0, HD 73 0 0, HD 74 1 0],
    [
      HD 1 2 85, HD 22 3 85, HD 1 2 86, HD 22 3 86, HD 1 2 87, HD 22 3 87, HD 1 2 89, HD 22 3 89,
      HD 1 2 106, HD 22 3 106, HD 1 2 107, HD 22 3 107, HD 1 2 113, HD 22 3 113, HD 1 2 118,
      HD 22 3 118],
    [
      HD 2 2 85, HD 9 2 85, HD 23 2 85, HD 40 3 85, HD 2 2 86, HD 9 2 86, HD 23 2 86, HD 40 3 86,
      HD 2 2 87, HD 9 2 87, HD 23 2 87, HD 40 3 87, HD 2 2 89, HD 9 2 89, HD 23 2 89, HD 40 3 89],
    [
      HD 3 2 85, HD 6 2 85, HD 10 2 85, HD 15 2 85, HD 24 2 85, HD 31 2 85, HD 41 2 85,
      HD 56 3 85, HD 3 2 86, HD 6 2 86, HD 10 2 86, HD 15 2 86, HD 24 2 86, HD 31 2 86,
      HD 41 2 86, HD 56 3 86],
    [
      HD 3 2 87, HD 6 2 87, HD 10 2 87, HD 15 2 87, HD 24 2 87, HD 31 2 87, HD 41 2 87,
      HD 56 3 87, HD 3 2 89, HD 6 2 89, HD 10 2 89, HD 15 2 89, HD 24 2 89, HD 31 2 89,
      HD 41 2 89, HD 56 3 89],
    [
      HD 2 2 106, HD 9 2 106, HD 23 2 106, HD 40 3 106, HD 2 2 107, HD 9 2 107, HD 23 2 107,
      HD 40 3 107, HD 2 2 113, HD 9 2 113, HD 23 2 113, HD 40 3 113, HD 2 2 118, HD 9 2 118,
      HD 23 2 118, HD 40 3 118],
    [
      HD 3 2 106, HD 6 2 106, HD 10 2 106, HD 15 2 106, HD 24 2 106, HD 31 2 106, HD 41 2 106,
      HD 56 3 106, HD 3 2 107, HD 6 2 107, HD 10 2 107, HD 15 2 107, HD 24 2 107, HD 31 2 107,
      HD 41 2 107, HD 56 3 107],
    [
      HD 3 2 113, HD 6 2 113, HD 10 2 113, HD 15 2 113, HD 24 2 113, HD 31 2 113, HD 41 2 113,
      HD 56 3 113, HD 3 2 118, HD 6 2 118, HD 10 2 118, HD 15 2 118, HD 24 2 118, HD 31 2 118,
      HD 41 2 118, HD 56 3 118]]"

definition huff_states_64 :: "nghttp2_huff_decode list list" where
  "huff_states_64 = [
    [
      HD 1 2 119, HD 22 3 119, HD 1 2 120, HD 22 3 120, HD 1 2 121, HD 22 3 121, HD 1 2 122,
      HD 22 3 122, HD 0 3 38, HD 0 3 42, HD 0 3 44, HD 0 3 59, HD 0 3 88, HD 0 3 90, HD 75 0 0,
      HD 78 0 0],
    [
      HD 2 2 119, HD 9 2 119, HD 23 2 119, HD 40 3 119, HD 2 2 120, HD 9 2 120, HD 23 2 120,
      HD 40 3 120, HD 2 2 121, HD 9 2 121, HD 23 2 121, HD 40 3 121, HD 2 2 122, HD 9 2 122,
      HD 23 2 122, HD 40 3 122],
    [
      HD 3 2 119, HD 6 2 119, HD 10 2 119, HD 15 2 119, HD 24 2 119, HD 31 2 119, HD 41 2 119,
      HD 56 3 119, HD 3 2 120, HD 6 2 120, HD 10 2 120, HD 15 2 120, HD 24 2 120, HD 31 2 120,
      HD 41 2 120, HD 56 3 120],
    [
      HD 3 2 121, HD 6 2 121, HD 10 2 121, HD 15 2 121, HD 24 2 121, HD 31 2 121, HD 41 2 121,
      HD 56 3 121, HD 3 2 122, HD 6 2 122, HD 10 2 122, HD 15 2 122, HD 24 2 122, HD 31 2 122,
      HD 41 2 122, HD 56 3 122],
    [
      HD 1 2 38, HD 22 3 38, HD 1 2 42, HD 22 3 42, HD 1 2 44, HD 22 3 44, HD 1 2 59, HD 22 3 59,
      HD 1 2 88, HD 22 3 88, HD 1 2 90, HD 22 3 90, HD 76 0 0, HD 77 0 0, HD 79 0 0, HD 81 0 0],
    [
      HD 2 2 38, HD 9 2 38, HD 23 2 38, HD 40 3 38, HD 2 2 42, HD 9 2 42, HD 23 2 42, HD 40 3 42,
      HD 2 2 44, HD 9 2 44, HD 23 2 44, HD 40 3 44, HD 2 2 59, HD 9 2 59, HD 23 2 59, HD 40 3 59],
    [
      HD 3 2 38, HD 6 2 38, HD 10 2 38, HD 15 2 38, HD 24 2 38, HD 31 2 38, HD 41 2 38,
      HD 56 3 38, HD 3 2 42, HD 6 2 42, HD 10 2 42, HD 15 2 42, HD 24 2 42, HD 31 2 42,
      HD 41 2 42, HD 56 3 42],
    [
      HD 3 2 44, HD 6 2 44, HD 10 2 44, HD 15 2 44, HD 24 2 44, HD 31 2 44, HD 41 2 44,
      HD 56 3 44, HD 3 2 59, HD 6 2 59, HD 10 2 59, HD 15 2 59, HD 24 2 59, HD 31 2 59,
      HD 41 2 59, HD 56 3 59]]"

definition huff_states_72 :: "nghttp2_huff_decode list list" where
  "huff_states_72 = [
    [
      HD 2 2 88, HD 9 2 88, HD 23 2 88, HD 40 3 88, HD 2 2 90, HD 9 2 90, HD 23 2 90, HD 40 3 90,
      HD 0 3 33, HD 0 3 34, HD 0 3 40, HD 0 3 41, HD 0 3 63, HD 80 0 0, HD 82 0 0, HD 84 0 0],
    [
      HD 3 2 88, HD 6 2 88, HD 10 2 88, HD 15 2 88, HD 24 2 88, HD 31 2 88, HD 41 2 88,
      HD 56 3 88, HD 3 2 90, HD 6 2 90, HD 10 2 90, HD 15 2 90, HD 24 2 90, HD 31 2 90,
      HD 41 2 90, HD 56 3 90],
    [
      HD 1 2 33, HD 22 3 33, HD 1 2 34, HD 22 3 34, HD 1 2 40, HD 22 3 40, HD 1 2 41, HD 22 3 41,
      HD 1 2 63, HD 22 3 63, HD 0 3 39, HD 0 3 43, HD 0 3 124, HD 83 0 0, HD 85 0 0, HD 88 0 0],
    [
      HD 2 2 33, HD 9 2 33, HD 23 2 33, HD 40 3 33, HD 2 2 34, HD 9 2 34, HD 23 2 34, HD 40 3 34,
      HD 2 2 40, HD 9 2 40, HD 23 2 40, HD 40 3 40, HD 2 2 41, HD 9 2 41, HD 23 2 41, HD 40 3 41],
    [
      HD 3 2 33, HD 6 2 33, HD 10 2 33, HD 15 2 33, HD 24 2 33, HD 31 2 33, HD 41 2 33,
      HD 56 3 33, HD 3 2 34, HD 6 2 34, HD 10 2 34, HD 15 2 34, HD 24 2 34, HD 31 2 34,
      HD 41 2 34, HD 56 3 34],
    [
      HD 3 2 40, HD 6 2 40, HD 10 2 40, HD 15 2 40, HD 24 2 40, HD 31 2 40, HD 41 2 40,
      HD 56 3 40, HD 3 2 41, HD 6 2 41, HD 10 2 41, HD 15 2 41, HD 24 2 41, HD 31 2 41,
      HD 41 2 41, HD 56 3 41],
    [
      HD 2 2 63, HD 9 2 63, HD 23 2 63, HD 40 3 63, HD 1 2 39, HD 22 3 39, HD 1 2 43, HD 22 3 43,
      HD 1 2 124, HD 22 3 124, HD 0 3 35, HD 0 3 62, HD 86 0 0, HD 87 0 0, HD 89 0 0, HD 90 0 0],
    [
      HD 3 2 63, HD 6 2 63, HD 10 2 63, HD 15 2 63, HD 24 2 63, HD 31 2 63, HD 41 2 63,
      HD 56 3 63, HD 2 2 39, HD 9 2 39, HD 23 2 39, HD 40 3 39, HD 2 2 43, HD 9 2 43, HD 23 2 43,
      HD 40 3 43]]"

definition huff_states_80 :: "nghttp2_huff_decode list list" where
  "huff_states_80 = [
    [
      HD 3 2 39, HD 6 2 39, HD 10 2 39, HD 15 2 39, HD 24 2 39, HD 31 2 39, HD 41 2 39,
      HD 56 3 39, HD 3 2 43, HD 6 2 43, HD 10 2 43, HD 15 2 43, HD 24 2 43, HD 31 2 43,
      HD 41 2 43, HD 56 3 43],
    [
      HD 2 2 124, HD 9 2 124, HD 23 2 124, HD 40 3 124, HD 1 2 35, HD 22 3 35, HD 1 2 62,
      HD 22 3 62, HD 0 3 0, HD 0 3 36, HD 0 3 64, HD 0 3 91, HD 0 3 93, HD 0 3 126, HD 91 0 0,
      HD 92 0 0],
    [
      HD 3 2 124, HD 6 2 124, HD 10 2 124, HD 15 2 124, HD 24 2 124, HD 31 2 124, HD 41 2 124,
      HD 56 3 124, HD 2 2 35, HD 9 2 35, HD 23 2 35, HD 40 3 35, HD 2 2 62, HD 9 2 62, HD 23 2 62,
      HD 40 3 62],
    [
      HD 3 2 35, HD 6 2 35, HD 10 2 35, HD 15 2 35, HD 24 2 35, HD 31 2 35, HD 41 2 35,
      HD 56 3 35, HD 3 2 62, HD 6 2 62, HD 10 2 62, HD 15 2 62, HD 24 2 62, HD 31 2 62,
      HD 41 2 62, HD 56 3 62],
    [
      HD 1 2 0, HD 22 3 0, HD 1 2 36, HD 22 3 36, HD 1 2 64, HD 22 3 64, HD 1 2 91, HD 22 3 91,
      HD 1 2 93, HD 22 3 93, HD 1 2 126, HD 22 3 126, HD 0 3 94, HD 0 3 125, HD 93 0 0, HD 94 0 0],
    [
      HD 2 2 0, HD 9 2 0, HD 23 2 0, HD 40 3 0, HD 2 2 36, HD 9 2 36, HD 23 2 36, HD 40 3 36,
      HD 2 2 64, HD 9 2 64, HD 23 2 64, HD 40 3 64, HD 2 2 91, HD 9 2 91, HD 23 2 91, HD 40 3 91],
    [
      HD 3 2 0, HD 6 2 0, HD 10 2 0, HD 15 2 0, HD 24 2 0, HD 31 2 0, HD 41 2 0, HD 56 3 0,
      HD 3 2 36, HD 6 2 36, HD 10 2 36, HD 15 2 36, HD 24 2 36, HD 31 2 36, HD 41 2 36, HD 56 3 36],
    [
      HD 3 2 64, HD 6 2 64, HD 10 2 64, HD 15 2 64, HD 24 2 64, HD 31 2 64, HD 41 2 64,
      HD 56 3 64, HD 3 2 91, HD 6 2 91, HD 10 2 91, HD 15 2 91, HD 24 2 91, HD 31 2 91,
      HD 41 2 91, HD 56 3 91]]"

definition huff_states_88 :: "nghttp2_huff_decode list list" where
  "huff_states_88 = [
    [
      HD 2 2 93, HD 9 2 93, HD 23 2 93, HD 40 3 93, HD 2 2 126, HD 9 2 126, HD 23 2 126,
      HD 40 3 126, HD 1 2 94, HD 22 3 94, HD 1 2 125, HD 22 3 125, HD 0 3 60, HD 0 3 96,
      HD 0 3 123, HD 95 0 0],
    [
      HD 3 2 93, HD 6 2 93, HD 10 2 93, HD 15 2 93, HD 24 2 93, HD 31 2 93, HD 41 2 93,
      HD 56 3 93, HD 3 2 126, HD 6 2 126, HD 10 2 126, HD 15 2 126, HD 24 2 126, HD 31 2 126,
      HD 41 2 126, HD 56 3 126],
    [
      HD 2 2 94, HD 9 2 94, HD 23 2 94, HD 40 3 94, HD 2 2 125, HD 9 2 125, HD 23 2 125,
      HD 40 3 125, HD 1 2 60, HD 22 3 60, HD 1 2 96, HD 22 3 96, HD 1 2 123, HD 22 3 123,
      HD 96 0 0, HD 110 0 0],
    [
      HD 3 2 94, HD 6 2 94, HD 10 2 94, HD 15 2 94, HD 24 2 94, HD 31 2 94, HD 41 2 94,
      HD 56 3 94, HD 3 2 125, HD 6 2 125, HD 10 2 125, HD 15 2 125, HD 24 2 125, HD 31 2 125,
      HD 41 2 125, HD 56 3 125],
    [
      HD 2 2 60, HD 9 2 60, HD 23 2 60, HD 40 3 60, HD 2 2 96, HD 9 2 96, HD 23 2 96, HD 40 3 96,
      HD 2 2 123, HD 9 2 123, HD 23 2 123, HD 40 3 123, HD 97 0 0, HD 101 0 0, HD 111 0 0,
      HD 133 0 0],
    [
      HD 3 2 60, HD 6 2 60, HD 10 2 60, HD 15 2 60, HD 24 2 60, HD 31 2 60, HD 41 2 60,
      HD 56 3 60, HD 3 2 96, HD 6 2 96, HD 10 2 96, HD 15 2 96, HD 24 2 96, HD 31 2 96,
      HD 41 2 96, HD 56 3 96],
    [
      HD 3 2 123, HD 6 2 123, HD 10 2 123, HD 15 2 123, HD 24 2 123, HD 31 2 123, HD 41 2 123,
      HD 56 3 123, HD 98 0 0, HD 99 0 0, HD 102 0 0, HD 105 0 0, HD 112 0 0, HD 119 0 0,
      HD 134 0 0, HD 153 0 0],
    [
      HD 0 3 92, HD 0 3 195, HD 0 3 208, HD 100 0 0, HD 103 0 0, HD 104 0 0, HD 106 0 0,
      HD 107 0 0, HD 113 0 0, HD 116 0 0, HD 120 0 0, HD 126 0 0, HD 135 0 0, HD 142 0 0,
      HD 154 0 0, HD 169 0 0]]"

definition huff_states_96 :: "nghttp2_huff_decode list list" where
  "huff_states_96 = [
    [
      HD 1 2 92, HD 22 3 92, HD 1 2 195, HD 22 3 195, HD 1 2 208, HD 22 3 208, HD 0 3 128,
      HD 0 3 130, HD 0 3 131, HD 0 3 162, HD 0 3 184, HD 0 3 194, HD 0 3 224, HD 0 3 226,
      HD 108 0 0, HD 109 0 0],
    [
      HD 2 2 92, HD 9 2 92, HD 23 2 92, HD 40 3 92, HD 2 2 195, HD 9 2 195, HD 23 2 195,
      HD 40 3 195, HD 2 2 208, HD 9 2 208, HD 23 2 208, HD 40 3 208, HD 1 2 128, HD 22 3 128,
      HD 1 2 130, HD 22 3 130],
    [
      HD 3 2 92, HD 6 2 92, HD 10 2 92, HD 15 2 92, HD 24 2 92, HD 31 2 92, HD 41 2 92,
      HD 56 3 92, HD 3 2 195, HD 6 2 195, HD 10 2 195, HD 15 2 195, HD 24 2 195, HD 31 2 195,
      HD 41 2 195, HD 56 3 195],
    [
      HD 3 2 208, HD 6 2 208, HD 10 2 208, HD 15 2 208, HD 24 2 208, HD 31 2 208, HD 41 2 208,
      HD 56 3 208, HD 2 2 128, HD 9 2 128, HD 23 2 128, HD 40 3 128, HD 2 2 130, HD 9 2 130,
      HD 23 2 130, HD 40 3 130],
    [
      HD 3 2 128, HD 6 2 128, HD 10 2 128, HD 15 2 128, HD 24 2 128, HD 31 2 128, HD 41 2 128,
      HD 56 3 128, HD 3 2 130, HD 6 2 130, HD 10 2 130, HD 15 2 130, HD 24 2 130, HD 31 2 130,
      HD 41 2 130, HD 56 3 130],
    [
      HD 1 2 131, HD 22 3 131, HD 1 2 162, HD 22 3 162, HD 1 2 184, HD 22 3 184, HD 1 2 194,
      HD 22 3 194, HD 1 2 224, HD 22 3 224, HD 1 2 226, HD 22 3 226, HD 0 3 153, HD 0 3 161,
      HD 0 3 167, HD 0 3 172],
    [
      HD 2 2 131, HD 9 2 131, HD 23 2 131, HD 40 3 131, HD 2 2 162, HD 9 2 162, HD 23 2 162,
      HD 40 3 162, HD 2 2 184, HD 9 2 184, HD 23 2 184, HD 40 3 184, HD 2 2 194, HD 9 2 194,
      HD 23 2 194, HD 40 3 194],
    [
      HD 3 2 131, HD 6 2 131, HD 10 2 131, HD 15 2 131, HD 24 2 131, HD 31 2 131, HD 41 2 131,
      HD 56 3 131, HD 3 2 162, HD 6 2 162, HD 10 2 162, HD 15 2 162, HD 24 2 162, HD 31 2 162,
      HD 41 2 162, HD 56 3 162]]"

definition huff_states_104 :: "nghttp2_huff_decode list list" where
  "huff_states_104 = [
    [
      HD 3 2 184, HD 6 2 184, HD 10 2 184, HD 15 2 184, HD 24 2 184, HD 31 2 184, HD 41 2 184,
      HD 56 3 184, HD 3 2 194, HD 6 2 194, HD 10 2 194, HD 15 2 194, HD 24 2 194, HD 31 2 194,
      HD 41 2 194, HD 56 3 194],
    [
      HD 2 2 224, HD 9 2 224, HD 23 2 224, HD 40 3 224, HD 2 2 226, HD 9 2 226, HD 23 2 226,
      HD 40 3 226, HD 1 2 153, HD 22 3 153, HD 1 2 161, HD 22 3 161, HD 1 2 167, HD 22 3 167,
      HD 1 2 172, HD 22 3 172],
    [
      HD 3 2 224, HD 6 2 224, HD 10 2 224, HD 15 2 224, HD 24 2 224, HD 31 2 224, HD 41 2 224,
      HD 56 3 224, HD 3 2 226, HD 6 2 226, HD 10 2 226, HD 15 2 226, HD 24 2 226, HD 31 2 226,
      HD 41 2 226, HD 56 3 226],
    [
      HD 2 2 153, HD 9 2 153, HD 23 2 153, HD 40 3 153, HD 2 2 161, HD 9 2 161, HD 23 2 161,
      HD 40 3 161, HD 2 2 167, HD 9 2 167, HD 23 2 167, HD 40 3 167, HD 2 2 172, HD 9 2 172,
      HD 23 2 172, HD 40 3 172],
    [
      HD 3 2 153, HD 6 2 153, HD 10 2 153, HD 15 2 153, HD 24 2 153, HD 31 2 153, HD 41 2 153,
      HD 56 3 153, HD 3 2 161, HD 6 2 161, HD 10 2 161, HD 15 2 161, HD 24 2 161, HD 31 2 161,
      HD 41 2 161, HD 56 3 161],
    [
      HD 3 2 167, HD 6 2 167, HD 10 2 167, HD 15 2 167, HD 24 2 167, HD 31 2 167, HD 41 2 167,
      HD 56 3 167, HD 3 2 172, HD 6 2 172, HD 10 2 172, HD 15 2 172, HD 24 2 172, HD 31 2 172,
      HD 41 2 172, HD 56 3 172],
    [
      HD 114 0 0, HD 115 0 0, HD 117 0 0, HD 118 0 0, HD 121 0 0, HD 123 0 0, HD 127 0 0,
      HD 130 0 0, HD 136 0 0, HD 139 0 0, HD 143 0 0, HD 146 0 0, HD 155 0 0, HD 162 0 0,
      HD 170 0 0, HD 180 0 0],
    [
      HD 0 3 176, HD 0 3 177, HD 0 3 179, HD 0 3 209, HD 0 3 216, HD 0 3 217, HD 0 3 227,
      HD 0 3 229, HD 0 3 230, HD 122 0 0, HD 124 0 0, HD 125 0 0, HD 128 0 0, HD 129 0 0,
      HD 131 0 0, HD 132 0 0]]"

definition huff_states_112 :: "nghttp2_huff_decode list list" where
  "huff_states_112 = [
    [
      HD 1 2 176, HD 22 3 176, HD 1 2 177, HD 22 3 177, HD 1 2 179, HD 22 3 179, HD 1 2 209,
      HD 22 3 209, HD 1 2 216, HD 22 3 216, HD 1 2 217, HD 22 3 217, HD 1 2 227, HD 22 3 227,
      HD 1 2 229, HD 22 3 229],
    [
      HD 2 2 176, HD 9 2 176, HD 23 2 176, HD 40 3 176, HD 2 2 177, HD 9 2 177, HD 23 2 177,
      HD 40 3 177, HD 2 2 179, HD 9 2 179, HD 23 2 179, HD 40 3 179, HD 2 2 209, HD 9 2 209,
      HD 23 2 209, HD 40 3 209],
    [
      HD 3 2 176, HD 6 2 176, HD 10 2 176, HD 15 2 176, HD 24 2 176, HD 31 2 176, HD 41 2 176,
      HD 56 3 176, HD 3 2 177, HD 6 2 177, HD 10 2 177, HD 15 2 177, HD 24 2 177, HD 31 2 177,
      HD 41 2 177, HD 56 3 177],
    [
      HD 3 2 179, HD 6 2 179, HD 10 2 179, HD 15 2 179, HD 24 2 179, HD 31 2 179, HD 41 2 179,
      HD 56 3 179, HD 3 2 209, HD 6 2 209, HD 10 2 209, HD 15 2 209, HD 24 2 209, HD 31 2 209,
      HD 41 2 209, HD 56 3 209],
    [
      HD 2 2 216, HD 9 2 216, HD 23 2 216, HD 40 3 216, HD 2 2 217, HD 9 2 217, HD 23 2 217,
      HD 40 3 217, HD 2 2 227, HD 9 2 227, HD 23 2 227, HD 40 3 227, HD 2 2 229, HD 9 2 229,
      HD 23 2 229, HD 40 3 229],
    [
      HD 3 2 216, HD 6 2 216, HD 10 2 216, HD 15 2 216, HD 24 2 216, HD 31 2 216, HD 41 2 216,
      HD 56 3 216, HD 3 2 217, HD 6 2 217, HD 10 2 217, HD 15 2 217, HD 24 2 217, HD 31 2 217,
      HD 41 2 217, HD 56 3 217],
    [
      HD 3 2 227, HD 6 2 227, HD 10 2 227, HD 15 2 227, HD 24 2 227, HD 31 2 227, HD 41 2 227,
      HD 56 3 227, HD 3 2 229, HD 6 2 229, HD 10 2 229, HD 15 2 229, HD 24 2 229, HD 31 2 229,
      HD 41 2 229, HD 56 3 229],
    [
      HD 1 2 230, HD 22 3 230, HD 0 3 129, HD 0 3 132, HD 0 3 133, HD 0 3 134, HD 0 3 136,
      HD 0 3 146, HD 0 3 154, HD 0 3 156, HD 0 3 160, HD 0 3 163, HD 0 3 164, HD 0 3 169,
      HD 0 3 170, HD 0 3 173]]"

definition huff_states_120 :: "nghttp2_huff_decode list list" where
  "huff_states_120 = [
    [
      HD 2 2 230, HD 9 2 230, HD 23 2 230, HD 40 3 230, HD 1 2 129, HD 22 3 129, HD 1 2 132,
      HD 22 3 132, HD 1 2 133, HD 22 3 133, HD 1 2 134, HD 22 3 134, HD 1 2 136, HD 22 3 136,
      HD 1 2 146, HD 22 3 146],
    [
      HD 3 2 230, HD 6 2 230, HD 10 2 230, HD 15 2 230, HD 24 2 230, HD 31 2 230, HD 41 2 230,
      HD 56 3 230, HD 2 2 129, HD 9 2 129, HD 23 2 129, HD 40 3 129, HD 2 2 132, HD 9 2 132,
      HD 23 2 132, HD 40 3 132],
    [
      HD 3 2 129, HD 6 2 129, HD 10 2 129, HD 15 2 129, HD 24 2 129, HD 31 2 129, HD 41 2 129,
      HD 56 3 129, HD 3 2 132, HD 6 2 132, HD 10 2 132, HD 15 2 132, HD 24 2 132, HD 31 2 132,
      HD 41 2 132, HD 56 3 132],
    [
      HD 2 2 133, HD 9 2 133, HD 23 2 133, HD 40 3 133, HD 2 2 134, HD 9 2 134, HD 23 2 134,
      HD 40 3 134, HD 2 2 136, HD 9 2 136, HD 23 2 136, HD 40 3 136, HD 2 2 146, HD 9 2 146,
      HD 23 2 146, HD 40 3 146],
    [
      HD 3 2 133, HD 6 2 133, HD 10 2 133, HD 15 2 133, HD 24 2 133, HD 31 2 133, HD 41 2 133,
      HD 56 3 133, HD 3 2 134, HD 6 2 134, HD 10 2 134, HD 15 2 134, HD 24 2 134, HD 31 2 134,
      HD 41 2 134, HD 56 3 134],
    [
      HD 3 2 136, HD 6 2 136, HD 10 2 136, HD 15 2 136, HD 24 2 136, HD 31 2 136, HD 41 2 136,
      HD 56 3 136, HD 3 2 146, HD 6 2 146, HD 10 2 146, HD 15 2 146, HD 24 2 146, HD 31 2 146,
      HD 41 2 146, HD 56 3 146],
    [
      HD 1 2 154, HD 22 3 154, HD 1 2 156, HD 22 3 156, HD 1 2 160, HD 22 3 160, HD 1 2 163,
      HD 22 3 163, HD 1 2 164, HD 22 3 164, HD 1 2 169, HD 22 3 169, HD 1 2 170, HD 22 3 170,
      HD 1 2 173, HD 22 3 173],
    [
      HD 2 2 154, HD 9 2 154, HD 23 2 154, HD 40 3 154, HD 2 2 156, HD 9 2 156, HD 23 2 156,
      HD 40 3 156, HD 2 2 160, HD 9 2 160, HD 23 2 160, HD 40 3 160, HD 2 2 163, HD 9 2 163,
      HD 23 2 163, HD 40 3 163]]"

definition huff_states_128 :: "nghttp2_huff_decode list list" where
  "huff_states_128 = [
    [
      HD 3 2 154, HD 6 2 154, HD 10 2 154, HD 15 2 154, HD 24 2 154, HD 31 2 154, HD 41 2 154,
      HD 56 3 154, HD 3 2 156, HD 6 2 156, HD 10 2 156, HD 15 2 156, HD 24 2 156, HD 31 2 156,
      HD 41 2 156, HD 56 3 156],
    [
      HD 3 2 160, HD 6 2 160, HD 10 2 160, HD 15 2 160, HD 24 2 160, HD 31 2 160, HD 41 2 160,
      HD 56 3 160, HD 3 2 163, HD 6 2 163, HD 10 2 163, HD 15 2 163, HD 24 2 163, HD 31 2 163,
      HD 41 2 163, HD 56 3 163],
    [
      HD 2 2 164, HD 9 2 164, HD 23 2 164, HD 40 3 164, HD 2 2 169, HD 9 2 169, HD 23 2 169,
      HD 40 3 169, HD 2 2 170, HD 9 2 170, HD 23 2 170, HD 40 3 170, HD 2 2 173, HD 9 2 173,
      HD 23 2 173, HD 40 3 173],
    [
      HD 3 2 164, HD 6 2 164, HD 10 2 164, HD 15 2 164, HD 24 2 164, HD 31 2 164, HD 41 2 164,
      HD 56 3 164, HD 3 2 169, HD 6 2 169, HD 10 2 169, HD 15 2 169, HD 24 2 169, HD 31 2 169,
      HD 41 2 169, HD 56 3 169],
    [
      HD 3 2 170, HD 6 2 170, HD 10 2 170, HD 15 2 170, HD 24 2 170, HD 31 2 170, HD 41 2 170,
      HD 56 3 170, HD 3 2 173, HD 6 2 173, HD 10 2 173, HD 15 2 173, HD 24 2 173, HD 31 2 173,
      HD 41 2 173, HD 56 3 173],
    [
      HD 137 0 0, HD 138 0 0, HD 140 0 0, HD 141 0 0, HD 144 0 0, HD 145 0 0, HD 147 0 0,
      HD 150 0 0, HD 156 0 0, HD 159 0 0, HD 163 0 0, HD 166 0 0, HD 171 0 0, HD 174 0 0,
      HD 181 0 0, HD 190 0 0],
    [
      HD 0 3 178, HD 0 3 181, HD 0 3 185, HD 0 3 186, HD 0 3 187, HD 0 3 189, HD 0 3 190,
      HD 0 3 196, HD 0 3 198, HD 0 3 228, HD 0 3 232, HD 0 3 233, HD 148 0 0, HD 149 0 0,
      HD 151 0 0, HD 152 0 0],
    [
      HD 1 2 178, HD 22 3 178, HD 1 2 181, HD 22 3 181, HD 1 2 185, HD 22 3 185, HD 1 2 186,
      HD 22 3 186, HD 1 2 187, HD 22 3 187, HD 1 2 189, HD 22 3 189, HD 1 2 190, HD 22 3 190,
      HD 1 2 196, HD 22 3 196]]"

definition huff_states_136 :: "nghttp2_huff_decode list list" where
  "huff_states_136 = [
    [
      HD 2 2 178, HD 9 2 178, HD 23 2 178, HD 40 3 178, HD 2 2 181, HD 9 2 181, HD 23 2 181,
      HD 40 3 181, HD 2 2 185, HD 9 2 185, HD 23 2 185, HD 40 3 185, HD 2 2 186, HD 9 2 186,
      HD 23 2 186, HD 40 3 186],
    [
      HD 3 2 178, HD 6 2 178, HD 10 2 178, HD 15 2 178, HD 24 2 178, HD 31 2 178, HD 41 2 178,
      HD 56 3 178, HD 3 2 181, HD 6 2 181, HD 10 2 181, HD 15 2 181, HD 24 2 181, HD 31 2 181,
      HD 41 2 181, HD 56 3 181],
    [
      HD 3 2 185, HD 6 2 185, HD 10 2 185, HD 15 2 185, HD 24 2 185, HD 31 2 185, HD 41 2 185,
      HD 56 3 185, HD 3 2 186, HD 6 2 186, HD 10 2 186, HD 15 2 186, HD 24 2 186, HD 31 2 186,
      HD 41 2 186, HD 56 3 186],
    [
      HD 2 2 187, HD 9 2 187, HD 23 2 187, HD 40 3 187, HD 2 2 189, HD 9 2 189, HD 23 2 189,
      HD 40 3 189, HD 2 2 190, HD 9 2 190, HD 23 2 190, HD 40 3 190, HD 2 2 196, HD 9 2 196,
      HD 23 2 196, HD 40 3 196],
    [
      HD 3 2 187, HD 6 2 187, HD 10 2 187, HD 15 2 187, HD 24 2 187, HD 31 2 187, HD 41 2 187,
      HD 56 3 187, HD 3 2 189, HD 6 2 189, HD 10 2 189, HD 15 2 189, HD 24 2 189, HD 31 2 189,
      HD 41 2 189, HD 56 3 189],
    [
      HD 3 2 190, HD 6 2 190, HD 10 2 190, HD 15 2 190, HD 24 2 190, HD 31 2 190, HD 41 2 190,
      HD 56 3 190, HD 3 2 196, HD 6 2 196, HD 10 2 196, HD 15 2 196, HD 24 2 196, HD 31 2 196,
      HD 41 2 196, HD 56 3 196],
    [
      HD 1 2 198, HD 22 3 198, HD 1 2 228, HD 22 3 228, HD 1 2 232, HD 22 3 232, HD 1 2 233,
      HD 22 3 233, HD 0 3 1, HD 0 3 135, HD 0 3 137, HD 0 3 138, HD 0 3 139, HD 0 3 140,
      HD 0 3 141, HD 0 3 143],
    [
      HD 2 2 198, HD 9 2 198, HD 23 2 198, HD 40 3 198, HD 2 2 228, HD 9 2 228, HD 23 2 228,
      HD 40 3 228, HD 2 2 232, HD 9 2 232, HD 23 2 232, HD 40 3 232, HD 2 2 233, HD 9 2 233,
      HD 23 2 233, HD 40 3 233]]"

definition huff_states_144 :: "nghttp2_huff_decode list list" where
  "huff_states_144 = [
    [
      HD 3 2 198, HD 6 2 198, HD 10 2 198, HD 15 2 198, HD 24 2 198, HD 31 2 198, HD 41 2 198,
      HD 56 3 198, HD 3 2 228, HD 6 2 228, HD 10 2 228, HD 15 2 228, HD 24 2 228, HD 31 2 228,
      HD 41 2 228, HD 56 3 228],
    [
      HD 3 2 232, HD 6 2 232, HD 10 2 232, HD 15 2 232, HD 24 2 232, HD 31 2 232, HD 41 2 232,
      HD 56 3 232, HD 3 2 233, HD 6 2 233, HD 10 2 233, HD 15 2 233, HD 24 2 233, HD 31 2 233,
      HD 41 2 233, HD 56 3 233],
    [
      HD 1 2 1, HD 22 3 1, HD 1 2 135, HD 22 3 135, HD 1 2 137, HD 22 3 137, HD 1 2 138,
      HD 22 3 138, HD 1 2 139, HD 22 3 139, HD 1 2 140, HD 22 3 140, HD 1 2 141, HD 22 3 141,
      HD 1 2 143, HD 22 3 143],
    [
      HD 2 2 1, HD 9 2 1, HD 23 2 1, HD 40 3 1, HD 2 2 135, HD 9 2 135, HD 23 2 135, HD 40 3 135,
      HD 2 2 137, HD 9 2 137, HD 23 2 137, HD 40 3 137, HD 2 2 138, HD 9 2 138, HD 23 2 138,
      HD 40 3 138],
    [
      HD 3 2 1, HD 6 2 1, HD 10 2 1, HD 15 2 1, HD 24 2 1, HD 31 2 1, HD 41 2 1, HD 56 3 1,
      HD 3 2 135, HD 6 2 135, HD 10 2 135, HD 15 2 135, HD 24 2 135, HD 31 2 135, HD 41 2 135,
      HD 56 3 135],
    [
      HD 3 2 137, HD 6 2 137, HD 10 2 137, HD 15 2 137, HD 24 2 137, HD 31 2 137, HD 41 2 137,
      HD 56 3 137, HD 3 2 138, HD 6 2 138, HD 10 2 138, HD 15 2 138, HD 24 2 138, HD 31 2 138,
      HD 41 2 138, HD 56 3 138],
    [
      HD 2 2 139, HD 9 2 139, HD 23 2 139, HD 40 3 139, HD 2 2 140, HD 9 2 140, HD 23 2 140,
      HD 40 3 140, HD 2 2 141, HD 9 2 141, HD 23 2 141, HD 40 3 141, HD 2 2 143, HD 9 2 143,
      HD 23 2 143, HD 40 3 143],
    [
      HD 3 2 139, HD 6 2 139, HD 10 2 139, HD 15 2 139, HD 24 2 139, HD 31 2 139, HD 41 2 139,
      HD 56 3 139, HD 3 2 140, HD 6 2 140, HD 10 2 140, HD 15 2 140, HD 24 2 140, HD 31 2 140,
      HD 41 2 140, HD 56 3 140]]"

definition huff_states_152 :: "nghttp2_huff_decode list list" where
  "huff_states_152 = [
    [
      HD 3 2 141, HD 6 2 141, HD 10 2 141, HD 15 2 141, HD 24 2 141, HD 31 2 141, HD 41 2 141,
      HD 56 3 141, HD 3 2 143, HD 6 2 143, HD 10 2 143, HD 15 2 143, HD 24 2 143, HD 31 2 143,
      HD 41 2 143, HD 56 3 143],
    [
      HD 157 0 0, HD 158 0 0, HD 160 0 0, HD 161 0 0, HD 164 0 0, HD 165 0 0, HD 167 0 0,
      HD 168 0 0, HD 172 0 0, HD 173 0 0, HD 175 0 0, HD 177 0 0, HD 182 0 0, HD 185 0 0,
      HD 191 0 0, HD 207 0 0],
    [
      HD 0 3 147, HD 0 3 149, HD 0 3 150, HD 0 3 151, HD 0 3 152, HD 0 3 155, HD 0 3 157,
      HD 0 3 158, HD 0 3 165, HD 0 3 166, HD 0 3 168, HD 0 3 174, HD 0 3 175, HD 0 3 180,
      HD 0 3 182, HD 0 3 183],
    [
      HD 1 2 147, HD 22 3 147, HD 1 2 149, HD 22 3 149, HD 1 2 150, HD 22 3 150, HD 1 2 151,
      HD 22 3 151, HD 1 2 152, HD 22 3 152, HD 1 2 155, HD 22 3 155, HD 1 2 157, HD 22 3 157,
      HD 1 2 158, HD 22 3 158],
    [
      HD 2 2 147, HD 9 2 147, HD 23 2 147, HD 40 3 147, HD 2 2 149, HD 9 2 149, HD 23 2 149,
      HD 40 3 149, HD 2 2 150, HD 9 2 150, HD 23 2 150, HD 40 3 150, HD 2 2 151, HD 9 2 151,
      HD 23 2 151, HD 40 3 151],
    [
      HD 3 2 147, HD 6 2 147, HD 10 2 147, HD 15 2 147, HD 24 2 147, HD 31 2 147, HD 41 2 147,
      HD 56 3 147, HD 3 2 149, HD 6 2 149, HD 10 2 149, HD 15 2 149, HD 24 2 149, HD 31 2 149,
      HD 41 2 149, HD 56 3 149],
    [
      HD 3 2 150, HD 6 2 150, HD 10 2 150, HD 15 2 150, HD 24 2 150, HD 31 2 150, HD 41 2 150,
      HD 56 3 150, HD 3 2 151, HD 6 2 151, HD 10 2 151, HD 15 2 151, HD 24 2 151, HD 31 2 151,
      HD 41 2 151, HD 56 3 151],
    [
      HD 2 2 152, HD 9 2 152, HD 23 2 152, HD 40 3 152, HD 2 2 155, HD 9 2 155, HD 23 2 155,
      HD 40 3 155, HD 2 2 157, HD 9 2 157, HD 23 2 157, HD 40 3 157, HD 2 2 158, HD 9 2 158,
      HD 23 2 158, HD 40 3 158]]"

definition huff_states_160 :: "nghttp2_huff_decode list list" where
  "huff_states_160 = [
    [
      HD 3 2 152, HD 6 2 152, HD 10 2 152, HD 15 2 152, HD 24 2 152, HD 31 2 152, HD 41 2 152,
      HD 56 3 152, HD 3 2 155, HD 6 2 155, HD 10 2 155, HD 15 2 155, HD 24 2 155, HD 31 2 155,
      HD 41 2 155, HD 56 3 155],
    [
      HD 3 2 157, HD 6 2 157, HD 10 2 157, HD 15 2 157, HD 24 2 157, HD 31 2 157, HD 41 2 157,
      HD 56 3 157, HD 3 2 158, HD 6 2 158, HD 10 2 158, HD 15 2 158, HD 24 2 158, HD 31 2 158,
      HD 41 2 158, HD 56 3 158],
    [
      HD 1 2 165, HD 22 3 165, HD 1 2 166, HD 22 3 166, HD 1 2 168, HD 22 3 168, HD 1 2 174,
      HD 22 3 174, HD 1 2 175, HD 22 3 175, HD 1 2 180, HD 22 3 180, HD 1 2 182, HD 22 3 182,
      HD 1 2 183, HD 22 3 183],
    [
      HD 2 2 165, HD 9 2 165, HD 23 2 165, HD 40 3 165, HD 2 2 166, HD 9 2 166, HD 23 2 166,
      HD 40 3 166, HD 2 2 168, HD 9 2 168, HD 23 2 168, HD 40 3 168, HD 2 2 174, HD 9 2 174,
      HD 23 2 174, HD 40 3 174],
    [
      HD 3 2 165, HD 6 2 165, HD 10 2 165, HD 15 2 165, HD 24 2 165, HD 31 2 165, HD 41 2 165,
      HD 56 3 165, HD 3 2 166, HD 6 2 166, HD 10 2 166, HD 15 2 166, HD 24 2 166, HD 31 2 166,
      HD 41 2 166, HD 56 3 166],
    [
      HD 3 2 168, HD 6 2 168, HD 10 2 168, HD 15 2 168, HD 24 2 168, HD 31 2 168, HD 41 2 168,
      HD 56 3 168, HD 3 2 174, HD 6 2 174, HD 10 2 174, HD 15 2 174, HD 24 2 174, HD 31 2 174,
      HD 41 2 174, HD 56 3 174],
    [
      HD 2 2 175, HD 9 2 175, HD 23 2 175, HD 40 3 175, HD 2 2 180, HD 9 2 180, HD 23 2 180,
      HD 40 3 180, HD 2 2 182, HD 9 2 182, HD 23 2 182, HD 40 3 182, HD 2 2 183, HD 9 2 183,
      HD 23 2 183, HD 40 3 183],
    [
      HD 3 2 175, HD 6 2 175, HD 10 2 175, HD 15 2 175, HD 24 2 175, HD 31 2 175, HD 41 2 175,
      HD 56 3 175, HD 3 2 180, HD 6 2 180, HD 10 2 180, HD 15 2 180, HD 24 2 180, HD 31 2 180,
      HD 41 2 180, HD 56 3 180]]"

definition huff_states_168 :: "nghttp2_huff_decode list list" where
  "huff_states_168 = [
    [
      HD 3 2 182, HD 6 2 182, HD 10 2 182, HD 15 2 182, HD 24 2 182, HD 31 2 182, HD 41 2 182,
      HD 56 3 182, HD 3 2 183, HD 6 2 183, HD 10 2 183, HD 15 2 183, HD 24 2 183, HD 31 2 183,
      HD 41 2 183, HD 56 3 183],
    [
      HD 0 3 188, HD 0 3 191, HD 0 3 197, HD 0 3 231, HD 0 3 239, HD 176 0 0, HD 178 0 0,
      HD 179 0 0, HD 183 0 0, HD 184 0 0, HD 186 0 0, HD 187 0 0, HD 192 0 0, HD 199 0 0,
      HD 208 0 0, HD 223 0 0],
    [
      HD 1 2 188, HD 22 3 188, HD 1 2 191, HD 22 3 191, HD 1 2 197, HD 22 3 197, HD 1 2 231,
      HD 22 3 231, HD 1 2 239, HD 22 3 239, HD 0 3 9, HD 0 3 142, HD 0 3 144, HD 0 3 145,
      HD 0 3 148, HD 0 3 159],
    [
      HD 2 2 188, HD 9 2 188, HD 23 2 188, HD 40 3 188, HD 2 2 191, HD 9 2 191, HD 23 2 191,
      HD 40 3 191, HD 2 2 197, HD 9 2 197, HD 23 2 197, HD 40 3 197, HD 2 2 231, HD 9 2 231,
      HD 23 2 231, HD 40 3 231],
    [
      HD 3 2 188, HD 6 2 188, HD 10 2 188, HD 15 2 188, HD 24 2 188, HD 31 2 188, HD 41 2 188,
      HD 56 3 188, HD 3 2 191, HD 6 2 191, HD 10 2 191, HD 15 2 191, HD 24 2 191, HD 31 2 191,
      HD 41 2 191, HD 56 3 191],
    [
      HD 3 2 197, HD 6 2 197, HD 10 2 197, HD 15 2 197, HD 24 2 197, HD 31 2 197, HD 41 2 197,
      HD 56 3 197, HD 3 2 231, HD 6 2 231, HD 10 2 231, HD 15 2 231, HD 24 2 231, HD 31 2 231,
      HD 41 2 231, HD 56 3 231],
    [
      HD 2 2 239, HD 9 2 239, HD 23 2 239, HD 40 3 239, HD 1 2 9, HD 22 3 9, HD 1 2 142,
      HD 22 3 142, HD 1 2 144, HD 22 3 144, HD 1 2 145, HD 22 3 145, HD 1 2 148, HD 22 3 148,
      HD 1 2 159, HD 22 3 159],
    [
      HD 3 2 239, HD 6 2 239, HD 10 2 239, HD 15 2 239, HD 24 2 239, HD 31 2 239, HD 41 2 239,
      HD 56 3 239, HD 2 2 9, HD 9 2 9, HD 23 2 9, HD 40 3 9, HD 2 2 142, HD 9 2 142, HD 23 2 142,
      HD 40 3 142]]"

definition huff_states_176 :: "nghttp2_huff_decode list list" where
  "huff_states_176 = [
    [
      HD 3 2 9, HD 6 2 9, HD 10 2 9, HD 15 2 9, HD 24 2 9, HD 31 2 9, HD 41 2 9, HD 56 3 9,
      HD 3 2 142, HD 6 2 142, HD 10 2 142, HD 15 2 142, HD 24 2 142, HD 31 2 142, HD 41 2 142,
      HD 56 3 142],
    [
      HD 2 2 144, HD 9 2 144, HD 23 2 144, HD 40 3 144, HD 2 2 145, HD 9 2 145, HD 23 2 145,
      HD 40 3 145, HD 2 2 148, HD 9 2 148, HD 23 2 148, HD 40 3 148, HD 2 2 159, HD 9 2 159,
      HD 23 2 159, HD 40 3 159],
    [
      HD 3 2 144, HD 6 2 144, HD 10 2 144, HD 15 2 144, HD 24 2 144, HD 31 2 144, HD 41 2 144,
      HD 56 3 144, HD 3 2 145, HD 6 2 145, HD 10 2 145, HD 15 2 145, HD 24 2 145, HD 31 2 145,
      HD 41 2 145, HD 56 3 145],
    [
      HD 3 2 148, HD 6 2 148, HD 10 2 148, HD 15 2 148, HD 24 2 148, HD 31 2 148, HD 41 2 148,
      HD 56 3 148, HD 3 2 159, HD 6 2 159, HD 10 2 159, HD 15 2 159, HD 24 2 159, HD 31 2 159,
      HD 41 2 159, HD 56 3 159],
    [
      HD 0 3 171, HD 0 3 206, HD 0 3 215, HD 0 3 225, HD 0 3 236, HD 0 3 237, HD 188 0 0,
      HD 189 0 0, HD 193 0 0, HD 196 0 0, HD 200 0 0, HD 203 0 0, HD 209 0 0, HD 216 0 0,
      HD 224 0 0, HD 238 0 0],
    [
      HD 1 2 171, HD 22 3 171, HD 1 2 206, HD 22 3 206, HD 1 2 215, HD 22 3 215, HD 1 2 225,
      HD 22 3 225, HD 1 2 236, HD 22 3 236, HD 1 2 237, HD 22 3 237, HD 0 3 199, HD 0 3 207,
      HD 0 3 234, HD 0 3 235],
    [
      HD 2 2 171, HD 9 2 171, HD 23 2 171, HD 40 3 171, HD 2 2 206, HD 9 2 206, HD 23 2 206,
      HD 40 3 206, HD 2 2 215, HD 9 2 215, HD 23 2 215, HD 40 3 215, HD 2 2 225, HD 9 2 225,
      HD 23 2 225, HD 40 3 225],
    [
      HD 3 2 171, HD 6 2 171, HD 10 2 171, HD 15 2 171, HD 24 2 171, HD 31 2 171, HD 41 2 171,
      HD 56 3 171, HD 3 2 206, HD 6 2 206, HD 10 2 206, HD 15 2 206, HD 24 2 206, HD 31 2 206,
      HD 41 2 206, HD 56 3 206]]"

definition huff_states_184 :: "nghttp2_huff_decode list list" where
  "huff_states_184 = [
    [
      HD 3 2 215, HD 6 2 215, HD 10 2 215, HD 15 2 215, HD 24 2 215, HD 31 2 215, HD 41 2 215,
      HD 56 3 215, HD 3 2 225, HD 6 2 225, HD 10 2 225, HD 15 2 225, HD 24 2 225, HD 31 2 225,
      HD 41 2 225, HD 56 3 225],
    [
      HD 2 2 236, HD 9 2 236, HD 23 2 236, HD 40 3 236, HD 2 2 237, HD 9 2 237, HD 23 2 237,
      HD 40 3 237, HD 1 2 199, HD 22 3 199, HD 1 2 207, HD 22 3 207, HD 1 2 234, HD 22 3 234,
      HD 1 2 235, HD 22 3 235],
    [
      HD 3 2 236, HD 6 2 236, HD 10 2 236, HD 15 2 236, HD 24 2 236, HD 31 2 236, HD 41 2 236,
      HD 56 3 236, HD 3 2 237, HD 6 2 237, HD 10 2 237, HD 15 2 237, HD 24 2 237, HD 31 2 237,
      HD 41 2 237, HD 56 3 237],
    [
      HD 2 2 199, HD 9 2 199, HD 23 2 199, HD 40 3 199, HD 2 2 207, HD 9 2 207, HD 23 2 207,
      HD 40 3 207, HD 2 2 234, HD 9 2 234, HD 23 2 234, HD 40 3 234, HD 2 2 235, HD 9 2 235,
      HD 23 2 235, HD 40 3 235],
    [
      HD 3 2 199, HD 6 2 199, HD 10 2 199, HD 15 2 199, HD 24 2 199, HD 31 2 199, HD 41 2 199,
      HD 56 3 199, HD 3 2 207, HD 6 2 207, HD 10 2 207, HD 15 2 207, HD 24 2 207, HD 31 2 207,
      HD 41 2 207, HD 56 3 207],
    [
      HD 3 2 234, HD 6 2 234, HD 10 2 234, HD 15 2 234, HD 24 2 234, HD 31 2 234, HD 41 2 234,
      HD 56 3 234, HD 3 2 235, HD 6 2 235, HD 10 2 235, HD 15 2 235, HD 24 2 235, HD 31 2 235,
      HD 41 2 235, HD 56 3 235],
    [
      HD 194 0 0, HD 195 0 0, HD 197 0 0, HD 198 0 0, HD 201 0 0, HD 202 0 0, HD 204 0 0,
      HD 205 0 0, HD 210 0 0, HD 213 0 0, HD 217 0 0, HD 220 0 0, HD 225 0 0, HD 231 0 0,
      HD 239 0 0, HD 246 0 0],
    [
      HD 0 3 192, HD 0 3 193, HD 0 3 200, HD 0 3 201, HD 0 3 202, HD 0 3 205, HD 0 3 210,
      HD 0 3 213, HD 0 3 218, HD 0 3 219, HD 0 3 238, HD 0 3 240, HD 0 3 242, HD 0 3 243,
      HD 0 3 255, HD 206 0 0]]"

definition huff_states_192 :: "nghttp2_huff_decode list list" where
  "huff_states_192 = [
    [
      HD 1 2 192, HD 22 3 192, HD 1 2 193, HD 22 3 193, HD 1 2 200, HD 22 3 200, HD 1 2 201,
      HD 22 3 201, HD 1 2 202, HD 22 3 202, HD 1 2 205, HD 22 3 205, HD 1 2 210, HD 22 3 210,
      HD 1 2 213, HD 22 3 213],
    [
      HD 2 2 192, HD 9 2 192, HD 23 2 192, HD 40 3 192, HD 2 2 193, HD 9 2 193, HD 23 2 193,
      HD 40 3 193, HD 2 2 200, HD 9 2 200, HD 23 2 200, HD 40 3 200, HD 2 2 201, HD 9 2 201,
      HD 23 2 201, HD 40 3 201],
    [
      HD 3 2 192, HD 6 2 192, HD 10 2 192, HD 15 2 192, HD 24 2 192, HD 31 2 192, HD 41 2 192,
      HD 56 3 192, HD 3 2 193, HD 6 2 193, HD 10 2 193, HD 15 2 193, HD 24 2 193, HD 31 2 193,
      HD 41 2 193, HD 56 3 193],
    [
      HD 3 2 200, HD 6 2 200, HD 10 2 200, HD 15 2 200, HD 24 2 200, HD 31 2 200, HD 41 2 200,
      HD 56 3 200, HD 3 2 201, HD 6 2 201, HD 10 2 201, HD 15 2 201, HD 24 2 201, HD 31 2 201,
      HD 41 2 201, HD 56 3 201],
    [
      HD 2 2 202, HD 9 2 202, HD 23 2 202, HD 40 3 202, HD 2 2 205, HD 9 2 205, HD 23 2 205,
      HD 40 3 205, HD 2 2 210, HD 9 2 210, HD 23 2 210, HD 40 3 210, HD 2 2 213, HD 9 2 213,
      HD 23 2 213, HD 40 3 213],
    [
      HD 3 2 202, HD 6 2 202, HD 10 2 202, HD 15 2 202, HD 24 2 202, HD 31 2 202, HD 41 2 202,
      HD 56 3 202, HD 3 2 205, HD 6 2 205, HD 10 2 205, HD 15 2 205, HD 24 2 205, HD 31 2 205,
      HD 41 2 205, HD 56 3 205],
    [
      HD 3 2 210, HD 6 2 210, HD 10 2 210, HD 15 2 210, HD 24 2 210, HD 31 2 210, HD 41 2 210,
      HD 56 3 210, HD 3 2 213, HD 6 2 213, HD 10 2 213, HD 15 2 213, HD 24 2 213, HD 31 2 213,
      HD 41 2 213, HD 56 3 213],
    [
      HD 1 2 218, HD 22 3 218, HD 1 2 219, HD 22 3 219, HD 1 2 238, HD 22 3 238, HD 1 2 240,
      HD 22 3 240, HD 1 2 242, HD 22 3 242, HD 1 2 243, HD 22 3 243, HD 1 2 255, HD 22 3 255,
      HD 0 3 203, HD 0 3 204]]"

definition huff_states_200 :: "nghttp2_huff_decode list list" where
  "huff_states_200 = [
    [
      HD 2 2 218, HD 9 2 218, HD 23 2 218, HD 40 3 218, HD 2 2 219, HD 9 2 219, HD 23 2 219,
      HD 40 3 219, HD 2 2 238, HD 9 2 238, HD 23 2 238, HD 40 3 238, HD 2 2 240, HD 9 2 240,
      HD 23 2 240, HD 40 3 240],
    [
      HD 3 2 218, HD 6 2 218, HD 10 2 218, HD 15 2 218, HD 24 2 218, HD 31 2 218, HD 41 2 218,
      HD 56 3 218, HD 3 2 219, HD 6 2 219, HD 10 2 219, HD 15 2 219, HD 24 2 219, HD 31 2 219,
      HD 41 2 219, HD 56 3 219],
    [
      HD 3 2 238, HD 6 2 238, HD 10 2 238, HD 15 2 238, HD 24 2 238, HD 31 2 238, HD 41 2 238,
      HD 56 3 238, HD 3 2 240, HD 6 2 240, HD 10 2 240, HD 15 2 240, HD 24 2 240, HD 31 2 240,
      HD 41 2 240, HD 56 3 240],
    [
      HD 2 2 242, HD 9 2 242, HD 23 2 242, HD 40 3 242, HD 2 2 243, HD 9 2 243, HD 23 2 243,
      HD 40 3 243, HD 2 2 255, HD 9 2 255, HD 23 2 255, HD 40 3 255, HD 1 2 203, HD 22 3 203,
      HD 1 2 204, HD 22 3 204],
    [
      HD 3 2 242, HD 6 2 242, HD 10 2 242, HD 15 2 242, HD 24 2 242, HD 31 2 242, HD 41 2 242,
      HD 56 3 242, HD 3 2 243, HD 6 2 243, HD 10 2 243, HD 15 2 243, HD 24 2 243, HD 31 2 243,
      HD 41 2 243, HD 56 3 243],
    [
      HD 3 2 255, HD 6 2 255, HD 10 2 255, HD 15 2 255, HD 24 2 255, HD 31 2 255, HD 41 2 255,
      HD 56 3 255, HD 2 2 203, HD 9 2 203, HD 23 2 203, HD 40 3 203, HD 2 2 204, HD 9 2 204,
      HD 23 2 204, HD 40 3 204],
    [
      HD 3 2 203, HD 6 2 203, HD 10 2 203, HD 15 2 203, HD 24 2 203, HD 31 2 203, HD 41 2 203,
      HD 56 3 203, HD 3 2 204, HD 6 2 204, HD 10 2 204, HD 15 2 204, HD 24 2 204, HD 31 2 204,
      HD 41 2 204, HD 56 3 204],
    [
      HD 211 0 0, HD 212 0 0, HD 214 0 0, HD 215 0 0, HD 218 0 0, HD 219 0 0, HD 221 0 0,
      HD 222 0 0, HD 226 0 0, HD 228 0 0, HD 232 0 0, HD 235 0 0, HD 240 0 0, HD 243 0 0,
      HD 247 0 0, HD 250 0 0]]"

definition huff_states_208 :: "nghttp2_huff_decode list list" where
  "huff_states_208 = [
    [
      HD 0 3 211, HD 0 3 212, HD 0 3 214, HD 0 3 221, HD 0 3 222, HD 0 3 223, HD 0 3 241,
      HD 0 3 244, HD 0 3 245, HD 0 3 246, HD 0 3 247, HD 0 3 248, HD 0 3 250, HD 0 3 251,
      HD 0 3 252, HD 0 3 253],
    [
      HD 1 2 211, HD 22 3 211, HD 1 2 212, HD 22 3 212, HD 1 2 214, HD 22 3 214, HD 1 2 221,
      HD 22 3 221, HD 1 2 222, HD 22 3 222, HD 1 2 223, HD 22 3 223, HD 1 2 241, HD 22 3 241,
      HD 1 2 244, HD 22 3 244],
    [
      HD 2 2 211, HD 9 2 211, HD 23 2 211, HD 40 3 211, HD 2 2 212, HD 9 2 212, HD 23 2 212,
      HD 40 3 212, HD 2 2 214, HD 9 2 214, HD 23 2 214, HD 40 3 214, HD 2 2 221, HD 9 2 221,
      HD 23 2 221, HD 40 3 221],
    [
      HD 3 2 211, HD 6 2 211, HD 10 2 211, HD 15 2 211, HD 24 2 211, HD 31 2 211, HD 41 2 211,
      HD 56 3 211, HD 3 2 212, HD 6 2 212, HD 10 2 212, HD 15 2 212, HD 24 2 212, HD 31 2 212,
      HD 41 2 212, HD 56 3 212],
    [
      HD 3 2 214, HD 6 2 214, HD 10 2 214, HD 15 2 214, HD 24 2 214, HD 31 2 214, HD 41 2 214,
      HD 56 3 214, HD 3 2 221, HD 6 2 221, HD 10 2 221, HD 15 2 221, HD 24 2 221, HD 31 2 221,
      HD 41 2 221, HD 56 3 221],
    [
      HD 2 2 222, HD 9 2 222, HD 23 2 222, HD 40 3 222, HD 2 2 223, HD 9 2 223, HD 23 2 223,
      HD 40 3 223, HD 2 2 241, HD 9 2 241, HD 23 2 241, HD 40 3 241, HD 2 2 244, HD 9 2 244,
      HD 23 2 244, HD 40 3 244],
    [
      HD 3 2 222, HD 6 2 222, HD 10 2 222, HD 15 2 222, HD 24 2 222, HD 31 2 222, HD 41 2 222,
      HD 56 3 222, HD 3 2 223, HD 6 2 223, HD 10 2 223, HD 15 2 223, HD 24 2 223, HD 31 2 223,
      HD 41 2 223, HD 56 3 223],
    [
      HD 3 2 241, HD 6 2 241, HD 10 2 241, HD 15 2 241, HD 24 2 241, HD 31 2 241, HD 41 2 241,
      HD 56 3 241, HD 3 2 244, HD 6 2 244, HD 10 2 244, HD 15 2 244, HD 24 2 244, HD 31 2 244,
      HD 41 2 244, HD 56 3 244]]"

definition huff_states_216 :: "nghttp2_huff_decode list list" where
  "huff_states_216 = [
    [
      HD 1 2 245, HD 22 3 245, HD 1 2 246, HD 22 3 246, HD 1 2 247, HD 22 3 247, HD 1 2 248,
      HD 22 3 248, HD 1 2 250, HD 22 3 250, HD 1 2 251, HD 22 3 251, HD 1 2 252, HD 22 3 252,
      HD 1 2 253, HD 22 3 253],
    [
      HD 2 2 245, HD 9 2 245, HD 23 2 245, HD 40 3 245, HD 2 2 246, HD 9 2 246, HD 23 2 246,
      HD 40 3 246, HD 2 2 247, HD 9 2 247, HD 23 2 247, HD 40 3 247, HD 2 2 248, HD 9 2 248,
      HD 23 2 248, HD 40 3 248],
    [
      HD 3 2 245, HD 6 2 245, HD 10 2 245, HD 15 2 245, HD 24 2 245, HD 31 2 245, HD 41 2 245,
      HD 56 3 245, HD 3 2 246, HD 6 2 246, HD 10 2 246, HD 15 2 246, HD 24 2 246, HD 31 2 246,
      HD 41 2 246, HD 56 3 246],
    [
      HD 3 2 247, HD 6 2 247, HD 10 2 247, HD 15 2 247, HD 24 2 247, HD 31 2 247, HD 41 2 247,
      HD 56 3 247, HD 3 2 248, HD 6 2 248, HD 10 2 248, HD 15 2 248, HD 24 2 248, HD 31 2 248,
      HD 41 2 248, HD 56 3 248],
    [
      HD 2 2 250, HD 9 2 250, HD 23 2 250, HD 40 3 250, HD 2 2 251, HD 9 2 251, HD 23 2 251,
      HD 40 3 251, HD 2 2 252, HD 9 2 252, HD 23 2 252, HD 40 3 252, HD 2 2 253, HD 9 2 253,
      HD 23 2 253, HD 40 3 253],
    [
      HD 3 2 250, HD 6 2 250, HD 10 2 250, HD 15 2 250, HD 24 2 250, HD 31 2 250, HD 41 2 250,
      HD 56 3 250, HD 3 2 251, HD 6 2 251, HD 10 2 251, HD 15 2 251, HD 24 2 251, HD 31 2 251,
      HD 41 2 251, HD 56 3 251],
    [
      HD 3 2 252, HD 6 2 252, HD 10 2 252, HD 15 2 252, HD 24 2 252, HD 31 2 252, HD 41 2 252,
      HD 56 3 252, HD 3 2 253, HD 6 2 253, HD 10 2 253, HD 15 2 253, HD 24 2 253, HD 31 2 253,
      HD 41 2 253, HD 56 3 253],
    [
      HD 0 3 254, HD 227 0 0, HD 229 0 0, HD 230 0 0, HD 233 0 0, HD 234 0 0, HD 236 0 0,
      HD 237 0 0, HD 241 0 0, HD 242 0 0, HD 244 0 0, HD 245 0 0, HD 248 0 0, HD 249 0 0,
      HD 251 0 0, HD 252 0 0]]"

definition huff_states_224 :: "nghttp2_huff_decode list list" where
  "huff_states_224 = [
    [
      HD 1 2 254, HD 22 3 254, HD 0 3 2, HD 0 3 3, HD 0 3 4, HD 0 3 5, HD 0 3 6, HD 0 3 7,
      HD 0 3 8, HD 0 3 11, HD 0 3 12, HD 0 3 14, HD 0 3 15, HD 0 3 16, HD 0 3 17, HD 0 3 18],
    [
      HD 2 2 254, HD 9 2 254, HD 23 2 254, HD 40 3 254, HD 1 2 2, HD 22 3 2, HD 1 2 3, HD 22 3 3,
      HD 1 2 4, HD 22 3 4, HD 1 2 5, HD 22 3 5, HD 1 2 6, HD 22 3 6, HD 1 2 7, HD 22 3 7],
    [
      HD 3 2 254, HD 6 2 254, HD 10 2 254, HD 15 2 254, HD 24 2 254, HD 31 2 254, HD 41 2 254,
      HD 56 3 254, HD 2 2 2, HD 9 2 2, HD 23 2 2, HD 40 3 2, HD 2 2 3, HD 9 2 3, HD 23 2 3,
      HD 40 3 3],
    [
      HD 3 2 2, HD 6 2 2, HD 10 2 2, HD 15 2 2, HD 24 2 2, HD 31 2 2, HD 41 2 2, HD 56 3 2,
      HD 3 2 3, HD 6 2 3, HD 10 2 3, HD 15 2 3, HD 24 2 3, HD 31 2 3, HD 41 2 3, HD 56 3 3],
    [
      HD 2 2 4, HD 9 2 4, HD 23 2 4, HD 40 3 4, HD 2 2 5, HD 9 2 5, HD 23 2 5, HD 40 3 5,
      HD 2 2 6, HD 9 2 6, HD 23 2 6, HD 40 3 6, HD 2 2 7, HD 9 2 7, HD 23 2 7, HD 40 3 7],
    [
      HD 3 2 4, HD 6 2 4, HD 10 2 4, HD 15 2 4, HD 24 2 4, HD 31 2 4, HD 41 2 4, HD 56 3 4,
      HD 3 2 5, HD 6 2 5, HD 10 2 5, HD 15 2 5, HD 24 2 5, HD 31 2 5, HD 41 2 5, HD 56 3 5],
    [
      HD 3 2 6, HD 6 2 6, HD 10 2 6, HD 15 2 6, HD 24 2 6, HD 31 2 6, HD 41 2 6, HD 56 3 6,
      HD 3 2 7, HD 6 2 7, HD 10 2 7, HD 15 2 7, HD 24 2 7, HD 31 2 7, HD 41 2 7, HD 56 3 7],
    [
      HD 1 2 8, HD 22 3 8, HD 1 2 11, HD 22 3 11, HD 1 2 12, HD 22 3 12, HD 1 2 14, HD 22 3 14,
      HD 1 2 15, HD 22 3 15, HD 1 2 16, HD 22 3 16, HD 1 2 17, HD 22 3 17, HD 1 2 18, HD 22 3 18]]"

definition huff_states_232 :: "nghttp2_huff_decode list list" where
  "huff_states_232 = [
    [
      HD 2 2 8, HD 9 2 8, HD 23 2 8, HD 40 3 8, HD 2 2 11, HD 9 2 11, HD 23 2 11, HD 40 3 11,
      HD 2 2 12, HD 9 2 12, HD 23 2 12, HD 40 3 12, HD 2 2 14, HD 9 2 14, HD 23 2 14, HD 40 3 14],
    [
      HD 3 2 8, HD 6 2 8, HD 10 2 8, HD 15 2 8, HD 24 2 8, HD 31 2 8, HD 41 2 8, HD 56 3 8,
      HD 3 2 11, HD 6 2 11, HD 10 2 11, HD 15 2 11, HD 24 2 11, HD 31 2 11, HD 41 2 11, HD 56 3 11],
    [
      HD 3 2 12, HD 6 2 12, HD 10 2 12, HD 15 2 12, HD 24 2 12, HD 31 2 12, HD 41 2 12,
      HD 56 3 12, HD 3 2 14, HD 6 2 14, HD 10 2 14, HD 15 2 14, HD 24 2 14, HD 31 2 14,
      HD 41 2 14, HD 56 3 14],
    [
      HD 2 2 15, HD 9 2 15, HD 23 2 15, HD 40 3 15, HD 2 2 16, HD 9 2 16, HD 23 2 16, HD 40 3 16,
      HD 2 2 17, HD 9 2 17, HD 23 2 17, HD 40 3 17, HD 2 2 18, HD 9 2 18, HD 23 2 18, HD 40 3 18],
    [
      HD 3 2 15, HD 6 2 15, HD 10 2 15, HD 15 2 15, HD 24 2 15, HD 31 2 15, HD 41 2 15,
      HD 56 3 15, HD 3 2 16, HD 6 2 16, HD 10 2 16, HD 15 2 16, HD 24 2 16, HD 31 2 16,
      HD 41 2 16, HD 56 3 16],
    [
      HD 3 2 17, HD 6 2 17, HD 10 2 17, HD 15 2 17, HD 24 2 17, HD 31 2 17, HD 41 2 17,
      HD 56 3 17, HD 3 2 18, HD 6 2 18, HD 10 2 18, HD 15 2 18, HD 24 2 18, HD 31 2 18,
      HD 41 2 18, HD 56 3 18],
    [
      HD 0 3 19, HD 0 3 20, HD 0 3 21, HD 0 3 23, HD 0 3 24, HD 0 3 25, HD 0 3 26, HD 0 3 27,
      HD 0 3 28, HD 0 3 29, HD 0 3 30, HD 0 3 31, HD 0 3 127, HD 0 3 220, HD 0 3 249, HD 253 0 0],
    [
      HD 1 2 19, HD 22 3 19, HD 1 2 20, HD 22 3 20, HD 1 2 21, HD 22 3 21, HD 1 2 23, HD 22 3 23,
      HD 1 2 24, HD 22 3 24, HD 1 2 25, HD 22 3 25, HD 1 2 26, HD 22 3 26, HD 1 2 27, HD 22 3 27]]"

definition huff_states_240 :: "nghttp2_huff_decode list list" where
  "huff_states_240 = [
    [
      HD 2 2 19, HD 9 2 19, HD 23 2 19, HD 40 3 19, HD 2 2 20, HD 9 2 20, HD 23 2 20, HD 40 3 20,
      HD 2 2 21, HD 9 2 21, HD 23 2 21, HD 40 3 21, HD 2 2 23, HD 9 2 23, HD 23 2 23, HD 40 3 23],
    [
      HD 3 2 19, HD 6 2 19, HD 10 2 19, HD 15 2 19, HD 24 2 19, HD 31 2 19, HD 41 2 19,
      HD 56 3 19, HD 3 2 20, HD 6 2 20, HD 10 2 20, HD 15 2 20, HD 24 2 20, HD 31 2 20,
      HD 41 2 20, HD 56 3 20],
    [
      HD 3 2 21, HD 6 2 21, HD 10 2 21, HD 15 2 21, HD 24 2 21, HD 31 2 21, HD 41 2 21,
      HD 56 3 21, HD 3 2 23, HD 6 2 23, HD 10 2 23, HD 15 2 23, HD 24 2 23, HD 31 2 23,
      HD 41 2 23, HD 56 3 23],
    [
      HD 2 2 24, HD 9 2 24, HD 23 2 24, HD 40 3 24, HD 2 2 25, HD 9 2 25, HD 23 2 25, HD 40 3 25,
      HD 2 2 26, HD 9 2 26, HD 23 2 26, HD 40 3 26, HD 2 2 27, HD 9 2 27, HD 23 2 27, HD 40 3 27],
    [
      HD 3 2 24, HD 6 2 24, HD 10 2 24, HD 15 2 24, HD 24 2 24, HD 31 2 24, HD 41 2 24,
      HD 56 3 24, HD 3 2 25, HD 6 2 25, HD 10 2 25, HD 15 2 25, HD 24 2 25, HD 31 2 25,
      HD 41 2 25, HD 56 3 25],
    [
      HD 3 2 26, HD 6 2 26, HD 10 2 26, HD 15 2 26, HD 24 2 26, HD 31 2 26, HD 41 2 26,
      HD 56 3 26, HD 3 2 27, HD 6 2 27, HD 10 2 27, HD 15 2 27, HD 24 2 27, HD 31 2 27,
      HD 41 2 27, HD 56 3 27],
    [
      HD 1 2 28, HD 22 3 28, HD 1 2 29, HD 22 3 29, HD 1 2 30, HD 22 3 30, HD 1 2 31, HD 22 3 31,
      HD 1 2 127, HD 22 3 127, HD 1 2 220, HD 22 3 220, HD 1 2 249, HD 22 3 249, HD 254 0 0,
      HD 255 0 0],
    [
      HD 2 2 28, HD 9 2 28, HD 23 2 28, HD 40 3 28, HD 2 2 29, HD 9 2 29, HD 23 2 29, HD 40 3 29,
      HD 2 2 30, HD 9 2 30, HD 23 2 30, HD 40 3 30, HD 2 2 31, HD 9 2 31, HD 23 2 31, HD 40 3 31]]"

definition huff_states_248 :: "nghttp2_huff_decode list list" where
  "huff_states_248 = [
    [
      HD 3 2 28, HD 6 2 28, HD 10 2 28, HD 15 2 28, HD 24 2 28, HD 31 2 28, HD 41 2 28,
      HD 56 3 28, HD 3 2 29, HD 6 2 29, HD 10 2 29, HD 15 2 29, HD 24 2 29, HD 31 2 29,
      HD 41 2 29, HD 56 3 29],
    [
      HD 3 2 30, HD 6 2 30, HD 10 2 30, HD 15 2 30, HD 24 2 30, HD 31 2 30, HD 41 2 30,
      HD 56 3 30, HD 3 2 31, HD 6 2 31, HD 10 2 31, HD 15 2 31, HD 24 2 31, HD 31 2 31,
      HD 41 2 31, HD 56 3 31],
    [
      HD 2 2 127, HD 9 2 127, HD 23 2 127, HD 40 3 127, HD 2 2 220, HD 9 2 220, HD 23 2 220,
      HD 40 3 220, HD 2 2 249, HD 9 2 249, HD 23 2 249, HD 40 3 249, HD 0 3 10, HD 0 3 13,
      HD 0 3 22, HD 256 0 0],
    [
      HD 3 2 127, HD 6 2 127, HD 10 2 127, HD 15 2 127, HD 24 2 127, HD 31 2 127, HD 41 2 127,
      HD 56 3 127, HD 3 2 220, HD 6 2 220, HD 10 2 220, HD 15 2 220, HD 24 2 220, HD 31 2 220,
      HD 41 2 220, HD 56 3 220],
    [
      HD 3 2 249, HD 6 2 249, HD 10 2 249, HD 15 2 249, HD 24 2 249, HD 31 2 249, HD 41 2 249,
      HD 56 3 249, HD 1 2 10, HD 22 3 10, HD 1 2 13, HD 22 3 13, HD 1 2 22, HD 22 3 22,
      HD 256 0 0, HD 256 0 0],
    [
      HD 2 2 10, HD 9 2 10, HD 23 2 10, HD 40 3 10, HD 2 2 13, HD 9 2 13, HD 23 2 13, HD 40 3 13,
      HD 2 2 22, HD 9 2 22, HD 23 2 22, HD 40 3 22, HD 256 0 0, HD 256 0 0, HD 256 0 0, HD 256 0 0],
    [
      HD 3 2 10, HD 6 2 10, HD 10 2 10, HD 15 2 10, HD 24 2 10, HD 31 2 10, HD 41 2 10,
      HD 56 3 10, HD 3 2 13, HD 6 2 13, HD 10 2 13, HD 15 2 13, HD 24 2 13, HD 31 2 13,
      HD 41 2 13, HD 56 3 13],
    [
      HD 3 2 22, HD 6 2 22, HD 10 2 22, HD 15 2 22, HD 24 2 22, HD 31 2 22, HD 41 2 22,
      HD 56 3 22, HD 256 0 0, HD 256 0 0, HD 256 0 0, HD 256 0 0, HD 256 0 0, HD 256 0 0,
      HD 256 0 0, HD 256 0 0]]"

definition huff_states_256 :: "nghttp2_huff_decode list list" where
  "huff_states_256 = [
    [
      HD 256 0 0, HD 256 0 0, HD 256 0 0, HD 256 0 0, HD 256 0 0, HD 256 0 0, HD 256 0 0,
      HD 256 0 0, HD 256 0 0, HD 256 0 0, HD 256 0 0, HD 256 0 0, HD 256 0 0, HD 256 0 0,
      HD 256 0 0, HD 256 0 0]]"

definition huff_decode_table :: "nghttp2_huff_decode list list" where
  "huff_decode_table =
     huff_states_0 @ huff_states_8 @ huff_states_16 @ huff_states_24 @ huff_states_32 @
     huff_states_40 @ huff_states_48 @ huff_states_56 @ huff_states_64 @ huff_states_72 @
     huff_states_80 @ huff_states_88 @ huff_states_96 @ huff_states_104 @ huff_states_112 @
     huff_states_120 @ huff_states_128 @ huff_states_136 @ huff_states_144 @ huff_states_152 @
     huff_states_160 @ huff_states_168 @ huff_states_176 @ huff_states_184 @ huff_states_192 @
     huff_states_200 @ huff_states_208 @ huff_states_216 @ huff_states_224 @ huff_states_232 @
     huff_states_240 @ huff_states_248 @ huff_states_256"

section \<open>The decoder\<close>

definition NGHTTP2_HUFF_ACCEPTED :: nat where "NGHTTP2_HUFF_ACCEPTED = 1"

definition NGHTTP2_HUFF_SYM :: nat where "NGHTTP2_HUFF_SYM = 2"

text \<open>
  One nibble: the table entry, then the symbol, if there is one, goes to the output, which has room
  for \<open>dest_size - 1\<close> bytes and the terminator.  \<open>None\<close>: \<open>return false\<close>.
\<close>

definition huff_nibble :: "nat \<Rightarrow> nat \<times> bytes \<Rightarrow> nat \<Rightarrow> (nat \<times> bytes) option" where
  "huff_nibble dest_size st nb =
     (let t = huff_decode_table ! fst st ! nb
      in if hd_flags t div NGHTTP2_HUFF_SYM mod 2 = 1
         then (if length (snd st) + 1 \<ge> dest_size then None
               else Some (hd_fstate t, snd st @ [word_of_nat (hd_sym t)]))
         else Some (hd_fstate t, snd st))"

fun huff_loop :: "nat \<Rightarrow> nat \<times> bytes \<Rightarrow> bytes \<Rightarrow> (nat \<times> bytes) option" where
  "huff_loop dest_size st [] = Some st"
| "huff_loop dest_size st (b # src) =
     (case huff_nibble dest_size st (unat (drop_bit 4 b)) of
        None \<Rightarrow> None
      | Some st1 \<Rightarrow>
          (case huff_nibble dest_size st1 (unat (b AND 0x0f)) of
             None \<Rightarrow> None
           | Some st2 \<Rightarrow> huff_loop dest_size st2 src))"

definition http2_huffman_decode :: "bytes \<Rightarrow> nat \<Rightarrow> bytes option" where
  "http2_huffman_decode src dest_size =
     (if src = [] \<or> dest_size = 0 then None
      else map_option snd (huff_loop dest_size (0, []) src))"

end
