(* ===== verification/Hpack.thy ===== *)
theory Hpack
  imports Http_Types Huff_Table
begin

text \<open>
  HPACK header decompression: src/protocol/http2/halmos_http2_hpack.c and \<open>parse_header\<close> of
  src/protocol/http2/halmos_http2_parser.c up to its routing part.

  The pointers \<open>pos\<close> and \<open>end\<close> are the bytes between them, the input still to read: an operation
  that moves \<open>pos\<close> returns the rest.  The dynamic table is the list of its \<open>count\<close> first entries,
  newest first.  \<open>config.trust_proxy\<close> is an argument.
\<close>

section \<open>Integers\<close>

fun decode_int_more :: "nat \<Rightarrow> u32 \<Rightarrow> bytes \<Rightarrow> u32 \<times> bytes" where
  "decode_int_more shift res [] = (res, [])"
| "decode_int_more shift res (b # p) =
     (let res' = res + push_bit shift (ucast (b AND 127))
      in if b AND 128 = 0 then (res', p)
         else if shift + 7 > 28 then (res', p)
         else decode_int_more (shift + 7) res' p)"

definition http2_hpack_decode_int :: "bytes \<Rightarrow> u8 \<Rightarrow> u32 \<times> bytes" where
  "http2_hpack_decode_int pos prefix_mask =
     (case pos of
        [] \<Rightarrow> (0, [])
      | b # p \<Rightarrow>
          (let res = ucast (b AND prefix_mask) :: u32
           in if res < ucast prefix_mask then (res, p) else decode_int_more 0 res p))"

section \<open>The tables\<close>

definition static_table :: "(string \<times> string) list" where
  "static_table = [
     ('''', ''''),
     ('':authority'', ''''), ('':method'', ''GET''), ('':method'', ''POST''), ('':path'', ''/''),
     ('':path'', ''/index.html''), ('':scheme'', ''http''), ('':scheme'', ''https''),
     ('':status'', ''200''), ('':status'', ''204''), ('':status'', ''206''),
     ('':status'', ''304''), ('':status'', ''400''), ('':status'', ''404''),
     ('':status'', ''500''), (''accept-charset'', ''''),
     (''accept-encoding'', ''gzip, deflate''), (''accept-language'', ''''),
     (''accept-ranges'', ''''), (''accept'', ''''), (''access-control-allow-origin'', ''''),
     (''age'', ''''), (''allow'', ''''), (''authorization'', ''''), (''cache-control'', ''''),
     (''content-disposition'', ''''), (''content-encoding'', ''''), (''content-language'', ''''),
     (''content-length'', ''''), (''content-location'', ''''), (''content-range'', ''''),
     (''content-type'', ''''), (''cookie'', ''''), (''date'', ''''), (''etag'', ''''),
     (''expect'', ''''), (''expires'', ''''), (''from'', ''''), (''host'', ''''),
     (''if-match'', ''''), (''if-modified-since'', ''''), (''if-none-match'', ''''),
     (''if-range'', ''''), (''if-unmodified-since'', ''''), (''last-modified'', ''''),
     (''link'', ''''), (''location'', ''''), (''max-forwards'', ''''),
     (''proxy-authenticate'', ''''), (''proxy-authorization'', ''''), (''range'', ''''),
     (''referer'', ''''), (''refresh'', ''''), (''retry-after'', ''''), (''server'', ''''),
     (''set-cookie'', ''''), (''strict-transport-security'', ''''),
     (''transfer-encoding'', ''''), (''user-agent'', ''''), (''vary'', ''''), (''via'', ''''),
     (''www-authenticate'', '''')]"

record HPACKDynamicTable =
  dt_allocated :: bool
  dt_entries :: "(string \<times> string) list"

definition HPACK_NAME_MAX :: nat where "HPACK_NAME_MAX = 128"
definition HPACK_VALUE_MAX :: nat where "HPACK_VALUE_MAX = 512"

definition http2_hpack_get_header :: "HPACKDynamicTable \<Rightarrow> u32 \<Rightarrow> (string \<times> string) option" where
  "http2_hpack_get_header dyn index =
     (if 1 \<le> index \<and> index \<le> 61 then Some (static_table ! unat index)
      else if 0 < length (dt_entries dyn) then
        (let dyn_idx = index - 62
         in if unat dyn_idx < length (dt_entries dyn) then Some (dt_entries dyn ! unat dyn_idx) else None)
      else None)"

definition http2_hpack_dynamic_table_add ::
  "HPACKDynamicTable \<Rightarrow> string \<Rightarrow> string \<Rightarrow> HPACKDynamicTable" where
  "http2_hpack_dynamic_table_add dyn name val =
     (if \<not> dt_allocated dyn then dyn
      else
        let old = (if length (dt_entries dyn) \<ge> 128 then take 127 (dt_entries dyn) else dt_entries dyn)
        in dyn\<lparr> dt_entries := (c_copy HPACK_NAME_MAX name, c_copy HPACK_VALUE_MAX val) # old \<rparr>)"

section \<open>Strings\<close>

text \<open>
  The result, the C string left in the buffer (\<open>None\<close>: the buffer is not touched) and the rest.
\<close>

definition http2_hpack_decode_string_buf :: "bytes \<Rightarrow> nat \<Rightarrow> bool \<times> string option \<times> bytes" where
  "http2_hpack_decode_string_buf pos out_max =
     (if pos = [] \<or> out_max = 0 then (False, None, pos)
      else
        let is_huffman = (hd pos AND 0x80 \<noteq> 0);
            (len, p) = http2_hpack_decode_int pos 0x7F;
            n = unat len
        in if n > 10240 \<or> n > length p then (False, None, [])
           else if is_huffman then
             (case http2_huffman_decode (take n p) out_max of
                None \<Rightarrow> (True, Some '''', drop n p)
              | Some out \<Rightarrow> (True, Some (cstr (text_of out)), drop n p))
           else
             let copy_len = (if n < out_max - 1 then n else out_max - 1)
             in (True, Some (cstr (text_of (take copy_len p))), drop n p))"

section \<open>Header fields of the request\<close>

definition http2_hpack_literal_header_with_name ::
  "bool \<Rightarrow> string \<Rightarrow> string \<Rightarrow> RequestHeader \<Rightarrow> int \<times> RequestHeader" where
  "http2_hpack_literal_header_with_name trust_proxy name val req =
     (let val_len = length val in
      if name = '':path'' then
        (if val_len \<ge> HTTP2_URI_MAX then (414, req) else (0, req\<lparr> rh_uri := Some val \<rparr>))
      else if name = '':authority'' \<or> name = ''host'' then
        (if val_len \<ge> HTTP2_HOST_MAX then (431, req) else (0, req\<lparr> rh_host := Some val \<rparr>))
      else if name = ''content-type'' then
        (if val_len \<ge> HTTP2_CONTENT_TYPE_MAX then (431, req)
         else (0, req\<lparr> rh_content_type := Some val \<rparr>))
      else if name = ''cookie'' then
        (let current_len = length (rh_cookie_buf req) in
         if current_len = 0 then
           (if val_len \<ge> HTTP2_COOKIE_MAX then (431, req)
            else (0, req\<lparr> rh_cookie_buf := val, rh_cookie_data := Some val \<rparr>))
         else
           (if current_len + 2 + val_len \<ge> HTTP2_COOKIE_MAX then (431, req)
            else let buf = rh_cookie_buf req @ ''; '' @ val
                 in (0, req\<lparr> rh_cookie_buf := buf, rh_cookie_data := Some buf \<rparr>)))
      else if name = ''content-length'' then
        (0, req\<lparr> rh_content_length := c_int (c_strtol10 val) \<rparr>)
      else if name = '':method'' then
        (if val_len \<ge> METHOD_MAX then (431, req) else (0, req\<lparr> rh_method := val \<rparr>))
      else if name = '':scheme'' then
        (0, req\<lparr> rh_is_tls := (val = ''https'') \<rparr>)
      else if name = ''x-forwarded-for'' \<and> trust_proxy then
        (if CHR '','' \<in> set val then
           (let ip = takeWhile (\<lambda>c. c \<noteq> CHR '','') val
            in if length ip < CLIENT_IP_MAX then (0, req\<lparr> rh_client_ip := ip \<rparr>) else (0, req))
         else if val_len \<ge> CLIENT_IP_MAX then (431, req)
         else (0, req\<lparr> rh_client_ip := val \<rparr>))
      else if name = '':protocol'' then
        (if val = ''websocket'' then (0, req\<lparr> rh_is_upgrade := True \<rparr>) else (0, req))
      else (0, req))"

definition http2_hpack_indexed_header ::
  "bool \<Rightarrow> HPACKDynamicTable \<Rightarrow> u32 \<Rightarrow> RequestHeader \<Rightarrow> int \<times> RequestHeader" where
  "http2_hpack_indexed_header trust_proxy dyn index req =
     (if index = 0 then (0, req)
      else case http2_hpack_get_header dyn index of
             Some (name, val) \<Rightarrow> http2_hpack_literal_header_with_name trust_proxy name val req
           | None \<Rightarrow> (0, req))"

section \<open>A header block\<close>

text \<open>The name and value of a literal field: an index or a name, then a value.\<close>

definition parse_literal :: "HPACKDynamicTable \<Rightarrow> u8 \<Rightarrow> bytes \<Rightarrow> string \<times> string \<times> bytes" where
  "parse_literal dyn prefix_mask pos =
     (let (index, p1) = http2_hpack_decode_int pos prefix_mask;
          (name, p2) =
            (if index = 0 then
               (let (_, out, p) = http2_hpack_decode_string_buf p1 HPACK_NAME_MAX
                in (case out of Some s \<Rightarrow> s | None \<Rightarrow> '''', p))
             else
               (case http2_hpack_get_header dyn index of
                  Some (s_name, _) \<Rightarrow> (c_copy HPACK_NAME_MAX s_name, p1)
                | None \<Rightarrow> ('''', p1)));
          (_, out, p3) = http2_hpack_decode_string_buf p2 HPACK_VALUE_MAX
      in (name, case out of Some s \<Rightarrow> s | None \<Rightarrow> '''', p3))"

text \<open>One turn of the loop of \<open>parse_header\<close>, on an input that is not empty.\<close>

definition parse_header_step ::
  "bool \<Rightarrow> bytes \<Rightarrow> HPACKDynamicTable \<Rightarrow> RequestHeader \<Rightarrow>
     int \<times> bytes \<times> HPACKDynamicTable \<times> RequestHeader" where
  "parse_header_step trust_proxy pos dyn req =
     (let b = hd pos in
      if b AND 0x80 \<noteq> 0 then
        let (index, p) = http2_hpack_decode_int pos 0x7F;
            (status, req') = http2_hpack_indexed_header trust_proxy dyn index req
        in (status, p, dyn, req')
      else if b AND 0xC0 = 0x40 then
        let (name, val, p) = parse_literal dyn 0x3F pos
        in if name \<noteq> '''' \<and> val \<noteq> '''' then
             let (status, req') = http2_hpack_literal_header_with_name trust_proxy name val req
             in (status, p, http2_hpack_dynamic_table_add dyn name val, req')
           else (0, p, dyn, req)
      else if b AND 0xE0 = 0x20 then
        (0, snd (http2_hpack_decode_int pos 0x1F), dyn, req)
      else if b AND 0xF0 = 0x00 \<or> b AND 0xF0 = 0x10 then
        let (name, val, p) = parse_literal dyn 0x0F pos
        in if name \<noteq> '''' \<and> val \<noteq> '''' then
             let (status, req') = http2_hpack_literal_header_with_name trust_proxy name val req
             in (status, p, dyn, req')
           else (0, p, dyn, req)
      else (0, tl pos, dyn, req))"

section \<open>Every turn of the loop reads at least one byte\<close>

lemma decode_int_more_rest: "length (snd (decode_int_more shift res p)) \<le> length p"
  by (induction shift res p rule: decode_int_more.induct) (auto simp: Let_def)

lemma decode_int_rest:
  "pos \<noteq> [] \<Longrightarrow> length (snd (http2_hpack_decode_int pos m)) < length pos"
  using decode_int_more_rest [of 0 "ucast (hd pos AND m)" "tl pos"]
  by (cases pos) (auto simp: http2_hpack_decode_int_def Let_def)

lemma decode_int_rest_le: "length (snd (http2_hpack_decode_int pos m)) \<le> length pos"
  using decode_int_rest [of pos m] by (cases "pos = []") (auto simp: http2_hpack_decode_int_def)

lemma decode_string_rest: "length (snd (snd (http2_hpack_decode_string_buf pos n))) \<le> length pos"
  using decode_int_rest_le [of pos "0x7F"]
  by (auto simp: http2_hpack_decode_string_buf_def Let_def split: prod.splits option.splits)

lemma parse_literal_rest:
  assumes "pos \<noteq> []"
  shows "length (snd (snd (parse_literal dyn m pos))) < length pos"
proof -
  let ?p1 = "snd (http2_hpack_decode_int pos m)"
  have p1: "length ?p1 < length pos" using assms by (rule decode_int_rest)
  have s: "length (snd (snd (http2_hpack_decode_string_buf p n))) < length pos"
    if "length p < length pos" for p n
    using decode_string_rest [of p n] that by linarith
  have "length (snd (snd (http2_hpack_decode_string_buf ?p1 HPACK_NAME_MAX))) < length pos"
    using p1 by (rule s)
  then show ?thesis
    using p1 s
    by (auto simp: parse_literal_def Let_def case_prod_unfold split: option.splits)
qed

lemma parse_header_step_rest:
  assumes "pos \<noteq> []"
  shows "length (fst (snd (parse_header_step tp pos dyn req))) < length pos"
  using assms decode_int_rest [OF assms] parse_literal_rest [OF assms]
  by (auto simp: parse_header_step_def Let_def case_prod_unfold)

text \<open>The loop, and the part of \<open>parse_header\<close> before the routing.\<close>

function parse_header_loop ::
  "bool \<Rightarrow> bytes \<Rightarrow> HPACKDynamicTable \<Rightarrow> RequestHeader \<Rightarrow>
     int \<times> HPACKDynamicTable \<times> RequestHeader" where
  "parse_header_loop trust_proxy pos dyn req =
     (if pos = [] then (0, dyn, req)
      else let (status, p, dyn', req') = parse_header_step trust_proxy pos dyn req
           in if status \<noteq> 0
              then (status, dyn', req'\<lparr> rh_error_code := status, rh_is_valid := False \<rparr>)
              else parse_header_loop trust_proxy p dyn' req')"
  by pat_completeness auto
termination
proof (relation "measure (\<lambda>(_, pos, _, _). length pos)", goal_cases)
  case (2 tp pos dyn req r status r1 p r2 dyn' req')
  then have "parse_header_step tp pos dyn req = (status, p, dyn', req')" by simp
  with 2(1) parse_header_step_rest [of pos tp dyn req] show ?case by simp
qed simp

declare parse_header_loop.simps [simp del]

definition parse_header_reset :: "RequestHeader \<Rightarrow> RequestHeader" where
  "parse_header_reset req =
     req\<lparr> rh_is_keep_alive := True, rh_uri := None, rh_host := None, rh_content_type := None,
          rh_cookie_data := None, rh_error_code := 0, rh_method := [], rh_cookie_buf := [] \<rparr>"

definition parse_header_fields ::
  "bool \<Rightarrow> bytes \<Rightarrow> HPACKDynamicTable \<Rightarrow> RequestHeader \<Rightarrow> bool \<times> HPACKDynamicTable \<times> RequestHeader" where
  "parse_header_fields trust_proxy payload dyn req =
     (if payload = [] then (False, dyn, req)
      else let (status, dyn', req') =
                 parse_header_loop trust_proxy payload dyn (parse_header_reset req)
           in (status = 0, dyn', req'))"

section \<open>Integers: what RFC 7541, section 5.1, encodes is decoded\<close>

function encode_int_more :: "nat \<Rightarrow> bytes" where
  "encode_int_more m =
     (if m < 128 then [word_of_nat m] else word_of_nat (128 + m mod 128) # encode_int_more (m div 128))"
  by pat_completeness auto
termination by (relation "measure id") auto

declare encode_int_more.simps [simp del]

text \<open>\<open>N\<close> is the number of prefix bits, \<open>hi\<close> the bits before them.\<close>

definition encode_int :: "nat \<Rightarrow> u8 \<Rightarrow> nat \<Rightarrow> bytes" where
  "encode_int N hi n =
     (if n < 2 ^ N - 1 then [hi OR word_of_nat n]
      else (hi OR mask N) # encode_int_more (n - (2 ^ N - 1)))"

lemma decode_encode_int_more:
  "m < 2 ^ (35 - 7 * k) \<Longrightarrow> k \<le> 4 \<Longrightarrow>
     decode_int_more (7 * k) res (encode_int_more m @ rest) = (res + word_of_nat (m * 2 ^ (7 * k)), rest)"
proof (induction m arbitrary: k res rule: encode_int_more.induct)
  case (1 m)
  have shift: "push_bit s (ucast (word_of_nat j :: u8) :: u32) = word_of_nat (j * 2 ^ s)"
    if "j < 256" for j s
    using that by (simp add: push_bit_eq_mult unsigned_of_nat take_bit_nat_eq_self)
  show ?case
  proof (cases "m < 128")
    case True
    then show ?thesis
      by (subst encode_int_more.simps) (simp add: Let_def u8_and_127 u8_and_128 shift)
  next
    case False
    with 1 have k: "k \<le> 3" by (cases "k = 4") auto
    then have e: "35 - 7 * k = 7 + (35 - 7 * Suc k)" by simp
    have "m div 128 < 2 ^ (35 - 7 * Suc k)"
      using "1.prems"(1) unfolding e power_add by (simp add: less_mult_imp_div_less mult.commute)
    from "1.IH" [OF False this] k have IH: "decode_int_more (7 * Suc k) (res + word_of_nat (m mod 128 * 2 ^ (7 * k)))
        (encode_int_more (m div 128) @ rest) =
      (res + word_of_nat (m mod 128 * 2 ^ (7 * k)) + word_of_nat (m div 128 * 2 ^ (7 * Suc k)), rest)"
      by simp
    have "r * p + q * (128 * p) = (q * 128 + r) * p" for r p q :: nat
      by (simp add: algebra_simps)
    moreover have "(2 :: nat) ^ (7 * Suc k) = 128 * 2 ^ (7 * k)" by (simp add: power_add)
    ultimately have "m mod 128 * 2 ^ (7 * k) + m div 128 * 2 ^ (7 * Suc k) = (m div 128 * 128 + m mod 128) * 2 ^ (7 * k)"
      by (simp only:)
    then have sum: "m mod 128 * 2 ^ (7 * k) + m div 128 * 2 ^ (7 * Suc k) = m * 2 ^ (7 * k)"
      by (simp only: div_mult_mod_eq)
    have "(word_of_nat (128 + m mod 128) :: u8) AND 127 = word_of_nat (m mod 128)"
      by (subst u8_and_127) simp_all
    moreover have "(word_of_nat (128 + m mod 128) :: u8) AND 128 \<noteq> 0"
      by (subst u8_and_128) simp_all
    ultimately have "decode_int_more (7 * k) res (encode_int_more m @ rest) =
      decode_int_more (7 * Suc k) (res + word_of_nat (m mod 128 * 2 ^ (7 * k)))
        (encode_int_more (m div 128) @ rest)"
      using False k by (subst encode_int_more.simps) (simp add: Let_def shift add.commute [of "7 * k" 7] del: of_nat_mult)
    then show ?thesis
      unfolding IH by (simp only: sum [symmetric] of_nat_add add.assoc)
  qed
qed

lemma decode_encode_int:
  assumes "0 < N" and "N < 8" and "hi AND mask N = 0" and "n < 2 ^ 32"
  shows "http2_hpack_decode_int (encode_int N hi n @ rest) (mask N) = (word_of_nat n, rest)"
proof -
  have N: "N \<in> {1, 2, 3, 4, 5, 6, 7}" using assms(1,2) by auto
  then have m: "unat (mask N :: u8) = 2 ^ N - 1" "mask N = (ucast (mask N :: u8) :: u32)"
    "(2 :: nat) ^ N \<le> 128"
    by (auto simp: mask_numeral)
  have and_hi: "(hi OR x) AND mask N = x AND mask N" for x
    using assms(3) by (simp add: bit.conj_disj_distrib2)
  have less: "(ucast x :: u32) < ucast (mask N :: u8) \<longleftrightarrow> unat x < 2 ^ N - 1" for x :: u8
    by (simp add: word_less_nat_alt m)
  show ?thesis
  proof (cases "n < 2 ^ N - 1")
    case True
    then have n: "n < 2 ^ N" "n < 128" using m(3) by linarith+
    have "(word_of_nat n :: u8) AND mask N = word_of_nat n"
      using n by (simp add: take_bit_eq_mask [symmetric] take_bit_of_nat take_bit_nat_eq_self)
    moreover have "unat (word_of_nat n :: u8) = n" "(ucast (word_of_nat n :: u8) :: u32) = word_of_nat n"
      using n by (simp_all add: unat_of_nat unsigned_of_nat take_bit_nat_eq_self)
    moreover have "(ucast (word_of_nat n :: u8) :: u32) < ucast (mask N :: u8)"
      unfolding less using True calculation(2) by simp
    ultimately show ?thesis
      using True by (simp add: encode_int_def http2_hpack_decode_int_def Let_def and_hi)
  next
    case False
    have "n - (2 ^ N - 1) < 2 ^ (35 - 7 * 0)" using assms(4) by simp
    note more = decode_encode_int_more [OF this, of "mask N" rest, simplified]
    have "word_of_nat (2 ^ N - 1) = (mask N :: u32)"
      by (simp add: mask_eq_exp_minus_1 of_nat_diff)
    then have "mask N + word_of_nat (n - (2 ^ N - 1)) = (word_of_nat n :: u32)"
      using False by (metis add_diff_inverse_nat of_nat_add)
    then show ?thesis
      using False more m
      by (simp add: encode_int_def http2_hpack_decode_int_def Let_def and_hi)
  qed
qed

section \<open>No input overflows a buffer\<close>

definition hpack_table_ok :: "HPACKDynamicTable \<Rightarrow> bool" where
  "hpack_table_ok dyn \<longleftrightarrow> length (dt_entries dyn) \<le> 128
     \<and> (\<forall>(n, v) \<in> set (dt_entries dyn). length n < HPACK_NAME_MAX \<and> length v < HPACK_VALUE_MAX)"

lemma dynamic_table_add_ok [inv_intros]:
  "hpack_table_ok dyn \<Longrightarrow> hpack_table_ok (http2_hpack_dynamic_table_add dyn n v)"
  by (auto simp: hpack_table_ok_def http2_hpack_dynamic_table_add_def Let_def length_c_copy
      HPACK_NAME_MAX_def HPACK_VALUE_MAX_def dest: in_set_takeD)

lemma length_takeWhile_less: "length s < n \<Longrightarrow> length (takeWhile P s) < n"
  using length_takeWhile_le [of P s] by linarith

lemma fits_if:
  "(c \<Longrightarrow> request_fits (snd a)) \<Longrightarrow> (\<not> c \<Longrightarrow> request_fits (snd b)) \<Longrightarrow> request_fits (snd (if c then a else b))"
  by simp

lemma literal_header_fits [inv_intros]:
  "request_fits req \<Longrightarrow> request_fits (snd (http2_hpack_literal_header_with_name tp n v req))"
  unfolding http2_hpack_literal_header_with_name_def Let_def
  by (intro fits_if) (simp_all add: request_fits_def http2_buf_sizes length_takeWhile_less)

lemma indexed_header_fits [inv_intros]:
  "request_fits req \<Longrightarrow> request_fits (snd (http2_hpack_indexed_header tp dyn i req))"
  by (simp add: http2_hpack_indexed_header_def inv_intros split: option.split prod.split)

lemma parse_header_step_ok:
  assumes "hpack_table_ok dyn" and "request_fits req"
  shows "hpack_table_ok (fst (snd (snd (parse_header_step tp pos dyn req))))
       \<and> request_fits (snd (snd (snd (parse_header_step tp pos dyn req))))"
  using assms by (simp add: parse_header_step_def Let_def case_prod_unfold inv_intros)

lemma parse_header_loop_ok:
  "hpack_table_ok dyn \<Longrightarrow> request_fits req \<Longrightarrow>
     hpack_table_ok (fst (snd (parse_header_loop tp pos dyn req)))
     \<and> request_fits (snd (snd (parse_header_loop tp pos dyn req)))"
proof (induction tp pos dyn req rule: parse_header_loop.induct)
  case (1 tp pos dyn req)
  obtain status p dyn' req' where st: "parse_header_step tp pos dyn req = (status, p, dyn', req')"
    using prod_cases4 by blast
  with parse_header_step_ok [OF 1(2,3), of tp pos] have ok: "hpack_table_ok dyn'" "request_fits req'"
    by simp_all
  show ?case
    using 1 ok st by (subst (1 2) parse_header_loop.simps) (simp add: request_fits_def)
qed

lemma parse_header_reset_fits [inv_intros]: "request_fits req \<Longrightarrow> request_fits (parse_header_reset req)"
  by (simp add: request_fits_def parse_header_reset_def http2_buf_sizes)

section \<open>The dynamic table holds the latest fields\<close>

definition add_all :: "HPACKDynamicTable \<Rightarrow> (string \<times> string) list \<Rightarrow> HPACKDynamicTable" where
  "add_all = foldl (\<lambda>d (n, v). http2_hpack_dynamic_table_add d n v)"

lemma add_all_entries:
  "dt_allocated dyn \<Longrightarrow> length (dt_entries dyn) \<le> 128 \<Longrightarrow>
     dt_allocated (add_all dyn hs) \<and>
     dt_entries (add_all dyn hs) =
       take 128 (rev (map (\<lambda>(n, v). (c_copy HPACK_NAME_MAX n, c_copy HPACK_VALUE_MAX v)) hs) @ dt_entries dyn)"
proof (induction hs arbitrary: dyn)
  case (Cons h hs)
  obtain n v where h: "h = (n, v)" by (cases h)
  let ?d = "http2_hpack_dynamic_table_add dyn n v"
  let ?e = "(c_copy HPACK_NAME_MAX n, c_copy HPACK_VALUE_MAX v)"
  have "dt_entries ?d = take 128 (?e # dt_entries dyn)" "dt_allocated ?d"
    using Cons.prems by (simp_all add: http2_hpack_dynamic_table_add_def Let_def take_Cons')
  moreover have "take k (take 128 (?e # xs)) = take k (?e # xs)" if "k \<le> 128" for k xs
    using that by (simp only: take_take min.absorb1)
  ultimately show ?case
    using Cons.IH [of ?d] by (simp add: add_all_def h del: take_Suc_Cons)
qed (simp add: add_all_def)

section \<open>Properties\<close>

text \<open>C7: every integer up to 32 bits that RFC 7541, section 5.1, encodes with a prefix of 1 to 7
  bits, whatever the bits before the prefix, is decoded to itself and nothing more is read.\<close>

theorem hpack_int_roundtrip:
  assumes "0 < N" and "N < 8" and "hi AND mask N = 0" and "n < 2 ^ 32"
  shows "http2_hpack_decode_int (encode_int N hi n @ rest) (mask N) = (word_of_nat n, rest)"
  using assms by (rule decode_encode_int)

theorem hpack_int_roundtrip_witness:
  "http2_hpack_decode_int (encode_int 5 0xE0 1337 @ [7]) 31 = (1337, [7])"
  using hpack_int_roundtrip [of 5 "0xE0" 1337 "[7]"] by (simp add: mask_numeral)

text \<open>C8: whatever bytes a client sends as a header block, the parser ends, every text it stores in
  the request fits, with its terminator, in the array it is stored in, and the dynamic table keeps
  at most 128 entries that fit in theirs.\<close>

theorem hpack_no_overflow:
  assumes "hpack_table_ok dyn" and "request_fits req"
    and "parse_header_fields trust_proxy payload dyn req = (ok, dyn', req')"
  shows "hpack_table_ok dyn' \<and> request_fits req'"
  using parse_header_loop_ok [OF assms(1) parse_header_reset_fits [OF assms(2)], of trust_proxy payload] assms
  by (auto simp: parse_header_fields_def split: prod.splits if_splits)

theorem hpack_no_overflow_witness:
  "case parse_header_fields True [0x82, 0x40, 1, 97, 1, 98] \<lparr> dt_allocated = True, dt_entries = [] \<rparr> empty_request
   of (ok, dyn', req') \<Rightarrow> length (dt_entries dyn') \<le> 128 \<and> request_fits req'"
proof -
  obtain ok dyn' req' where run: "parse_header_fields True [0x82, 0x40, 1, 97, 1, 98]
      \<lparr> dt_allocated = True, dt_entries = [] \<rparr> empty_request = (ok, dyn', req')"
    by (rule prod_cases3)
  from hpack_no_overflow [OF _ _ this] show ?thesis
    unfolding run by (simp add: hpack_table_ok_def request_fits_def empty_request_def http2_buf_sizes)
qed

text \<open>After adding any sequence of fields to a table, index 62 + i stands for the i-th most
  recent of them (as far as the latest 128), cut to the size of an entry.\<close>

theorem hpack_dynamic_index:
  assumes "dt_allocated dyn" and "length (dt_entries dyn) \<le> 128"
    and "i < length hs" and "i < 128" and "rev hs ! i = (n, v)"
  shows "http2_hpack_get_header (add_all dyn hs) (word_of_nat (62 + i)) =
           Some (c_copy HPACK_NAME_MAX n, c_copy HPACK_VALUE_MAX v)"
proof -
  have "unat (word_of_nat (62 + i) :: u32) = 62 + i"
    using assms(4) by (simp add: unat_of_nat del: of_nat_add)
  moreover have "(word_of_nat (62 + i) :: u32) - 62 = word_of_nat i" by simp
  moreover have "unat (word_of_nat i :: u32) = i"
    using assms(4) by (simp add: unat_of_nat)
  ultimately show ?thesis
    using add_all_entries [OF assms(1,2), of hs] assms(3-5)
    by (auto simp: http2_hpack_get_header_def Let_def word_le_nat_alt nth_append rev_map
        simp del: of_nat_add)
qed

theorem hpack_dynamic_index_witness:
  "http2_hpack_get_header
     (add_all \<lparr> dt_allocated = True, dt_entries = [] \<rparr> [(''a'', ''1''), (''b'', ''2'')]) 63
   = Some (''a'', ''1'')"
  using hpack_dynamic_index [of "\<lparr> dt_allocated = True, dt_entries = [] \<rparr>" 1
      "[(''a'', ''1''), (''b'', ''2'')]" "''a''" "''1''"]
  by (simp add: HPACK_NAME_MAX_def HPACK_VALUE_MAX_def)

end
