(* ===== verification/H2_Types.thy ===== *)
theory H2_Types
  imports Hpack
begin

text \<open>
  The data of an HTTP/2 connection (include/halmos/halmos_http2_core.h) and its stream table
  (src/protocol/http2/halmos_http2_stream.c).

  \<open>streams_hash\<close> is the list of the 32 bucket chains, each a list from the newest node on.  The
  signed 32-bit windows are words, read with \<open>sint\<close>.  The write backlog is the buffer
  \<open>pending_write_buf\<close> with its two counters; the payload buffer is the bytes received so far.
\<close>

record HTTP2FrameHeader =
  fh_length :: nat
  fh_type :: u8
  fh_flags :: u8
  fh_stream_id :: u32

datatype HTTP2StreamState =
    HTTP2_STATE_IDLE | HTTP2_STATE_RESERVED_LOCAL | HTTP2_STATE_RESERVED_REMOTE | HTTP2_STATE_OPEN
  | HTTP2_STATE_HALF_CLOSED_LOCAL | HTTP2_STATE_HALF_CLOSED_REMOTE | HTTP2_STATE_CLOSED

text \<open>The source also assigns the plain numbers 2 and 4 to a state.\<close>

fun state_of_nat :: "nat \<Rightarrow> HTTP2StreamState" where
  "state_of_nat n =
     (if n = 0 then HTTP2_STATE_IDLE else if n = 1 then HTTP2_STATE_RESERVED_LOCAL
      else if n = 2 then HTTP2_STATE_RESERVED_REMOTE else if n = 3 then HTTP2_STATE_OPEN
      else if n = 4 then HTTP2_STATE_HALF_CLOSED_LOCAL else if n = 5 then HTTP2_STATE_HALF_CLOSED_REMOTE
      else HTTP2_STATE_CLOSED)"

record HTTP2Stream =
  st_stream_id :: u32
  st_out_window_size :: "32 word"
  st_state :: HTTP2StreamState
  st_http1_compat :: RequestHeader
  st_file_fd :: int
  st_file_offset :: nat
  st_file_size :: nat
  st_is_sending_file :: bool
  st_is_fcgi_active :: bool

record HTTP2Session =
  ss_is_tls :: bool
  ss_out_window_size :: "32 word"
  ss_peer_initial_window_size :: u32
  ss_dyn_table :: HPACKDynamicTable
  ss_streams_hash :: "HTTP2Stream list list"
  ss_active_stream_count :: nat
  ss_pending_write_buf :: bytes
  ss_pending_write_len :: nat
  ss_pending_write_offset :: nat
  ss_write_error :: bool
  ss_header_buf_partial :: bytes
  ss_preface_bytes_read :: nat
  ss_read_state :: nat
  ss_current_frame_head :: HTTP2FrameHeader
  ss_payload_buf :: "bytes option"

definition HTTP2_STREAM_BUCKETS :: nat where "HTTP2_STREAM_BUCKETS = 32"
definition HTTP2_GOLDEN_RATIO_32 :: u32 where "HTTP2_GOLDEN_RATIO_32 = 2654435769"

section \<open>The stream table\<close>

definition http2_stream_get_bucket_fibonacci :: "u32 \<Rightarrow> nat" where
  "http2_stream_get_bucket_fibonacci stream_id =
     unat (drop_bit (32 - 5) (stream_id * HTTP2_GOLDEN_RATIO_32))"

definition chain_find :: "HTTP2Stream list \<Rightarrow> u32 \<Rightarrow> HTTP2Stream option" where
  "chain_find chain i = find (\<lambda>st. st_stream_id st = i) chain"

definition http2_stream_find_unlocked :: "HTTP2Session \<Rightarrow> u32 \<Rightarrow> HTTP2Stream option" where
  "http2_stream_find_unlocked s i =
     (if i = 0 then None
      else chain_find (ss_streams_hash s ! http2_stream_get_bucket_fibonacci i) i)"

text \<open>The node \<open>get_or_create\<close> makes; \<open>peer\<close> is the address text of \<open>getpeername\<close>, if it has one.\<close>

definition new_stream :: "HTTP2Session \<Rightarrow> string option \<Rightarrow> u32 \<Rightarrow> HTTP2Stream" where
  "new_stream s peer i =
     \<lparr> st_stream_id = i, st_out_window_size = ss_peer_initial_window_size s,
       st_state = HTTP2_STATE_IDLE,
       st_http1_compat = empty_request\<lparr> rh_is_tls := ss_is_tls s,
         rh_client_ip := (case peer of Some ip \<Rightarrow> ip | None \<Rightarrow> ''0.0.0.0'') \<rparr>,
       st_file_fd = -1, st_file_offset = 0, st_file_size = 0, st_is_sending_file = False,
       st_is_fcgi_active = False \<rparr>"

definition http2_stream_get_or_create ::
  "HTTP2Session \<Rightarrow> u32 \<Rightarrow> string option \<Rightarrow> bool \<Rightarrow> HTTP2Stream option \<times> HTTP2Session" where
  "http2_stream_get_or_create s i peer calloc_ok =
     (let bucket = http2_stream_get_bucket_fibonacci i;
          chain = ss_streams_hash s ! bucket
      in case chain_find chain i of
           Some st \<Rightarrow> (Some st, s)
         | None \<Rightarrow>
             if \<not> calloc_ok then (None, s)
             else let st = new_stream s peer i
                  in (Some st,
                      s\<lparr> ss_streams_hash := (ss_streams_hash s)[bucket := st # chain],
                         ss_active_stream_count := ss_active_stream_count s + 1 \<rparr>))"

text \<open>A write through the pointer to a node: the node with this number is changed in place.\<close>

definition with_stream :: "u32 \<Rightarrow> (HTTP2Stream \<Rightarrow> HTTP2Stream) \<Rightarrow> HTTP2Session \<Rightarrow> HTTP2Session" where
  "with_stream i f s =
     s\<lparr> ss_streams_hash := map (map (\<lambda>st. if st_stream_id st = i then f st else st)) (ss_streams_hash s) \<rparr>"

section \<open>The table is a map from stream numbers\<close>

definition streams_ok :: "HTTP2Session \<Rightarrow> bool" where
  "streams_ok s \<longleftrightarrow> length (ss_streams_hash s) = HTTP2_STREAM_BUCKETS
     \<and> (\<forall>b < HTTP2_STREAM_BUCKETS. distinct (map st_stream_id (ss_streams_hash s ! b))
          \<and> (\<forall>st \<in> set (ss_streams_hash s ! b). http2_stream_get_bucket_fibonacci (st_stream_id st) = b))"

lemma bucket_less [simp]: "http2_stream_get_bucket_fibonacci i < 32"
proof -
  have "unat (drop_bit 27 (x :: u32)) < 32" for x
    using unsigned_less [of x, where 'a = nat]
    by (simp add: unat_drop_bit_eq drop_bit_eq_div unat_div less_mult_imp_div_less)
  then show ?thesis by (simp add: http2_stream_get_bucket_fibonacci_def)
qed

lemma chain_find_Some: "chain_find chain i = Some st \<Longrightarrow> st \<in> set chain \<and> st_stream_id st = i"
  by (auto simp: chain_find_def find_Some_iff in_set_conv_nth)

lemma chain_find_None: "chain_find chain i = None \<longleftrightarrow> i \<notin> st_stream_id ` set chain"
  by (auto simp: chain_find_def find_None_iff)

lemma chain_find_map:
  "(\<And>st. st_stream_id (f st) = st_stream_id st) \<Longrightarrow>
     chain_find (map (\<lambda>st. if st_stream_id st = i then f st else st) chain) j =
       (if j = i then map_option f (chain_find chain i) else chain_find chain j)"
  by (induction chain) (auto simp: chain_find_def)

lemma with_stream_ok [inv_intros]:
  "streams_ok s \<Longrightarrow> (\<And>st. st_stream_id (f st) = st_stream_id st) \<Longrightarrow> streams_ok (with_stream i f s)"
  by (auto simp: streams_ok_def with_stream_def comp_def if_distrib cong: if_cong)

lemma with_stream_find:
  assumes "streams_ok s" and "\<And>st. st_stream_id (f st) = st_stream_id st"
  shows "http2_stream_find_unlocked (with_stream i f s) j =
     (if j = i then map_option f (http2_stream_find_unlocked s i) else http2_stream_find_unlocked s j)"
  using assms
  by (simp add: http2_stream_find_unlocked_def with_stream_def streams_ok_def chain_find_map
      HTTP2_STREAM_BUCKETS_def)

lemma get_or_create_ok [inv_intros]:
  "streams_ok s \<Longrightarrow> streams_ok (snd (http2_stream_get_or_create s i peer ok))"
  by (auto simp: streams_ok_def http2_stream_get_or_create_def Let_def nth_list_update
      new_stream_def chain_find_None HTTP2_STREAM_BUCKETS_def split: option.splits)

lemma get_or_create_find:
  assumes "streams_ok s" and "i \<noteq> 0"
  shows "http2_stream_find_unlocked (snd (http2_stream_get_or_create s i peer ok)) j =
     (if j = i \<and> http2_stream_find_unlocked s i = None \<and> ok then Some (new_stream s peer i)
      else http2_stream_find_unlocked s j)"
  using assms
  by (auto simp: http2_stream_find_unlocked_def http2_stream_get_or_create_def Let_def
      chain_find_def new_stream_def streams_ok_def HTTP2_STREAM_BUCKETS_def nth_list_update
      split: option.splits)

lemma get_or_create_fst:
  "i \<noteq> 0 \<Longrightarrow> fst (http2_stream_get_or_create s i peer ok) =
     (case http2_stream_find_unlocked s i of
        Some st \<Rightarrow> Some st | None \<Rightarrow> if ok then Some (new_stream s peer i) else None)"
  by (auto simp: http2_stream_find_unlocked_def http2_stream_get_or_create_def Let_def
      split: option.splits)

text \<open>The end of a session: the files that are still open are closed, chain by chain.\<close>

definition http2_session_destroy :: "HTTP2Session \<Rightarrow> int list" where
  "http2_session_destroy s = filter (\<lambda>fd. 0 \<le> fd) (map st_file_fd (concat (ss_streams_hash s)))"

lemma http2_session_destroy_closes:
  assumes "streams_ok s" and "i \<noteq> 0" and "http2_stream_find_unlocked s i = Some st" and "0 \<le> st_file_fd st"
  shows "st_file_fd st \<in> set (http2_session_destroy s)"
proof -
  let ?b = "http2_stream_get_bucket_fibonacci i"
  have "?b < length (ss_streams_hash s)" using assms(1) by (simp add: streams_ok_def HTTP2_STREAM_BUCKETS_def)
  moreover have "st \<in> set (ss_streams_hash s ! ?b)"
    using assms(2,3) by (auto simp: http2_stream_find_unlocked_def chain_find_def find_Some_iff split: if_splits)
  ultimately have "st \<in> set (concat (ss_streams_hash s))" by (auto intro: nth_mem)
  then show ?thesis using assms(4) by (simp add: http2_session_destroy_def)
qed

interpretation streams: keyed_table streams_ok http2_stream_find_unlocked
  "\<lambda>s i. snd (http2_stream_get_or_create s i peer True)" "\<lambda>s i f. with_stream i f s"
  "\<lambda>s i. new_stream s peer i" "\<lambda>i. i \<noteq> 0" "\<lambda>f. \<forall>st. st_stream_id (f st) = st_stream_id st"
proof
  fix s and i :: u32
  assume "streams_ok s" "i \<noteq> 0"
  then show "http2_stream_find_unlocked (snd (http2_stream_get_or_create s i peer True)) =
      map_step (new_stream s peer) (http2_stream_find_unlocked s) (Create i)"
    by (auto simp: get_or_create_find)
next
  fix s and i :: u32 and f :: "HTTP2Stream \<Rightarrow> HTTP2Stream"
  assume "streams_ok s" "\<forall>st. st_stream_id (f st) = st_stream_id st"
  then show "http2_stream_find_unlocked (with_stream i f s) =
      map_step (new_stream s peer) (http2_stream_find_unlocked s) (Modify i f)"
    by (auto simp: with_stream_find)
next
  fix s and i :: u32
  assume "streams_ok s"
  then show "streams_ok (snd (http2_stream_get_or_create s i peer True))"
    by (rule get_or_create_ok)
next
  fix s and i :: u32 and f :: "HTTP2Stream \<Rightarrow> HTTP2Stream"
  assume "streams_ok s" "\<forall>st. st_stream_id (f st) = st_stream_id st"
  then show "streams_ok (with_stream i f s)" by (auto intro: with_stream_ok)
next
  fix s and i :: u32
  show "new_stream (snd (http2_stream_get_or_create s i peer True)) peer = new_stream s peer"
    by (auto simp: new_stream_def http2_stream_get_or_create_def Let_def fun_eq_iff split: option.split)
next
  fix s and i :: u32 and f :: "HTTP2Stream \<Rightarrow> HTTP2Stream"
  show "new_stream (with_stream i f s) peer = new_stream s peer"
    by (simp add: new_stream_def with_stream_def fun_eq_iff)
qed

definition idle_session :: HTTP2Session where
  "idle_session =
     \<lparr> ss_is_tls = False, ss_out_window_size = 65535, ss_peer_initial_window_size = 65535,
       ss_dyn_table = \<lparr> dt_allocated = True, dt_entries = [] \<rparr>,
       ss_streams_hash = replicate 32 [], ss_active_stream_count = 0,
       ss_pending_write_buf = [], ss_pending_write_len = 0, ss_pending_write_offset = 0,
       ss_write_error = False, ss_header_buf_partial = [], ss_preface_bytes_read = 0,
       ss_read_state = 0,
       ss_current_frame_head = \<lparr> fh_length = 0, fh_type = 0, fh_flags = 0, fh_stream_id = 0 \<rparr>,
       ss_payload_buf = None \<rparr>"

lemma streams_ok_idle: "streams_ok idle_session"
  by (simp add: streams_ok_def idle_session_def HTTP2_STREAM_BUCKETS_def)

text \<open>C10: under any sequence of look-ups-or-creations and changes of streams, the 32 bucket chains
  behave as one map from stream numbers to streams: a stream is found again with exactly the
  changes made to it, new streams start with the peer's initial window, and no operation on one
  number disturbs another.\<close>

theorem stream_table_is_map:
  assumes "streams_ok s" and "streams.ops_ok ops"
  shows "http2_stream_find_unlocked (foldl (streams.step peer) s ops) =
           foldl (map_step (new_stream s peer)) (http2_stream_find_unlocked s) ops
       \<and> streams_ok (foldl (streams.step peer) s ops)"
  using streams.steps_refine_map [OF assms] by simp

theorem stream_table_is_map_witness:
  "map_option st_out_window_size (http2_stream_find_unlocked
     (foldl (streams.step None) idle_session
        [Create 1, Modify 1 (\<lambda>st. st\<lparr> st_out_window_size := 7 \<rparr>), Create 3]) 1) = Some 7"
proof -
  let ?ops = "[Create 1, Modify 1 (\<lambda>st. st\<lparr> st_out_window_size := 7 \<rparr>), Create 3] ::
    (u32, HTTP2Stream) table_op list"
  have "streams.ops_ok ?ops" by (simp add: streams.ops_ok_def)
  from stream_table_is_map [OF streams_ok_idle this, of None] show ?thesis
    by (simp add: http2_stream_find_unlocked_def idle_session_def chain_find_def)
qed

end
