(* ===== verification/H2_Socket.thy ===== *)
theory H2_Socket
  imports H2_Types
begin

text \<open>
  The outgoing byte stream of an HTTP/2 connection: the backlog of
  src/protocol/http2/halmos_http2_socket.c and the frames of
  src/protocol/http2/halmos_http2_frame.c.

  A system call to write is given by what it returns, \<open>n\<close> and \<open>errno\<close>; an operation returns the
  session and the bytes that went out.  \<open>EWOULDBLOCK\<close> is \<open>EAGAIN\<close>, as on Linux.
\<close>

section \<open>Writing and the backlog\<close>

definition EAGAIN :: int where "EAGAIN = 11"

record sys_result =
  sr_n :: int
  sr_errno :: int

definition write_retry :: "bool \<Rightarrow> sys_result \<Rightarrow> bool" where
  "write_retry is_tls r = (if is_tls then sr_n r = - EAGAIN else sr_errno r = EAGAIN)"

definition old_unsent :: "HTTP2Session \<Rightarrow> bytes" where
  "old_unsent s = drop (ss_pending_write_offset s) (ss_pending_write_buf s)"

text \<open>The second half: what is left of the data joins what is left of the backlog.\<close>

definition buffer_rest :: "HTTP2Session \<Rightarrow> bytes \<Rightarrow> bool \<Rightarrow> HTTP2Session" where
  "buffer_rest s rest malloc_ok =
     (if rest = [] then s
      else if \<not> malloc_ok then s\<lparr> ss_write_error := True \<rparr>
      else s\<lparr> ss_pending_write_buf := old_unsent s @ rest,
              ss_pending_write_len := length (old_unsent s @ rest),
              ss_pending_write_offset := 0 \<rparr>)"

definition http2_socket_write_or_buffer ::
  "HTTP2Session \<Rightarrow> bytes \<Rightarrow> sys_result \<Rightarrow> bool \<Rightarrow> HTTP2Session \<times> bytes" where
  "http2_socket_write_or_buffer s data r malloc_ok =
     (if data = [] then (s, [])
      else if ss_pending_write_len s \<le> ss_pending_write_offset s then
        (if sr_n r = int (length data) then (s, data)
         else if sr_n r < 0 then
           (if \<not> write_retry (ss_is_tls s) r then (s\<lparr> ss_write_error := True \<rparr>, [])
            else (buffer_rest s data malloc_ok, []))
         else (buffer_rest s (drop (nat (sr_n r)) data) malloc_ok, take (nat (sr_n r)) data))
      else (buffer_rest s data malloc_ok, []))"

definition http2_socket_flush_pending_write ::
  "HTTP2Session \<Rightarrow> sys_result \<Rightarrow> int \<times> HTTP2Session \<times> bytes" where
  "http2_socket_flush_pending_write s r =
     (if ss_pending_write_len s \<le> ss_pending_write_offset s then (0, s, [])
      else if sr_n r > 0 then
        (let off = ss_pending_write_offset s + nat (sr_n r);
             sent = take (nat (sr_n r)) (old_unsent s)
         in if off \<ge> ss_pending_write_len s then
              (0, s\<lparr> ss_pending_write_buf := [], ss_pending_write_len := 0,
                     ss_pending_write_offset := 0 \<rparr>, sent)
            else (1, s\<lparr> ss_pending_write_offset := off \<rparr>, sent))
      else if sr_n r < 0 then
        (if write_retry (ss_is_tls s) r then (1, s, []) else (-1, s, []))
      else (1, s, []))"

section \<open>Frames\<close>

definition frame_bytes :: "u8 \<Rightarrow> u8 \<Rightarrow> u32 \<Rightarrow> bytes \<Rightarrow> bytes" where
  "frame_bytes type flags stream_id payload =
     (let len = length payload; sid = unat (stream_id AND 0x7FFFFFFF)
      in [byte_of 2 len, byte_of 1 len, byte_of 0 len, type, flags,
          byte_of 3 sid, byte_of 2 sid, byte_of 1 sid, byte_of 0 sid] @ payload)"

definition http2_frame_send ::
  "HTTP2Session \<Rightarrow> u8 \<Rightarrow> u8 \<Rightarrow> u32 \<Rightarrow> bytes \<Rightarrow> sys_result \<Rightarrow> bool \<Rightarrow> HTTP2Session \<times> bytes" where
  "http2_frame_send s type flags stream_id payload r malloc_ok =
     (if length payload > 16384 then (s, [])
      else http2_socket_write_or_buffer s (frame_bytes type flags stream_id payload) r malloc_ok)"

text \<open>The settings and their acknowledgement go to the socket directly.\<close>

definition settings_bytes :: bytes where
  "settings_bytes =
     [0x00, 0x00, 0x12, 0x04, 0x00, 0x00, 0x00, 0x00, 0x00,
      0x00, 0x01, 0x00, 0x00, 0x00, 0x00,
      0x00, 0x03, 0x00, 0x00, 0x00, 0x64,
      0x00, 0x04, 0x00, 0x10, 0x00, 0x00]"

definition settings_ack_bytes :: bytes where
  "settings_ack_bytes = [0, 0, 0, 4, 1, 0, 0, 0, 0]"

definition raw_write :: "HTTP2Session \<Rightarrow> bytes \<Rightarrow> sys_result \<Rightarrow> HTTP2Session \<times> bytes" where
  "raw_write s data r = (s, take (nat (sr_n r)) data)"

definition window_update_payload :: "u32 \<Rightarrow> bytes" where
  "window_update_payload increment =
     [byte_of 3 (unat increment) AND 0x7F, byte_of 2 (unat increment),
      byte_of 1 (unat increment), byte_of 0 (unat increment)]"

definition http2_parser_frame_header :: "bytes \<Rightarrow> HTTP2FrameHeader" where
  "http2_parser_frame_header buf =
     \<lparr> fh_length = be24 (buf ! 0) (buf ! 1) (buf ! 2),
       fh_type = buf ! 3, fh_flags = buf ! 4,
       fh_stream_id = word_of_nat (be32 (buf ! 5 AND 0x7F) (buf ! 6) (buf ! 7) (buf ! 8)) \<rparr>"

definition http2_frame_handle_window_update ::
  "HTTP2Session \<Rightarrow> HTTP2FrameHeader \<Rightarrow> bytes option \<Rightarrow> HTTP2Session" where
  "http2_frame_handle_window_update s head payload =
     (case payload of
        None \<Rightarrow> s
      | Some p \<Rightarrow>
          if fh_length head < 4 then s
          else
            let increment = word_of_nat (be32 (p ! 0 AND 0x7F) (p ! 1) (p ! 2) (p ! 3)) :: u32
            in if increment = 0 then s
               else if fh_stream_id head = 0 then
                 s\<lparr> ss_out_window_size := ss_out_window_size s + increment \<rparr>
               else case http2_stream_find_unlocked s (fh_stream_id head) of
                      Some _ \<Rightarrow> with_stream (fh_stream_id head)
                                  (\<lambda>st. st\<lparr> st_out_window_size := st_out_window_size st + increment \<rparr>) s
                    | None \<Rightarrow> s)"

section \<open>The order of the bytes\<close>

definition backlog_ok :: "HTTP2Session \<Rightarrow> bool" where
  "backlog_ok s \<longleftrightarrow> ss_pending_write_len s = length (ss_pending_write_buf s)
     \<and> ss_pending_write_offset s \<le> ss_pending_write_len s"

datatype sock_op = Send bytes sys_result bool | Flush sys_result

fun sock_step :: "HTTP2Session \<Rightarrow> sock_op \<Rightarrow> HTTP2Session \<times> bytes" where
  "sock_step s (Send data r m) = http2_socket_write_or_buffer s data r m"
| "sock_step s (Flush r) = snd (http2_socket_flush_pending_write s r)"

fun sock_run :: "HTTP2Session \<Rightarrow> sock_op list \<Rightarrow> HTTP2Session \<times> bytes" where
  "sock_run s [] = (s, [])"
| "sock_run s (x # xs) =
     (let (s1, w1) = sock_step s x; (s2, w2) = sock_run s1 xs in (s2, w1 @ w2))"

text \<open>A write never reports more than it was given.\<close>

fun op_possible :: "HTTP2Session \<Rightarrow> sock_op \<Rightarrow> bool" where
  "op_possible s (Send data r m) \<longleftrightarrow> sr_n r \<le> int (length data)"
| "op_possible s (Flush r) \<longleftrightarrow> sr_n r \<le> int (length (old_unsent s))"

fun run_possible :: "HTTP2Session \<Rightarrow> sock_op list \<Rightarrow> bool" where
  "run_possible s [] \<longleftrightarrow> True"
| "run_possible s (x # xs) \<longleftrightarrow> op_possible s x \<and> run_possible (fst (sock_step s x)) xs"

fun submitted :: "sock_op list \<Rightarrow> bytes" where
  "submitted [] = []"
| "submitted (Send data r m # xs) = data @ submitted xs"
| "submitted (Flush r # xs) = submitted xs"

lemma write_error_stays:
  "ss_write_error s \<Longrightarrow> ss_write_error (fst (sock_step s x))"
  by (cases x) (auto simp: http2_socket_write_or_buffer_def http2_socket_flush_pending_write_def
      buffer_rest_def Let_def)

lemma write_error_run: "ss_write_error s \<Longrightarrow> ss_write_error (fst (sock_run s xs))"
proof (induction xs arbitrary: s)
  case (Cons x xs)
  then show ?case
    using Cons.IH [OF write_error_stays [OF Cons.prems, of x]] by (simp add: Let_def case_prod_unfold)
qed simp

lemma take_drop_rest: "take n (drop k xs) @ drop (k + n) xs = drop k xs"
  by (metis append_take_drop_id drop_drop add.commute)

lemma sock_step_order:
  assumes "backlog_ok s" and "op_possible s x" and "\<not> ss_write_error (fst (sock_step s x))"
  shows "backlog_ok (fst (sock_step s x)) \<and>
     snd (sock_step s x) @ old_unsent (fst (sock_step s x)) = old_unsent s @ submitted [x]"
proof (cases x)
  case (Send data r m)
  show ?thesis
  proof (cases "ss_pending_write_len s \<le> ss_pending_write_offset s")
    case True
    with assms(1) have "old_unsent s = []" by (simp add: backlog_ok_def old_unsent_def)
    with True Send assms show ?thesis
      by (auto simp: http2_socket_write_or_buffer_def buffer_rest_def backlog_ok_def old_unsent_def
          split: if_splits)
  next
    case False
    with Send assms show ?thesis
      by (auto simp: http2_socket_write_or_buffer_def buffer_rest_def backlog_ok_def old_unsent_def
          split: if_splits)
  qed
next
  case (Flush r)
  with assms show ?thesis
    by (auto simp: http2_socket_flush_pending_write_def backlog_ok_def old_unsent_def Let_def
        take_drop_rest split: if_splits)
qed

lemma sock_run_order:
  "backlog_ok s \<Longrightarrow> run_possible s xs \<Longrightarrow> \<not> ss_write_error (fst (sock_run s xs)) \<Longrightarrow>
     snd (sock_run s xs) @ old_unsent (fst (sock_run s xs)) = old_unsent s @ submitted xs"
proof (induction xs arbitrary: s)
  case (Cons x xs)
  let ?s1 = "fst (sock_step s x)"
  have ne: "\<not> ss_write_error ?s1"
    using Cons.prems(3) write_error_run [of ?s1 xs] by (auto simp: Let_def case_prod_unfold)
  from Cons.prems have x: "op_possible s x" and xs: "run_possible ?s1 xs" by simp_all
  note st = sock_step_order [OF Cons.prems(1) x ne]
  have "snd (sock_run ?s1 xs) @ old_unsent (fst (sock_run ?s1 xs)) = old_unsent ?s1 @ submitted xs"
    using Cons.prems(3) st xs by (intro Cons.IH) (auto simp: Let_def case_prod_unfold)
  moreover have "submitted (x # xs) = submitted [x] @ submitted xs" by (cases x) auto
  ultimately show ?case
    using st by (simp add: Let_def case_prod_unfold)
qed simp

lemma frame_header_bytes:
  assumes "length payload < 16777216"
  shows "http2_parser_frame_header (frame_bytes type flags sid payload @ rest) =
           \<lparr> fh_length = length payload, fh_type = type, fh_flags = flags,
             fh_stream_id = sid AND 0x7FFFFFFF \<rparr>"
proof -
  let ?n = "unat (sid AND 0x7FFFFFFF)"
  have "sid AND 0x7FFFFFFF = take_bit 31 sid"
    by (simp add: take_bit_eq_mask mask_eq_exp_minus_1)
  then have "?n = take_bit 31 (unat sid)" by (simp add: unsigned_take_bit_eq)
  then have n: "?n < 2147483648" using take_bit_nat_less_exp [of 31 "unat sid"] by simp
  then have "?n div 16777216 mod 256 < 128"
    by (simp add: less_mult_imp_div_less)
  then have "byte_of 3 ?n AND 0x7F = byte_of 3 ?n"
    by (simp add: byte_of_def u8_and_127)
  then show ?thesis
    using assms n by (simp add: http2_parser_frame_header_def frame_bytes_def Let_def
        be24_byte_of be32_byte_of)
qed

section \<open>Properties\<close>

text \<open>C11: on one connection, whatever the sizes and the order of the writes and flushes, whatever
  part of each the socket takes, and however often it answers EAGAIN: the bytes that went out,
  followed by the backlog, are exactly the bytes submitted, in order, none lost and none twice, as
  long as the session is not marked failed.\<close>

theorem h2_write_order:
  assumes "backlog_ok s" and "old_unsent s = []" and "run_possible s ops"
    and "sock_run s ops = (s', wire)" and "\<not> ss_write_error s'"
  shows "wire @ old_unsent s' = submitted ops"
  using sock_run_order [OF assms(1,3)] assms(2,4,5) by simp

theorem h2_write_order_witness:
  "let ops = [Send [1, 2, 3] \<lparr> sr_n = 1, sr_errno = 0 \<rparr> True,
              Send [4] \<lparr> sr_n = -1, sr_errno = 11 \<rparr> True,
              Flush \<lparr> sr_n = 2, sr_errno = 0 \<rparr>];
       (s', wire) = sock_run idle_session ops
   in wire @ old_unsent s' = [1, 2, 3, 4]"
proof -
  let ?ops = "[Send [1, 2, 3] \<lparr> sr_n = 1, sr_errno = 0 \<rparr> True,
              Send [4] \<lparr> sr_n = -1, sr_errno = 11 \<rparr> True,
              Flush \<lparr> sr_n = 2, sr_errno = 0 \<rparr>]"
  obtain s' wire where run: "sock_run idle_session ?ops = (s', wire)" by fastforce
  have "wire @ old_unsent s' = submitted ?ops"
    by (rule h2_write_order [OF _ _ _ run])
      (use run in \<open>auto simp: idle_session_def backlog_ok_def old_unsent_def buffer_rest_def
        http2_socket_write_or_buffer_def http2_socket_flush_pending_write_def\<close>)
  with run show ?thesis by simp
qed


text \<open>The connection window is not guarded against overflow: a window update that takes it past
  2 to the 31 minus 1, which RFC 7540, section 6.9.1, wants answered with FLOW_CONTROL_ERROR, makes
  it negative.\<close>

theorem window_update_wraps:
  assumes "fh_length head \<ge> 4" and "fh_stream_id head = 0" and "payload = [byte_of 3 inc, byte_of 2 inc, byte_of 1 inc, byte_of 0 inc]"
    and "0 < inc" and "inc < 2 ^ 31" and "0 \<le> sint (ss_out_window_size s)"
  shows "sint (ss_out_window_size (http2_frame_handle_window_update s head (Some payload))) =
           (let w = sint (ss_out_window_size s) + int inc in if w < 2 ^ 31 then w else w - 2 ^ 32)"
proof -
  have "inc div 16777216 mod 256 < 128"
    using assms(5) by (simp add: less_mult_imp_div_less)
  then have "byte_of 3 inc AND 0x7F = byte_of 3 inc"
    by (simp add: byte_of_def u8_and_127)
  then have be: "be32 (byte_of 3 inc AND 0x7F) (byte_of 2 inc) (byte_of 1 inc) (byte_of 0 inc) = inc"
    using assms(5) by (simp add: be32_byte_of)
  have nz: "(word_of_nat inc :: u32) \<noteq> 0"
    using assms(4,5) by (simp add: word_of_nat_eq_0_iff nat_dvd_not_less)
  let ?w = "ss_out_window_size s"
  have "sint (?w + word_of_nat inc) = signed_take_bit 31 (sint ?w + int inc)"
    using assms(5) by (simp add: sint_word_ariths signed_of_nat signed_take_bit_int_eq_self)
  also have "\<dots> = (sint ?w + int inc + 2 ^ 31) mod 2 ^ 32 - 2 ^ 31"
    by (simp add: signed_take_bit_eq_take_bit_shift take_bit_eq_mod)
  also have "\<dots> = (let w = sint ?w + int inc in if w < 2 ^ 31 then w else w - 2 ^ 32)"
  proof (cases "sint ?w + int inc < 2 ^ 31")
    case False
    have "sint ?w < 2 ^ 31" using sint_less [of ?w] by simp
    with False assms(5) have "(sint ?w + int inc + 2 ^ 31 - 2 ^ 32) mod 2 ^ 32 = sint ?w + int inc + 2 ^ 31 - 2 ^ 32"
      by (intro mod_pos_pos_trivial) simp_all
    then have "(sint ?w + int inc + 2 ^ 31) mod 2 ^ 32 = sint ?w + int inc + 2 ^ 31 - 2 ^ 32"
      by (simp only: minus_mod_self2)
    with False show ?thesis by (simp add: Let_def)
  qed (use assms in \<open>simp add: Let_def mod_pos_pos_trivial\<close>)
  finally show ?thesis
    using assms(1,2,3) be nz by (simp add: http2_frame_handle_window_update_def Let_def)
qed

theorem window_update_wraps_witness:
  "sint (ss_out_window_size (http2_frame_handle_window_update
      (idle_session\<lparr> ss_out_window_size := 0x7fffffff \<rparr>)
      \<lparr> fh_length = 4, fh_type = 8, fh_flags = 0, fh_stream_id = 0 \<rparr>
      (Some [byte_of 3 1, byte_of 2 1, byte_of 1 1, byte_of 0 1]))) = - (2 ^ 31)"
  by (subst window_update_wraps [OF _ _ refl]) simp_all

end
