(* ===== verification/Http_Utils.thy ===== *)
theory Http_Utils
  imports Http_Types "HOL-Library.Sublist"
begin

text \<open>
  The text helpers of src/protocol/halmos_http_utils.c: URL decoding, trimming, extensions, MIME
  types, the path check against the document root and the reason phrases.

  A text is its characters before NUL.  Decoding works in place in the source; here it is the text
  written.  \<open>realpath\<close> is an argument: what the file system answers.  A pointer into a text is an
  offset.  \<open>get_time_string\<close>, which only formats the clock, is left out.
\<close>

section \<open>Characters and comparison\<close>

definition c_val :: "char \<Rightarrow> nat" where
  "c_val c = of_char c"

definition c_isxdigit :: "char \<Rightarrow> bool" where
  "c_isxdigit c \<longleftrightarrow> (let n = c_val c in (48 \<le> n \<and> n \<le> 57) \<or> (65 \<le> n \<and> n \<le> 70) \<or> (97 \<le> n \<and> n \<le> 102))"

definition hex_val :: "char \<Rightarrow> nat" where
  "hex_val c = (let n = c_val c in if n \<le> 57 then n - 48 else if n \<le> 70 then n - 55 else n - 87)"

definition c_tolower :: "char \<Rightarrow> char" where
  "c_tolower c = (let n = c_val c in if 65 \<le> n \<and> n \<le> 90 then char_of (n + 32) else c)"

definition c_strcasecmp_eq :: "string \<Rightarrow> string \<Rightarrow> bool" where
  "c_strcasecmp_eq a b \<longleftrightarrow> map c_tolower a = map c_tolower b"

text \<open>\<open>strcmp\<close>: negative, zero or positive.\<close>

fun c_strcmp :: "string \<Rightarrow> string \<Rightarrow> int" where
  "c_strcmp [] [] = 0"
| "c_strcmp [] (b # bs) = -1"
| "c_strcmp (a # as) [] = 1"
| "c_strcmp (a # as) (b # bs) =
     (if c_val a < c_val b then -1 else if c_val b < c_val a then 1 else c_strcmp as bs)"

lemma c_val_inject [simp]: "c_val a = c_val b \<longleftrightarrow> a = b"
  by (simp add: c_val_def)

lemma c_strcmp_eq_0 [simp]: "c_strcmp a b = 0 \<longleftrightarrow> a = b"
  by (induction a b rule: c_strcmp.induct) (auto simp: not_less intro: le_antisym [THEN c_val_inject [THEN iffD1]])

text \<open>\<open>strstr\<close> and \<open>strcasestr\<close>: the text from the first occurrence on.\<close>

fun c_strstr :: "string \<Rightarrow> string \<Rightarrow> string option" where
  "c_strstr s needle =
     (if take (length needle) s = needle then Some s
      else case s of [] \<Rightarrow> None | _ # t \<Rightarrow> c_strstr t needle)"

declare c_strstr.simps [simp del]

fun c_strcasestr :: "string \<Rightarrow> string \<Rightarrow> string option" where
  "c_strcasestr s needle =
     (if c_strcasecmp_eq (take (length needle) s) needle then Some s
      else case s of [] \<Rightarrow> None | _ # t \<Rightarrow> c_strcasestr t needle)"

declare c_strcasestr.simps [simp del]

text \<open>\<open>memmem\<close>: the bytes from the first occurrence on.\<close>

fun memmem :: "'a list \<Rightarrow> 'a list \<Rightarrow> 'a list option" where
  "memmem s needle =
     (if take (length needle) s = needle then Some s
      else case s of [] \<Rightarrow> None | _ # t \<Rightarrow> memmem t needle)"

declare memmem.simps [simp del]

lemma memmem_suffix: "memmem s needle = Some t \<Longrightarrow> \<exists>p. s = p @ t"
proof (induction s)
  case Nil
  then show ?case by (subst (asm) memmem.simps) (auto split: if_splits)
next
  case (Cons x s)
  then show ?case
    by (subst (asm) memmem.simps) (auto split: if_splits intro: exI [of _ "[]"] exI [of _ "x # p" for p])
qed

lemma memmem_length: "memmem s needle = Some t \<Longrightarrow> length t \<le> length s"
  using memmem_suffix by fastforce

lemma memmem_prefix: "memmem s needle = Some t \<Longrightarrow> take (length needle) t = needle"
proof (induction s)
  case Nil
  then show ?case by (subst (asm) memmem.simps) (auto split: if_splits)
next
  case (Cons x s)
  then show ?case by (subst (asm) memmem.simps) (auto split: if_splits)
qed

lemma memmem_long: "memmem s needle = Some t \<Longrightarrow> length needle \<le> length t"
  using memmem_prefix [of s needle t] by (metis length_take min.cobounded1)

lemma memmem_here [simp]: "memmem (b @ t) b = Some (b @ t)"
  by (subst memmem.simps) simp

lemma memmem_extend: "memmem (u @ b) b = Some b \<Longrightarrow> memmem (u @ b @ v) b = Some (b @ v)"
proof (induction u)
  case (Cons x u)
  have "take (length b) (x # u @ b) \<noteq> b"
  proof
    assume "take (length b) (x # u @ b) = b"
    then have "memmem (x # u @ b) b = Some (x # u @ b)" by (subst memmem.simps) simp
    with Cons.prems have "length b = length (x # u @ b)" by (metis append_Cons option.inject)
    then show False by simp
  qed
  moreover from this have "memmem (u @ b) b = Some b"
    using Cons.prems by (subst (asm) memmem.simps) simp
  moreover have "take (length b) (x # u @ b @ v) = take (length b) (x # u @ b)"
    by (cases "length b") (simp_all add: take_Cons')
  ultimately show ?case
    using Cons.IH by (subst append_Cons, subst memmem.simps) simp
qed simp

lemma c_strstr_memmem: "c_strstr s needle = memmem s needle"
  by (induction s) (subst c_strstr.simps, subst memmem.simps, simp)+

section \<open>Decoding and trimming\<close>

fun url_decode :: "string \<Rightarrow> string" where
  "url_decode [] = []"
| "url_decode (c # s) =
     (if c = CHR ''+'' then CHR '' '' # url_decode s
      else if c = CHR ''%'' \<and> 2 \<le> length s \<and> c_isxdigit (s ! 0) \<and> c_isxdigit (s ! 1)
      then char_of (16 * hex_val (s ! 0) + hex_val (s ! 1)) # url_decode (drop 2 s)
      else c # url_decode s)"

definition trim_end :: "(char \<Rightarrow> bool) \<Rightarrow> string \<Rightarrow> string" where
  "trim_end p s = rev (dropWhile p (rev s))"

definition trim_right :: "string \<Rightarrow> string" where
  "trim_right = trim_end c_isspace"

definition trim_whitespace :: "string \<Rightarrow> string" where
  "trim_whitespace =
     trim_end (\<lambda>c. c = CHR '' '' \<or> c = CHR 0x0D \<or> c = CHR 0x0A \<or> c = CHR 0x09)"

definition has_extension :: "string option \<Rightarrow> nat option \<Rightarrow> string option \<Rightarrow> bool" where
  "has_extension uri path_info ext =
     (case (uri, ext) of
        (Some u, Some e) \<Rightarrow>
          if e = [] then False
          else
            let n = (case path_info of Some k \<Rightarrow> k | None \<Rightarrow> length u);
                len_to_check = (if n \<ge> 1024 then 1023 else n);
                temp_path = take len_to_check u
            in if len_to_check < length e then False
               else c_strcasecmp_eq (drop (len_to_check - length e) temp_path) e
      | _ \<Rightarrow> False)"

section \<open>The path check\<close>

definition PATH_MAX :: nat where "PATH_MAX = 4096"

definition sanitize_path :: "(string \<Rightarrow> string option) \<Rightarrow> string \<Rightarrow> string \<Rightarrow> string option" where
  "sanitize_path realpath root uri =
     (case realpath root of
        None \<Rightarrow> None
      | Some r \<Rightarrow>
          let resolved_root = (if r \<noteq> [] \<and> last r = CHR ''/'' then butlast r else r);
              root_len = length resolved_root
          in if length resolved_root + length uri + 2 > PATH_MAX then None
             else
               let full_path = (if uri \<noteq> [] \<and> hd uri = CHR ''/''
                                then take 512 resolved_root @ take 511 uri
                                else take 512 resolved_root @ ''/'' @ take 510 uri)
               in case realpath full_path of
                    None \<Rightarrow> None
                  | Some p \<Rightarrow> if take root_len p \<noteq> resolved_root then None else Some p)"

section \<open>MIME types\<close>

definition mime_types :: "(string \<times> string) list" where
  "mime_types = [
     (''.css'', ''text/css''), (''.gif'', ''image/gif''), (''.html'', ''text/html''),
     (''.ico'', ''image/x-icon''), (''.js'', ''text/javascript''), (''.jpg'', ''image/jpeg''),
     (''.png'', ''image/png''), (''.txt'', ''text/plain'')]"

text \<open>\<open>strrchr (s, '.')\<close>: the text from the last dot.\<close>

definition last_dot :: "string \<Rightarrow> string option" where
  "last_dot s =
     (if CHR ''.'' \<in> set s then Some (CHR ''.'' # rev (takeWhile (\<lambda>c. c \<noteq> CHR ''.'') (rev s))) else None)"

function mime_search :: "string \<Rightarrow> int \<Rightarrow> int \<Rightarrow> string" where
  "mime_search dot low high =
     (if low \<le> high then
        let mid = (low + high) div 2;
            res = c_strcmp dot (fst (mime_types ! nat mid))
        in if res = 0 then snd (mime_types ! nat mid)
           else if res < 0 then mime_search dot low (mid - 1)
           else mime_search dot (mid + 1) high
      else ''application/octet-stream'')"
  by pat_completeness auto
termination by (relation "measure (\<lambda>(_, low, high). nat (high - low + 1))") auto

declare mime_search.simps [simp del]

definition get_mime_type :: "string \<Rightarrow> string" where
  "get_mime_type file =
     (case last_dot file of
        None \<Rightarrow> ''text/html''
      | Some dot \<Rightarrow> mime_search dot 0 (int (length mime_types) - 1))"

definition get_status_text :: "int \<Rightarrow> string" where
  "get_status_text code =
     (if code = 100 then ''Continue'' else if code = 101 then ''Switching Protocols''
      else if code = 200 then ''OK'' else if code = 201 then ''Created''
      else if code = 202 then ''Accepted'' else if code = 204 then ''No Content''
      else if code = 206 then ''Partial Content'' else if code = 301 then ''Moved Permanently''
      else if code = 302 then ''Found'' else if code = 303 then ''See Other''
      else if code = 304 then ''Not Modified'' else if code = 400 then ''Bad Request''
      else if code = 401 then ''Unauthorized'' else if code = 403 then ''Forbidden''
      else if code = 404 then ''Not Found'' else if code = 405 then ''Method Not Allowed''
      else if code = 413 then ''Payload Too Large'' else if code = 500 then ''Internal Server Error''
      else if code = 501 then ''Not Implemented'' else if code = 502 then ''Bad Gateway''
      else if code = 503 then ''Service Unavailable'' else if code = 504 then ''Gateway Timeout''
      else ''Unknown Status'')"

section \<open>Lemmas\<close>

lemma mime_search_miss:
  "0 \<le> low \<Longrightarrow> high < int (length mime_types) \<Longrightarrow> dot \<notin> fst ` set mime_types \<Longrightarrow>
     mime_search dot low high = ''application/octet-stream''"
proof (induction dot low high rule: mime_search.induct)
  case (1 dot low high)
  let ?mid = "(low + high) div 2"
  show ?case
  proof (cases "low \<le> high")
    case True
    with 1 have "nat ?mid < length mime_types" "0 \<le> ?mid" by auto
    then have "dot \<noteq> fst (mime_types ! nat ?mid)" using 1(5) by (metis image_eqI nth_mem)
    with 1 True show ?thesis
      by (subst mime_search.simps) (auto simp: Let_def)
  qed (simp add: mime_search.simps)
qed

lemma mime_search_listed:
  "mime_search ''.css'' 0 7 = ''text/css''" "mime_search ''.gif'' 0 7 = ''image/gif''"
  "mime_search ''.html'' 0 7 = ''text/html''" "mime_search ''.ico'' 0 7 = ''image/x-icon''"
  "mime_search ''.js'' 0 7 = ''application/octet-stream''" "mime_search ''.jpg'' 0 7 = ''image/jpeg''"
  "mime_search ''.png'' 0 7 = ''image/png''" "mime_search ''.txt'' 0 7 = ''text/plain''"
  by code_simp+

text \<open>An encoder of RFC 3986: letters and digits stay, every other character is percent-encoded.\<close>

definition hex_digit :: "nat \<Rightarrow> char" where
  "hex_digit n = char_of (if n < 10 then n + 48 else n + 55)"

definition url_unreserved :: "char \<Rightarrow> bool" where
  "url_unreserved c \<longleftrightarrow> (let n = c_val c in (48 \<le> n \<and> n \<le> 57) \<or> (65 \<le> n \<and> n \<le> 90) \<or> (97 \<le> n \<and> n \<le> 122))"

fun url_encode :: "string \<Rightarrow> string" where
  "url_encode [] = []"
| "url_encode (c # s) =
     (if url_unreserved c then c # url_encode s
      else CHR ''%'' # hex_digit (c_val c div 16) # hex_digit (c_val c mod 16) # url_encode s)"

lemma c_val_less: "c_val c < 256"
  by (simp add: c_val_def)

lemma hex_digit_ok: "n < 16 \<Longrightarrow> c_isxdigit (hex_digit n) \<and> hex_val (hex_digit n) = n"
  by (auto simp: c_isxdigit_def hex_val_def hex_digit_def c_val_def Let_def)

lemma url_decode_encode: "url_decode (url_encode s) = s"
proof (induction s)
  case (Cons c s)
  have d: "c_val c div 16 < 16" using c_val_less [of c] by linarith
  have e: "16 * (c_val c div 16) + c_val c mod 16 = c_val c" by simp
  have "c \<noteq> CHR ''+'' \<and> c \<noteq> CHR ''%''" if "url_unreserved c"
    using that by (auto simp: url_unreserved_def c_val_def Let_def)
  then show ?case
    using Cons hex_digit_ok [OF d] hex_digit_ok [of "c_val c mod 16"] e
    by (auto simp: c_val_def)
qed simp

section \<open>Properties\<close>

text \<open>URL decoding undoes percent-encoding for every text, whatever bytes it holds.\<close>

theorem url_decode_roundtrip: "url_decode (url_encode s) = s"
  by (rule url_decode_encode)

text \<open>The MIME type of every file name: the table's type for the extension after the last dot,
  text/html without a dot, application/octet-stream for an extension that is not listed -- and for
  ".js", which is listed but stands before ".jpg", so that the binary search over the unsorted table
  never reaches it.\<close>

theorem get_mime_type_spec:
  "get_mime_type file =
     (case last_dot file of
        None \<Rightarrow> ''text/html''
      | Some ext \<Rightarrow>
          if ext = ''.js'' then ''application/octet-stream''
          else (case map_of mime_types ext of
                  Some t \<Rightarrow> t | None \<Rightarrow> ''application/octet-stream''))"
proof (cases "last_dot file")
  case (Some ext)
  show ?thesis
  proof (cases "ext \<in> fst ` set mime_types")
    case True
    then have "ext = ''.css'' \<or> ext = ''.gif'' \<or> ext = ''.html'' \<or> ext = ''.ico''
      \<or> ext = ''.js'' \<or> ext = ''.jpg'' \<or> ext = ''.png'' \<or> ext = ''.txt''"
      by (simp add: mime_types_def)
    then show ?thesis
      using Some
      by (elim disjE) (simp_all add: get_mime_type_def mime_search_listed mime_types_def)
  next
    case False
    then have "map_of mime_types ext = None" by (simp add: map_of_eq_None_iff)
    moreover have "ext \<noteq> ''.js''" using False by (auto simp: mime_types_def)
    ultimately show ?thesis
      using Some mime_search_miss [of 0 "int (length mime_types) - 1" ext] False
      by (simp add: get_mime_type_def)
  qed
qed (simp add: get_mime_type_def)

text \<open>For a canonical document root and a path that is short enough, the check compares plain
  characters: it returns the resolved path exactly when the root is a prefix of it as a text.  A
  path outside the root is refused, unless its directory only continues the root's name: with the
  root /var/www/html the file /var/www/html-secret/key is served.\<close>

theorem sanitize_path_is_text_prefix:
  assumes "realpath root = Some r" and "r = [] \<or> last r \<noteq> CHR ''/''" and "length r \<le> 512"
    and "length uri \<le> 510" and "realpath (r @ ''/'' @ uri) = Some p"
    and "uri = [] \<or> hd uri \<noteq> CHR ''/''"
  shows "sanitize_path realpath root uri = (if prefix r p then Some p else None)"
  using assms
  by (auto simp: sanitize_path_def Let_def PATH_MAX_def take_is_prefix prefix_def)
     (metis append_eq_conv_conj append_take_drop_id)+

theorem sanitize_path_is_text_prefix_witness:
  "sanitize_path
     (\<lambda>p. if p = ''/var/www/html/../html-secret/key'' then Some ''/var/www/html-secret/key'' else Some p)
     ''/var/www/html'' ''../html-secret/key'' = Some ''/var/www/html-secret/key''"
  by (subst sanitize_path_is_text_prefix [of _ _ "''/var/www/html''" _ "''/var/www/html-secret/key''"])
    simp_all

end
