(* ===== verification/Huffman_Code.thy ===== *)
theory Huffman_Code
  imports Huff_Table "HOL-Library.Code_Target_Nat"
begin

text \<open>
  The Huffman decoder of HPACK against the code of RFC 7541, Appendix B.

  \<open>rfc7541_code\<close> lists the Appendix, ordered by code word: the symbol (0 to 255, and EOS as 256),
  the code word and its length.  \<open>huff_tree\<close> is the tree with these code words, its inner nodes
  numbered in preorder.  The table of the source is proved to be the table of the 4-bit walks over
  this tree, so that the decoder is the bit-by-bit walk (\<open>walk\<close>) over the input.
\<close>

section \<open>The code of RFC 7541, Appendix B\<close>

definition rfc7541_code :: "(nat \<times> nat \<times> nat) list" where
  "rfc7541_code = [
     (48, 0, 5), (49, 1, 5), (50, 2, 5), (97, 3, 5), (99, 4, 5), (101, 5, 5), (105, 6, 5),
     (111, 7, 5), (115, 8, 5), (116, 9, 5), (32, 20, 6), (37, 21, 6), (45, 22, 6), (46, 23, 6),
     (47, 24, 6), (51, 25, 6), (52, 26, 6), (53, 27, 6), (54, 28, 6), (55, 29, 6), (56, 30, 6),
     (57, 31, 6), (61, 32, 6), (65, 33, 6), (95, 34, 6), (98, 35, 6), (100, 36, 6), (102, 37, 6),
     (103, 38, 6), (104, 39, 6), (108, 40, 6), (109, 41, 6), (110, 42, 6), (112, 43, 6),
     (114, 44, 6), (117, 45, 6), (58, 92, 7), (66, 93, 7), (67, 94, 7), (68, 95, 7), (69, 96, 7),
     (70, 97, 7), (71, 98, 7), (72, 99, 7), (73, 100, 7), (74, 101, 7), (75, 102, 7),
     (76, 103, 7), (77, 104, 7), (78, 105, 7), (79, 106, 7), (80, 107, 7), (81, 108, 7),
     (82, 109, 7), (83, 110, 7), (84, 111, 7), (85, 112, 7), (86, 113, 7), (87, 114, 7),
     (89, 115, 7), (106, 116, 7), (107, 117, 7), (113, 118, 7), (118, 119, 7), (119, 120, 7),
     (120, 121, 7), (121, 122, 7), (122, 123, 7), (38, 248, 8), (42, 249, 8), (44, 250, 8),
     (59, 251, 8), (88, 252, 8), (90, 253, 8), (33, 1016, 10), (34, 1017, 10), (40, 1018, 10),
     (41, 1019, 10), (63, 1020, 10), (39, 2042, 11), (43, 2043, 11), (124, 2044, 11),
     (35, 4090, 12), (62, 4091, 12), (0, 8184, 13), (36, 8185, 13), (64, 8186, 13),
     (91, 8187, 13), (93, 8188, 13), (126, 8189, 13), (94, 16380, 14), (125, 16381, 14),
     (60, 32764, 15), (96, 32765, 15), (123, 32766, 15), (92, 524272, 19), (195, 524273, 19),
     (208, 524274, 19), (128, 1048550, 20), (130, 1048551, 20), (131, 1048552, 20),
     (162, 1048553, 20), (184, 1048554, 20), (194, 1048555, 20), (224, 1048556, 20),
     (226, 1048557, 20), (153, 2097116, 21), (161, 2097117, 21), (167, 2097118, 21),
     (172, 2097119, 21), (176, 2097120, 21), (177, 2097121, 21), (179, 2097122, 21),
     (209, 2097123, 21), (216, 2097124, 21), (217, 2097125, 21), (227, 2097126, 21),
     (229, 2097127, 21), (230, 2097128, 21), (129, 4194258, 22), (132, 4194259, 22),
     (133, 4194260, 22), (134, 4194261, 22), (136, 4194262, 22), (146, 4194263, 22),
     (154, 4194264, 22), (156, 4194265, 22), (160, 4194266, 22), (163, 4194267, 22),
     (164, 4194268, 22), (169, 4194269, 22), (170, 4194270, 22), (173, 4194271, 22),
     (178, 4194272, 22), (181, 4194273, 22), (185, 4194274, 22), (186, 4194275, 22),
     (187, 4194276, 22), (189, 4194277, 22), (190, 4194278, 22), (196, 4194279, 22),
     (198, 4194280, 22), (228, 4194281, 22), (232, 4194282, 22), (233, 4194283, 22),
     (1, 8388568, 23), (135, 8388569, 23), (137, 8388570, 23), (138, 8388571, 23),
     (139, 8388572, 23), (140, 8388573, 23), (141, 8388574, 23), (143, 8388575, 23),
     (147, 8388576, 23), (149, 8388577, 23), (150, 8388578, 23), (151, 8388579, 23),
     (152, 8388580, 23), (155, 8388581, 23), (157, 8388582, 23), (158, 8388583, 23),
     (165, 8388584, 23), (166, 8388585, 23), (168, 8388586, 23), (174, 8388587, 23),
     (175, 8388588, 23), (180, 8388589, 23), (182, 8388590, 23), (183, 8388591, 23),
     (188, 8388592, 23), (191, 8388593, 23), (197, 8388594, 23), (231, 8388595, 23),
     (239, 8388596, 23), (9, 16777194, 24), (142, 16777195, 24), (144, 16777196, 24),
     (145, 16777197, 24), (148, 16777198, 24), (159, 16777199, 24), (171, 16777200, 24),
     (206, 16777201, 24), (215, 16777202, 24), (225, 16777203, 24), (236, 16777204, 24),
     (237, 16777205, 24), (199, 33554412, 25), (207, 33554413, 25), (234, 33554414, 25),
     (235, 33554415, 25), (192, 67108832, 26), (193, 67108833, 26), (200, 67108834, 26),
     (201, 67108835, 26), (202, 67108836, 26), (205, 67108837, 26), (210, 67108838, 26),
     (213, 67108839, 26), (218, 67108840, 26), (219, 67108841, 26), (238, 67108842, 26),
     (240, 67108843, 26), (242, 67108844, 26), (243, 67108845, 26), (255, 67108846, 26),
     (203, 134217694, 27), (204, 134217695, 27), (211, 134217696, 27), (212, 134217697, 27),
     (214, 134217698, 27), (221, 134217699, 27), (222, 134217700, 27), (223, 134217701, 27),
     (241, 134217702, 27), (244, 134217703, 27), (245, 134217704, 27), (246, 134217705, 27),
     (247, 134217706, 27), (248, 134217707, 27), (250, 134217708, 27), (251, 134217709, 27),
     (252, 134217710, 27), (253, 134217711, 27), (254, 134217712, 27), (2, 268435426, 28),
     (3, 268435427, 28), (4, 268435428, 28), (5, 268435429, 28), (6, 268435430, 28),
     (7, 268435431, 28), (8, 268435432, 28), (11, 268435433, 28), (12, 268435434, 28),
     (14, 268435435, 28), (15, 268435436, 28), (16, 268435437, 28), (17, 268435438, 28),
     (18, 268435439, 28), (19, 268435440, 28), (20, 268435441, 28), (21, 268435442, 28),
     (23, 268435443, 28), (24, 268435444, 28), (25, 268435445, 28), (26, 268435446, 28),
     (27, 268435447, 28), (28, 268435448, 28), (29, 268435449, 28), (30, 268435450, 28),
     (31, 268435451, 28), (127, 268435452, 28), (220, 268435453, 28), (249, 268435454, 28),
     (10, 1073741820, 30), (13, 1073741821, 30), (22, 1073741822, 30), (256, 1073741823, 30)]"

fun bits_of :: "nat \<Rightarrow> nat \<Rightarrow> bool list" where
  "bits_of 0 n = []"
| "bits_of (Suc len) n = bits_of len (n div 2) @ [n mod 2 = 1]"

definition huff_code :: "nat \<Rightarrow> bool list" where
  "huff_code s =
     (case map_of rfc7541_code s of Some (c, len) \<Rightarrow> bits_of len c | None \<Rightarrow> [])"

text \<open>A tree of code words: an inner node carries its number.\<close>

datatype htree = HLeaf nat | HEos | HNode nat htree htree

definition huff_tree :: htree where
  "huff_tree =
     HNode 0 (HNode 1 (HNode 2 (HNode 3 (HNode 4 (HLeaf 48) (HLeaf 49)) (HNode 5 (HLeaf 50) (HLeaf
     97))) (HNode 6 (HNode 7 (HLeaf 99) (HLeaf 101)) (HNode 8 (HLeaf 105) (HLeaf 111)))) (HNode 9
     (HNode 10 (HNode 11 (HLeaf 115) (HLeaf 116)) (HNode 12 (HNode 13 (HLeaf 32) (HLeaf 37))
     (HNode 14 (HLeaf 45) (HLeaf 46)))) (HNode 15 (HNode 16 (HNode 17 (HLeaf 47) (HLeaf 51))
     (HNode 18 (HLeaf 52) (HLeaf 53))) (HNode 19 (HNode 20 (HLeaf 54) (HLeaf 55)) (HNode 21 (HLeaf
     56) (HLeaf 57)))))) (HNode 22 (HNode 23 (HNode 24 (HNode 25 (HNode 26 (HLeaf 61) (HLeaf 65))
     (HNode 27 (HLeaf 95) (HLeaf 98))) (HNode 28 (HNode 29 (HLeaf 100) (HLeaf 102)) (HNode 30
     (HLeaf 103) (HLeaf 104)))) (HNode 31 (HNode 32 (HNode 33 (HLeaf 108) (HLeaf 109)) (HNode 34
     (HLeaf 110) (HLeaf 112))) (HNode 35 (HNode 36 (HLeaf 114) (HLeaf 117)) (HNode 37 (HNode 38
     (HLeaf 58) (HLeaf 66)) (HNode 39 (HLeaf 67) (HLeaf 68)))))) (HNode 40 (HNode 41 (HNode 42
     (HNode 43 (HNode 44 (HLeaf 69) (HLeaf 70)) (HNode 45 (HLeaf 71) (HLeaf 72))) (HNode 46 (HNode
     47 (HLeaf 73) (HLeaf 74)) (HNode 48 (HLeaf 75) (HLeaf 76)))) (HNode 49 (HNode 50 (HNode 51
     (HLeaf 77) (HLeaf 78)) (HNode 52 (HLeaf 79) (HLeaf 80))) (HNode 53 (HNode 54 (HLeaf 81)
     (HLeaf 82)) (HNode 55 (HLeaf 83) (HLeaf 84))))) (HNode 56 (HNode 57 (HNode 58 (HNode 59
     (HLeaf 85) (HLeaf 86)) (HNode 60 (HLeaf 87) (HLeaf 89))) (HNode 61 (HNode 62 (HLeaf 106)
     (HLeaf 107)) (HNode 63 (HLeaf 113) (HLeaf 118)))) (HNode 64 (HNode 65 (HNode 66 (HLeaf 119)
     (HLeaf 120)) (HNode 67 (HLeaf 121) (HLeaf 122))) (HNode 68 (HNode 69 (HNode 70 (HLeaf 38)
     (HLeaf 42)) (HNode 71 (HLeaf 44) (HLeaf 59))) (HNode 72 (HNode 73 (HLeaf 88) (HLeaf 90))
     (HNode 74 (HNode 75 (HNode 76 (HLeaf 33) (HLeaf 34)) (HNode 77 (HLeaf 40) (HLeaf 41))) (HNode
     78 (HNode 79 (HLeaf 63) (HNode 80 (HLeaf 39) (HLeaf 43))) (HNode 81 (HNode 82 (HLeaf 124)
     (HNode 83 (HLeaf 35) (HLeaf 62))) (HNode 84 (HNode 85 (HNode 86 (HLeaf 0) (HLeaf 36)) (HNode
     87 (HLeaf 64) (HLeaf 91))) (HNode 88 (HNode 89 (HLeaf 93) (HLeaf 126)) (HNode 90 (HNode 91
     (HLeaf 94) (HLeaf 125)) (HNode 92 (HNode 93 (HLeaf 60) (HLeaf 96)) (HNode 94 (HLeaf 123)
     (HNode 95 (HNode 96 (HNode 97 (HNode 98 (HLeaf 92) (HLeaf 195)) (HNode 99 (HLeaf 208) (HNode
     100 (HLeaf 128) (HLeaf 130)))) (HNode 101 (HNode 102 (HNode 103 (HLeaf 131) (HLeaf 162))
     (HNode 104 (HLeaf 184) (HLeaf 194))) (HNode 105 (HNode 106 (HLeaf 224) (HLeaf 226)) (HNode
     107 (HNode 108 (HLeaf 153) (HLeaf 161)) (HNode 109 (HLeaf 167) (HLeaf 172)))))) (HNode 110
     (HNode 111 (HNode 112 (HNode 113 (HNode 114 (HLeaf 176) (HLeaf 177)) (HNode 115 (HLeaf 179)
     (HLeaf 209))) (HNode 116 (HNode 117 (HLeaf 216) (HLeaf 217)) (HNode 118 (HLeaf 227) (HLeaf
     229)))) (HNode 119 (HNode 120 (HNode 121 (HLeaf 230) (HNode 122 (HLeaf 129) (HLeaf 132)))
     (HNode 123 (HNode 124 (HLeaf 133) (HLeaf 134)) (HNode 125 (HLeaf 136) (HLeaf 146)))) (HNode
     126 (HNode 127 (HNode 128 (HLeaf 154) (HLeaf 156)) (HNode 129 (HLeaf 160) (HLeaf 163)))
     (HNode 130 (HNode 131 (HLeaf 164) (HLeaf 169)) (HNode 132 (HLeaf 170) (HLeaf 173)))))) (HNode
     133 (HNode 134 (HNode 135 (HNode 136 (HNode 137 (HLeaf 178) (HLeaf 181)) (HNode 138 (HLeaf
     185) (HLeaf 186))) (HNode 139 (HNode 140 (HLeaf 187) (HLeaf 189)) (HNode 141 (HLeaf 190)
     (HLeaf 196)))) (HNode 142 (HNode 143 (HNode 144 (HLeaf 198) (HLeaf 228)) (HNode 145 (HLeaf
     232) (HLeaf 233))) (HNode 146 (HNode 147 (HNode 148 (HLeaf 1) (HLeaf 135)) (HNode 149 (HLeaf
     137) (HLeaf 138))) (HNode 150 (HNode 151 (HLeaf 139) (HLeaf 140)) (HNode 152 (HLeaf 141)
     (HLeaf 143)))))) (HNode 153 (HNode 154 (HNode 155 (HNode 156 (HNode 157 (HLeaf 147) (HLeaf
     149)) (HNode 158 (HLeaf 150) (HLeaf 151))) (HNode 159 (HNode 160 (HLeaf 152) (HLeaf 155))
     (HNode 161 (HLeaf 157) (HLeaf 158)))) (HNode 162 (HNode 163 (HNode 164 (HLeaf 165) (HLeaf
     166)) (HNode 165 (HLeaf 168) (HLeaf 174))) (HNode 166 (HNode 167 (HLeaf 175) (HLeaf 180))
     (HNode 168 (HLeaf 182) (HLeaf 183))))) (HNode 169 (HNode 170 (HNode 171 (HNode 172 (HLeaf
     188) (HLeaf 191)) (HNode 173 (HLeaf 197) (HLeaf 231))) (HNode 174 (HNode 175 (HLeaf 239)
     (HNode 176 (HLeaf 9) (HLeaf 142))) (HNode 177 (HNode 178 (HLeaf 144) (HLeaf 145)) (HNode 179
     (HLeaf 148) (HLeaf 159))))) (HNode 180 (HNode 181 (HNode 182 (HNode 183 (HLeaf 171) (HLeaf
     206)) (HNode 184 (HLeaf 215) (HLeaf 225))) (HNode 185 (HNode 186 (HLeaf 236) (HLeaf 237))
     (HNode 187 (HNode 188 (HLeaf 199) (HLeaf 207)) (HNode 189 (HLeaf 234) (HLeaf 235))))) (HNode
     190 (HNode 191 (HNode 192 (HNode 193 (HNode 194 (HLeaf 192) (HLeaf 193)) (HNode 195 (HLeaf
     200) (HLeaf 201))) (HNode 196 (HNode 197 (HLeaf 202) (HLeaf 205)) (HNode 198 (HLeaf 210)
     (HLeaf 213)))) (HNode 199 (HNode 200 (HNode 201 (HLeaf 218) (HLeaf 219)) (HNode 202 (HLeaf
     238) (HLeaf 240))) (HNode 203 (HNode 204 (HLeaf 242) (HLeaf 243)) (HNode 205 (HLeaf 255)
     (HNode 206 (HLeaf 203) (HLeaf 204)))))) (HNode 207 (HNode 208 (HNode 209 (HNode 210 (HNode
     211 (HLeaf 211) (HLeaf 212)) (HNode 212 (HLeaf 214) (HLeaf 221))) (HNode 213 (HNode 214
     (HLeaf 222) (HLeaf 223)) (HNode 215 (HLeaf 241) (HLeaf 244)))) (HNode 216 (HNode 217 (HNode
     218 (HLeaf 245) (HLeaf 246)) (HNode 219 (HLeaf 247) (HLeaf 248))) (HNode 220 (HNode 221
     (HLeaf 250) (HLeaf 251)) (HNode 222 (HLeaf 252) (HLeaf 253))))) (HNode 223 (HNode 224 (HNode
     225 (HNode 226 (HLeaf 254) (HNode 227 (HLeaf 2) (HLeaf 3))) (HNode 228 (HNode 229 (HLeaf 4)
     (HLeaf 5)) (HNode 230 (HLeaf 6) (HLeaf 7)))) (HNode 231 (HNode 232 (HNode 233 (HLeaf 8)
     (HLeaf 11)) (HNode 234 (HLeaf 12) (HLeaf 14))) (HNode 235 (HNode 236 (HLeaf 15) (HLeaf 16))
     (HNode 237 (HLeaf 17) (HLeaf 18))))) (HNode 238 (HNode 239 (HNode 240 (HNode 241 (HLeaf 19)
     (HLeaf 20)) (HNode 242 (HLeaf 21) (HLeaf 23))) (HNode 243 (HNode 244 (HLeaf 24) (HLeaf 25))
     (HNode 245 (HLeaf 26) (HLeaf 27)))) (HNode 246 (HNode 247 (HNode 248 (HLeaf 28) (HLeaf 29))
     (HNode 249 (HLeaf 30) (HLeaf 31))) (HNode 250 (HNode 251 (HLeaf 127) (HLeaf 220)) (HNode 252
     (HLeaf 249) (HNode 253 (HNode 254 (HLeaf 10) (HLeaf 13)) (HNode 255 (HLeaf 22)
     HEos)))))))))))))))))))))))))))))"

text \<open>The code words of the leaves of a tree: symbol, code word as a number, length.\<close>

fun leaf_codes :: "nat \<Rightarrow> nat \<Rightarrow> htree \<Rightarrow> (nat \<times> nat \<times> nat) list" where
  "leaf_codes v n (HNode k l r) =
     leaf_codes (2 * v) (Suc n) l @ leaf_codes (2 * v + 1) (Suc n) r"
| "leaf_codes v n (HLeaf s) = [(s, v, n)]"
| "leaf_codes v n HEos = [(256, v, n)]"

text \<open>The walk: one bit moves to a child; a leaf gives its symbol and goes back to the root.\<close>

fun hstep :: "htree \<Rightarrow> htree \<Rightarrow> bool \<Rightarrow> nat list \<times> htree" where
  "hstep root (HNode n l r) b =
     (case (if b then r else l) of HLeaf s \<Rightarrow> ([s], root) | t \<Rightarrow> ([], t))"
| "hstep root t b = ([], t)"

fun walk :: "htree \<Rightarrow> htree \<Rightarrow> bool list \<Rightarrow> nat list \<times> htree" where
  "walk root t [] = ([], t)"
| "walk root t (b # bs) =
     (let (e, t1) = hstep root t b; (es, t2) = walk root t1 bs in (e @ es, t2))"

fun label :: "htree \<Rightarrow> nat" where
  "label (HNode n l r) = n"
| "label _ = 256"

fun inner :: "htree \<Rightarrow> htree list" where
  "inner (HNode n l r) = HNode n l r # inner l @ inner r"
| "inner _ = []"

text \<open>
  The states in which RFC 7541 lets a string end: at most seven bits, all ones, since the last
  symbol.
\<close>

definition huff_accepting :: "nat list" where
  "huff_accepting = [0, 22, 40, 56, 64, 68, 72, 74]"

text \<open>The 4-bit walks from a node, in the order of the nibble: the symbols given, the state left.\<close>

fun prune :: "nat \<Rightarrow> htree \<Rightarrow> htree" where
  "prune d (HNode n l r) =
     (if d = 0 then HNode n HEos HEos else HNode n (prune (d - 1) l) (prune (d - 1) r))"
| "prune d t = t"

fun cells :: "htree \<Rightarrow> nat \<Rightarrow> nat list \<Rightarrow> htree \<Rightarrow> (nat list \<times> nat) list" where
  "cells rt 0 es t = [(es, label t)]"
| "cells rt (Suc d) es t =
     (let (e0, t0) = hstep rt t False; (e1, t1) = hstep rt t True
      in cells rt d (es @ e0) t0 @ cells rt d (es @ e1) t1)"

fun entry_ok :: "nat list \<times> nat \<Rightarrow> nghttp2_huff_decode \<Rightarrow> bool" where
  "entry_ok (es, n) (HD f fl s) \<longleftrightarrow> f = n \<and>
     (case es of
        [] \<Rightarrow> s = 0 \<and> fl = (if n \<in> set huff_accepting then 1 else 0)
      | x # xs \<Rightarrow> xs = [] \<and> s = x \<and> fl = (if n \<in> set huff_accepting then 3 else 2))"

section \<open>Bits\<close>

definition bits_val :: "bool list \<Rightarrow> nat" where
  "bits_val = foldl (\<lambda>n b. 2 * n + of_bool b) 0"

lemma bits_val_snoc [simp]: "bits_val (bs @ [b]) = 2 * bits_val bs + of_bool b"
  by (simp add: bits_val_def)

lemma bits_val_Nil [simp]: "bits_val [] = 0"
  by (simp add: bits_val_def)

lemma length_bits_of [simp]: "length (bits_of k n) = k"
  by (induction k arbitrary: n) auto

lemma bits_of_val [simp]: "bits_of (length bs) (bits_val bs) = bs"
  by (induction bs rule: rev_induct) auto

lemma bits_val_less: "bits_val bs < 2 ^ length bs"
  by (induction bs rule: rev_induct) auto

lemma bits_val_Cons: "bits_val (b # bs) = of_bool b * 2 ^ length bs + bits_val bs"
  by (induction bs rule: rev_induct) (simp_all add: append_Cons [symmetric] algebra_simps
      del: append_Cons, simp add: bits_val_def)

lemma bits_of_append: "bits_of (j + k) n = bits_of j (n div 2 ^ k) @ bits_of k n"
  by (induction k arbitrary: n) (auto simp: div_mult2_eq)

lemma bits_of_mod: "bits_of k (n mod 2 ^ k) = bits_of k n"
proof (induction k arbitrary: n)
  case (Suc k)
  have "n mod 2 ^ Suc k div 2 = n div 2 mod 2 ^ k"
    by (simp add: mod_mult2_eq)
  moreover have "n mod 2 ^ Suc k mod 2 = n mod 2"
    by (simp add: mod_mod_cancel)
  ultimately show ?case
    using Suc [of "n div 2"] by simp
qed simp

lemma bits_of_Cons: "bits_of (Suc k) n = (n div 2 ^ k mod 2 = 1) # bits_of k n"
  using bits_of_append [of 1 k n] by simp

section \<open>Walks\<close>

lemma walk_append:
  "walk rt t (as @ bs) = (let (es, t1) = walk rt t as; (fs, t2) = walk rt t1 bs in (es @ fs, t2))"
  by (induction as arbitrary: t) (auto simp: Let_def split: prod.splits)

fun follow :: "htree \<Rightarrow> bool list \<Rightarrow> htree" where
  "follow t [] = t"
| "follow (HNode n l r) (b # bs) = follow (if b then r else l) bs"
| "follow t (b # bs) = HEos"

lemma leaf_codes_follow:
  "(s, v, n) \<in> set (leaf_codes a k t) \<Longrightarrow>
     \<exists>p. n = k + length p \<and> v = a * 2 ^ length p + bits_val p
       \<and> (follow t p = HLeaf s \<or> s = 256 \<and> follow t p = HEos)"
proof (induction a k t rule: leaf_codes.induct)
  case (1 a k m l r)
  from 1(3) consider
      "(s, v, n) \<in> set (leaf_codes (2 * a) (Suc k) l)"
    | "(s, v, n) \<in> set (leaf_codes (2 * a + 1) (Suc k) r)" by auto
  then show ?case
  proof cases
    case 1
    with 1(1) obtain p where "n = Suc k + length p" "v = 2 * a * 2 ^ length p + bits_val p"
      "follow l p = HLeaf s \<or> s = 256 \<and> follow l p = HEos"
      using "1.IH"(1) by blast
    then show ?thesis by (intro exI [of _ "False # p"]) (auto simp: bits_val_Cons)
  next
    case 2
    then obtain p where "n = Suc k + length p" "v = (2 * a + 1) * 2 ^ length p + bits_val p"
      "follow r p = HLeaf s \<or> s = 256 \<and> follow r p = HEos"
      using "1.IH"(2) by blast
    then show ?thesis
      by (intro exI [of _ "True # p"]) (auto simp: bits_val_Cons algebra_simps)
  qed
qed (auto intro!: exI [of _ "[]"])

lemma walk_follow:
  "follow t p = HLeaf s \<Longrightarrow> (\<And>x. t \<noteq> HLeaf x) \<Longrightarrow> walk rt t p = ([s], rt)"
proof (induction t p rule: follow.induct)
  case (2 n l r b bs)
  show ?case
  proof (cases "if b then r else l")
    case (HLeaf x)
    with 2(2) have "bs = [] \<and> x = s" by (cases bs) auto
    then show ?thesis using HLeaf by simp
  qed (use 2 in \<open>auto split: if_splits\<close>)
qed auto

text \<open>Looking only a few levels deep into the tree does not change a short walk.\<close>

lemma walk_prune:
  "length bs \<le> d \<Longrightarrow> d \<le> Suc D \<Longrightarrow> (\<And>x. t \<noteq> HLeaf x) \<Longrightarrow> (\<And>x. rt \<noteq> HLeaf x) \<Longrightarrow>
     fst (walk (prune D rt) (prune d t) bs) = fst (walk rt t bs) \<and>
     label (snd (walk (prune D rt) (prune d t) bs)) = label (snd (walk rt t bs))"
proof (induction bs arbitrary: d t)
  case Nil
  then show ?case by (cases t) auto
next
  case (Cons b bs)
  from Cons.prems obtain d' where d: "d = Suc d'" by (cases d) auto
  show ?case
  proof (cases t)
    case (HNode n l r)
    let ?c = "if b then r else l"
    show ?thesis
    proof (cases ?c)
      case (HLeaf x)
      then have "prune d' ?c = HLeaf x" by simp
      then show ?thesis
        using Cons.IH [of D rt] Cons.prems d HNode HLeaf
        by (auto simp: Let_def split: prod.splits if_splits)
    next
      case HEos
      then show ?thesis
        using Cons.IH [of d' HEos] Cons.prems d HNode
        by (auto simp: Let_def split: prod.splits if_splits)
    next
      case (HNode n' l' r')
      then show ?thesis
        using Cons.IH [of d' ?c] Cons.prems d \<open>t = HNode n l r\<close>
        by (auto simp: Let_def split: prod.splits if_splits)
    qed
  next
    case HEos
    then show ?thesis using Cons.IH [of d' HEos] Cons.prems d by (auto simp: Let_def split: prod.splits)
  qed (use Cons in auto)
qed

lemma length_cells [simp]: "length (cells rt d es t) = 2 ^ d"
  by (induction d arbitrary: es t) (auto simp: Let_def split: prod.splits)

lemma cells_nth:
  "nb < 2 ^ d \<Longrightarrow> cells rt d es t ! nb =
     (es @ fst (walk rt t (bits_of d nb)), label (snd (walk rt t (bits_of d nb))))"
proof (induction d arbitrary: nb es t)
  case (Suc d)
  obtain e0 t0 where s0: "hstep rt t False = (e0, t0)" by (cases "hstep rt t False")
  obtain e1 t1 where s1: "hstep rt t True = (e1, t1)" by (cases "hstep rt t True")
  show ?case
  proof (cases "nb < 2 ^ d")
    case True
    then show ?thesis
      using Suc.IH [of nb "es @ e0" t0] s0 s1
      by (simp add: nth_append bits_of_Cons Let_def del: bits_of.simps(2) split: prod.splits)
  next
    case False
    then have n: "nb - 2 ^ d < 2 ^ d" "nb = 2 ^ d + (nb - 2 ^ d)" using Suc.prems by auto
    then have "nb div 2 ^ d = 1" by (simp add: div_nat_eqI)
    moreover have "bits_of d nb = bits_of d (nb - 2 ^ d)"
      by (subst (1 2) bits_of_mod [symmetric]) (use n in \<open>simp add: le_mod_geq\<close>)
    ultimately show ?thesis
      using Suc.IH [of "nb - 2 ^ d" "es @ e1" t1] s0 s1 n False
      by (simp add: nth_append bits_of_Cons Let_def del: bits_of.simps(2) split: prod.splits)
  qed
qed simp

section \<open>The table of the source\<close>

text \<open>The check of all 4112 entries, in three parts.\<close>

definition huff_cells :: "htree \<Rightarrow> (nat list \<times> nat) list" where
  "huff_cells t = cells (prune 3 huff_tree) 4 [] (prune 4 t)"

definition rows_ok :: "htree list \<Rightarrow> nghttp2_huff_decode list list \<Rightarrow> bool" where
  "rows_ok ts rows \<longleftrightarrow> list_all2 (list_all2 entry_ok) (map huff_cells ts) rows"

lemma rows_ok_split: "rows_ok (take n ts) (take n rows) \<Longrightarrow> rows_ok (drop n ts) (drop n rows) \<Longrightarrow> rows_ok ts rows"
  unfolding rows_ok_def
  by (subst append_take_drop_id [of n rows, symmetric],
      subst append_take_drop_id [of n ts, symmetric], subst map_append, rule list_all2_appendI)

lemma huff_rows_1: "rows_ok (take 88 (inner huff_tree @ [HEos])) (take 88 huff_decode_table)"
  by code_simp

lemma huff_rows_2:
  "rows_ok (take 88 (drop 88 (inner huff_tree @ [HEos]))) (take 88 (drop 88 huff_decode_table))"
  by code_simp

lemma huff_rows_3:
  "rows_ok (drop 88 (drop 88 (inner huff_tree @ [HEos]))) (drop 88 (drop 88 huff_decode_table))"
  by code_simp

lemma huff_table_rows: "rows_ok (inner huff_tree @ [HEos]) huff_decode_table"
  by (rule rows_ok_split [OF huff_rows_1 rows_ok_split [OF huff_rows_2 huff_rows_3]])

lemma huff_labels: "map label (inner huff_tree @ [HEos]) = [0..<257]"
  unfolding huff_tree_def by (simp add: upt_rec)

lemma huff_codes: "leaf_codes 0 0 huff_tree = rfc7541_code"
  unfolding huff_tree_def rfc7541_code_def by simp

definition huff_nodes :: "htree set" where
  "huff_nodes = set (inner huff_tree @ [HEos])"

lemma huff_root [simp]: "huff_tree \<in> huff_nodes" "label huff_tree = 0" "huff_tree \<noteq> HLeaf x"
  by (simp_all add: huff_nodes_def huff_tree_def)

lemma inner_closed:
  "HNode n l r \<in> set (inner t) \<Longrightarrow> c = l \<or> c = r \<Longrightarrow> c = HNode n' l' r' \<Longrightarrow> c \<in> set (inner t)"
  by (induction t rule: inner.induct) auto

lemma inner_HNode: "t \<in> set (inner u) \<Longrightarrow> \<exists>n l r. t = HNode n l r"
  by (induction u rule: inner.induct) auto

lemma huff_nodes_not_leaf: "t \<in> huff_nodes \<Longrightarrow> t \<noteq> HLeaf x"
  using inner_HNode by (auto simp: huff_nodes_def)

lemma hstep_nodes: "t \<in> huff_nodes \<Longrightarrow> snd (hstep huff_tree t b) \<in> huff_nodes"
proof (cases t)
  case (HNode n l r)
  assume t: "t \<in> huff_nodes"
  let ?c = "if b then r else l"
  show ?thesis
  proof (cases ?c)
    case c: (HNode n' l' r')
    have "?c \<in> set (inner huff_tree)"
      using t HNode by (intro inner_closed [OF _ _ c]) (auto simp: huff_nodes_def)
    with HNode c show ?thesis by (auto simp: huff_nodes_def)
  next
    case HLeaf
    with HNode show ?thesis using huff_root(1) by simp
  next
    case HEos
    with HNode show ?thesis by (simp add: huff_nodes_def)
  qed
qed (auto simp: huff_nodes_def)

lemma walk_nodes: "t \<in> huff_nodes \<Longrightarrow> snd (walk huff_tree t bs) \<in> huff_nodes"
proof (induction bs arbitrary: t)
  case (Cons b bs)
  show ?case
    using hstep_nodes [OF Cons.prems, of b] Cons.IH [of "snd (hstep huff_tree t b)"]
    by (cases "hstep huff_tree t b", cases "walk huff_tree (snd (hstep huff_tree t b)) bs") auto
qed simp

lemma node_index:
  assumes "t \<in> huff_nodes"
  shows "label t < 257 \<and> (inner huff_tree @ [HEos]) ! label t = t"
proof -
  let ?xs = "inner huff_tree @ [HEos]"
  from assms obtain i where i: "i < length ?xs" "?xs ! i = t"
    unfolding huff_nodes_def in_set_conv_nth by blast
  have len: "length ?xs = 257" using arg_cong [OF huff_labels, of length] by simp
  have "label t = map label ?xs ! i" using i by (simp only: nth_map)
  also have "\<dots> = i" using i len by (simp only: huff_labels) simp
  finally show ?thesis using i len by simp
qed

lemma huff_entry:
  assumes "t \<in> huff_nodes" and "nb < 16"
  shows "entry_ok (fst (walk huff_tree t (bits_of 4 nb)), label (snd (walk huff_tree t (bits_of 4 nb))))
           (huff_decode_table ! label t ! nb)"
proof -
  let ?c = "cells (prune 3 huff_tree) 4 [] (prune 4 t)"
  from node_index [OF assms(1)] list_all2_nthD [OF huff_table_rows [unfolded rows_ok_def], of "label t"]
  have "list_all2 entry_ok ?c (huff_decode_table ! label t)"
    using arg_cong [OF huff_labels, of length] by (simp add: huff_cells_def del: map_append)
  then have "entry_ok (?c ! nb) (huff_decode_table ! label t ! nb)"
    using assms(2) by (auto dest: list_all2_nthD [of _ _ _ nb])
  moreover have "fst (walk (prune 3 huff_tree) (prune 4 t) (bits_of 4 nb)) = fst (walk huff_tree t (bits_of 4 nb))
      \<and> label (snd (walk (prune 3 huff_tree) (prune 4 t) (bits_of 4 nb))) = label (snd (walk huff_tree t (bits_of 4 nb)))"
    using assms(1) by (intro walk_prune) (auto dest: huff_nodes_not_leaf)
  ultimately show ?thesis
    using assms(2) by (simp add: cells_nth)
qed

section \<open>The decoder is the walk\<close>

definition byte_bits :: "bytes \<Rightarrow> bool list" where
  "byte_bits src = concat (map (\<lambda>b. bits_of 8 (unat b)) src)"

abbreviation huff_walk :: "htree \<Rightarrow> bool list \<Rightarrow> nat list \<times> htree" where
  "huff_walk \<equiv> walk huff_tree"

lemma huff_nibble_walk:
  assumes "t \<in> huff_nodes" and "nb < 16" and "huff_walk t (bits_of 4 nb) = (es, t')"
    and "length out < dest_size"
  shows "huff_nibble dest_size (label t, out) nb =
     (if length out + length es < dest_size then Some (label t', out @ map word_of_nat es) else None)"
proof -
  obtain f fl s where e: "huff_decode_table ! label t ! nb = HD f fl s"
    by (cases "huff_decode_table ! label t ! nb")
  have "entry_ok (es, label t') (HD f fl s)"
    using huff_entry [OF assms(1,2)] assms(3) e by simp
  then show ?thesis
    using e assms(4)
    by (cases es) (auto simp: huff_nibble_def Let_def NGHTTP2_HUFF_SYM_def split: if_splits)
qed

lemma unat_high_nibble: "unat (drop_bit 4 (b :: u8)) = unat b div 16"
  by (simp add: unat_drop_bit_eq drop_bit_eq_div unat_div)

lemma unat_low_nibble: "unat ((b :: u8) AND 0x0f) = unat b mod 16"
proof -
  have "b AND 0x0f = take_bit 4 b" by (simp add: take_bit_eq_mask mask_eq_exp_minus_1)
  then show ?thesis by (simp add: take_bit_eq_mod unat_mod)
qed

lemma bits_of_8: "bits_of 8 (unat (b :: u8)) = bits_of 4 (unat b div 16) @ bits_of 4 (unat b mod 16)"
  using bits_of_append [of 4 4 "unat b"] bits_of_mod [of 4 "unat b"] by simp

lemma huff_loop_walk:
  "t \<in> huff_nodes \<Longrightarrow> length out < dest_size \<Longrightarrow> huff_walk t (byte_bits src) = (es, t') \<Longrightarrow>
     huff_loop dest_size (label t, out) src =
       (if length out + length es < dest_size then Some (label t', out @ map word_of_nat es) else None)"
proof (induction src arbitrary: t out es)
  case (Cons b src)
  obtain e1 t1 where w1: "huff_walk t (bits_of 4 (unat b div 16)) = (e1, t1)" by fastforce
  obtain e2 t2 where w2: "huff_walk t1 (bits_of 4 (unat b mod 16)) = (e2, t2)" by fastforce
  obtain e3 where w3: "huff_walk t2 (byte_bits src) = (e3, t')" and es: "es = e1 @ e2 @ e3"
    using Cons.prems(3) w1 w2
    by (auto simp: byte_bits_def bits_of_8 walk_append split: prod.splits)
  have t1: "t1 \<in> huff_nodes" using walk_nodes [OF Cons.prems(1), of "bits_of 4 (unat b div 16)"] w1 by simp
  have t2: "t2 \<in> huff_nodes" using walk_nodes [OF t1, of "bits_of 4 (unat b mod 16)"] w2 by simp
  have div: "unat b div 16 < 16" using unat_u8_less [of b] by linarith
  note n1 = huff_nibble_walk [OF Cons.prems(1) div w1 Cons.prems(2)]
  show ?case
  proof (cases "length out + length e1 < dest_size")
    case True
    then have l1: "length (out @ map word_of_nat e1 :: bytes) < dest_size" by simp
    note n2 = huff_nibble_walk [OF t1 _ w2 l1, simplified]
    show ?thesis
    proof (cases "length out + length e1 + length e2 < dest_size")
      case True
      then show ?thesis
        using Cons.IH [OF t2 _ w3, of "out @ map word_of_nat (e1 @ e2)"] n1 n2 es
        by (simp add: unat_high_nibble unat_low_nibble add.assoc)
    qed (use n1 n2 es in \<open>simp add: unat_high_nibble unat_low_nibble\<close>)
  qed (use n1 es in \<open>simp add: unat_high_nibble\<close>)
qed (auto simp: byte_bits_def)

section \<open>Encoding\<close>

text \<open>Every symbol is listed: the set of the symbols listed, as a bit mask, is all ones.\<close>

lemma bit_fold_or: "bit (fold (\<lambda>s m. m OR 2 ^ s) xs (m :: int)) k \<longleftrightarrow> bit m k \<or> k \<in> set xs"
  by (induction xs arbitrary: m) (auto simp: bit_or_iff bit_exp_iff)

lemma rfc7541_symbols: "fold (\<lambda>s m. m OR 2 ^ s) (map fst rfc7541_code) (0 :: int) = 2 ^ 257 - 1"
  unfolding rfc7541_code_def by simp

lemma rfc7541_covers: "s < 257 \<Longrightarrow> \<exists>c len. map_of rfc7541_code s = Some (c, len)"
proof -
  assume "s < 257"
  then have "bit (fold (\<lambda>s m. m OR 2 ^ s) (map fst rfc7541_code) (0 :: int)) s"
    unfolding rfc7541_symbols by (simp only: mask_eq_exp_minus_1 [symmetric] bit_mask_iff possible_bit_int)
  then have "s \<in> fst ` set rfc7541_code" by (simp add: bit_fold_or)
  then have "map_of rfc7541_code s \<noteq> None" by (simp add: map_of_eq_None_iff)
  then show ?thesis by auto
qed

lemma walk_huff_code: "s < 256 \<Longrightarrow> huff_walk huff_tree (huff_code s) = ([s], huff_tree)"
proof -
  assume s: "s < 256"
  then obtain c len where m: "map_of rfc7541_code s = Some (c, len)"
    using rfc7541_covers [of s] by auto
  then have "(s, c, len) \<in> set (leaf_codes 0 0 huff_tree)" by (auto simp: huff_codes dest: map_of_SomeD)
  from leaf_codes_follow [OF this] s obtain p where
    "len = length p" "c = bits_val p" "follow huff_tree p = HLeaf s" by auto
  then show ?thesis using m by (auto simp: huff_code_def intro: walk_follow)
qed

definition huff_bits :: "bytes \<Rightarrow> bool list" where
  "huff_bits s = concat (map (\<lambda>c. huff_code (unat c)) s)"

lemma walk_huff_bits: "huff_walk huff_tree (huff_bits s) = (map unat s, huff_tree)"
proof (induction s)
  case (Cons c s)
  then show ?case
    using walk_huff_code [OF unat_u8_less, of c] by (simp add: huff_bits_def walk_append)
qed (simp add: huff_bits_def)

text \<open>An encoder as in RFC 7541, section 5.2: the code words, then ones up to a whole byte.\<close>

function pack_bits :: "bool list \<Rightarrow> bytes" where
  "pack_bits bs =
     (if bs = [] then []
      else word_of_nat (bits_val (take 8 (bs @ replicate 7 True))) # pack_bits (drop 8 bs))"
  by pat_completeness auto
termination by (relation "measure length") auto

declare pack_bits.simps [simp del]

definition huff_encode :: "bytes \<Rightarrow> bytes" where
  "huff_encode s = pack_bits (huff_bits s)"

lemma byte_bits_pack: "\<exists>k < 8. byte_bits (pack_bits bs) = bs @ replicate k True"
proof (induction bs rule: pack_bits.induct)
  case (1 bs)
  show ?case
  proof (cases "bs = []")
    case False
    let ?c = "take 8 (bs @ replicate 7 True)"
    have len: "length ?c = 8" using False by (cases bs) auto
    have "bits_val ?c < 256" using bits_val_less [of ?c] unfolding len by simp
    with len have c: "bits_of 8 (unat (word_of_nat (bits_val ?c) :: u8)) = ?c"
      using len bits_of_val [of ?c] by (simp add: unat_of_nat)
    obtain k where k: "k < 8" "byte_bits (pack_bits (drop 8 bs)) = drop 8 bs @ replicate k True"
      using 1 False by blast
    have *: "byte_bits (pack_bits bs) = ?c @ byte_bits (pack_bits (drop 8 bs))"
      using False c by (subst pack_bits.simps) (simp add: byte_bits_def)
    show ?thesis
    proof (cases "8 \<le> length bs")
      case True
      with * k show ?thesis by auto
    next
      case short: False
      then have "byte_bits (pack_bits (drop 8 bs)) = []"
        by (simp add: pack_bits.simps byte_bits_def)
      with * False short show ?thesis
        by (intro exI [of _ "8 - length bs"]) (cases bs, auto simp: min_def)
    qed
  qed (simp add: pack_bits.simps byte_bits_def)
qed

lemma fst_walk_append:
  "fst (walk rt t (as @ bs)) = fst (walk rt t as) @ fst (walk rt (snd (walk rt t as)) bs)"
  by (simp add: walk_append Let_def split: prod.split)

lemma walk_ones: "k < 8 \<Longrightarrow> fst (huff_walk huff_tree (replicate k True)) = []"
proof -
  assume "k < 8"
  have "list_all (\<lambda>k. fst (huff_walk huff_tree (replicate k True)) = []) [0..<8]" by code_simp
  with \<open>k < 8\<close> show ?thesis by (simp add: list_all_iff)
qed

lemma huff_bits_Nil [simp]: "huff_encode s = [] \<longleftrightarrow> s = []"
proof -
  have "huff_code (unat c) \<noteq> []" for c :: u8
    using walk_huff_code [OF unat_u8_less, of c] by auto
  then show ?thesis by (auto simp: huff_encode_def pack_bits.simps huff_bits_def)
qed

lemma length_byte_bits [simp]: "length (byte_bits src) = 8 * length src"
  by (induction src) (simp_all add: byte_bits_def)

lemma decode_huff_encode:
  assumes "s \<noteq> []" and "length s < dest_size"
  shows "http2_huffman_decode (huff_encode s) dest_size = Some s"
proof -
  obtain k where k: "k < 8" "byte_bits (huff_encode s) = huff_bits s @ replicate k True"
    using byte_bits_pack [of "huff_bits s"] by (auto simp: huff_encode_def)
  then have "fst (huff_walk huff_tree (byte_bits (huff_encode s))) = map unat s"
    using walk_ones by (simp add: fst_walk_append walk_huff_bits)
  with huff_loop_walk [OF huff_root(1), of "[]" dest_size "huff_encode s"] assms show ?thesis
    by (cases "huff_walk huff_tree (byte_bits (huff_encode s))")
      (auto simp: http2_huffman_decode_def comp_def)
qed

lemma length_huff_encode: "8 * length (huff_encode s) \<le> 30 * length s + 7"
proof -
  have "list_all (\<lambda>(_, _, len). len \<le> 30) rfc7541_code"
    unfolding rfc7541_code_def by simp
  then have "length (huff_code c) \<le> 30" for c
    by (auto simp: huff_code_def list_all_iff dest!: map_of_SomeD split: option.split)
  then have "length (huff_bits s) \<le> 30 * length s"
    by (induction s) (auto simp: huff_bits_def intro: add_mono)
  moreover obtain k where k: "k < 8" "byte_bits (huff_encode s) = huff_bits s @ replicate k True"
    using byte_bits_pack [of "huff_bits s"] by (auto simp: huff_encode_def)
  from length_byte_bits [of "huff_encode s", unfolded k(2)]
  have "8 * length (huff_encode s) = length (huff_bits s) + k" by simp
  ultimately show ?thesis using k(1) by linarith
qed

section \<open>Properties\<close>

text \<open>C4: \<open>http2_huffman_decode\<close>, with its table of 257 times 16 entries, computes the bit-by-bit
  walk over the code tree of RFC 7541, Appendix B, for every input; it fails only on an empty
  input, an empty buffer, or when the output with its terminator does not fit.\<close>

theorem http2_huffman_decode_is_walk:
  "http2_huffman_decode src dest_size =
     (if src = [] \<or> dest_size = 0 then None
      else let es = fst (walk huff_tree huff_tree (byte_bits src))
           in if length es < dest_size then Some (map word_of_nat es) else None)"
  using huff_loop_walk [OF huff_root(1), of "[]" dest_size src]
  by (cases "walk huff_tree huff_tree (byte_bits src)")
    (auto simp: http2_huffman_decode_def Let_def)

text \<open>C5: decoding what RFC 7541 encodes gives back the string, for every non-empty string that
  fits in the buffer.\<close>

theorem http2_huffman_roundtrip:
  assumes "s \<noteq> []" and "length s < dest_size"
  shows "http2_huffman_decode (huff_encode s) dest_size = Some s"
  using assms by (rule decode_huff_encode)

theorem http2_huffman_roundtrip_witness:
  "http2_huffman_decode (huff_encode [119, 119, 119, 46, 104]) 16 = Some [119, 119, 119, 46, 104]"
  by (rule http2_huffman_roundtrip) simp_all

lemma huff_table_shape: "length huff_decode_table = 257" "row \<in> set huff_decode_table \<Longrightarrow> length row = 16"
proof -
  have rows: "list_all2 (list_all2 entry_ok) (map huff_cells (inner huff_tree @ [HEos])) huff_decode_table"
    using huff_table_rows by (simp add: rows_ok_def)
  from list_all2_lengthD [OF rows] arg_cong [OF huff_labels, of length]
  show "length huff_decode_table = 257" by simp
  assume "row \<in> set huff_decode_table"
  then obtain i where i: "i < length huff_decode_table" "row = huff_decode_table ! i"
    by (auto simp: in_set_conv_nth)
  with list_all2_lengthD [OF rows] list_all2_nthD [OF rows, of i]
  have "list_all2 entry_ok (huff_cells ((inner huff_tree @ [HEos]) ! i)) row"
    by (simp del: map_append)
  then show "length row = 16" by (auto dest!: list_all2_lengthD simp: huff_cells_def)
qed

lemma length_walk: "length (fst (walk rt t bs)) \<le> length bs"
proof (induction bs arbitrary: t)
  case (Cons b bs)
  have "length (fst (hstep rt t b)) \<le> 1" by (cases t) (auto split: htree.splits)
  with Cons [of "snd (hstep rt t b)"] show ?case
    by (simp add: Let_def split: prod.split)
       (metis (no_types, lifting) One_nat_def add_le_mono fst_conv plus_1_eq_Suc snd_conv)
qed simp

text \<open>C6: the two look-ups of the loop stay inside the table whatever the input: the state reached
  is always one of the 257 rows, a row has sixteen entries, one for each nibble, and the output
  never passes \<open>dest_size - 1\<close> bytes.\<close>

theorem huff_loop_in_bounds:
  assumes "0 < dest_size" and "huff_loop dest_size (0, []) src = Some (state, out)"
  shows "state < length huff_decode_table \<and> length (huff_decode_table ! state) = 16
       \<and> length out < dest_size"
proof -
  obtain es t where w: "huff_walk huff_tree (byte_bits src) = (es, t)" by fastforce
  with walk_nodes [OF huff_root(1), of "byte_bits src"] node_index [of t]
  have "label t < 257" by simp
  moreover have "state = label t \<and> length out < dest_size"
    using huff_loop_walk [OF huff_root(1) _ w, of "[]" dest_size] assms by (auto split: if_splits)
  ultimately show ?thesis
    using huff_table_shape by simp
qed

theorem huff_loop_in_bounds_witness:
  "\<exists>state out. huff_loop 50 (0, []) [0xff, 0xff, 0xff, 0xff] = Some (state, out)
     \<and> state < length huff_decode_table"
proof -
  let ?src = "[0xff, 0xff, 0xff, 0xff] :: bytes"
  obtain es t where w: "huff_walk huff_tree (byte_bits ?src) = (es, t)" by fastforce
  then have "length es \<le> 32" using length_walk [of huff_tree huff_tree "byte_bits ?src"] by simp
  with huff_loop_walk [OF huff_root(1) _ w, of "[]" 50]
  have "huff_loop 50 (0, []) ?src = Some (label t, map word_of_nat es)" by simp
  with huff_loop_in_bounds [of 50 ?src] show ?thesis by auto
qed

text \<open>The decoder never rejects a non-empty input that fits, because the accepted flag of the
  table is not looked at.  RFC 7541, section 5.2, asks for a decoding error when the padding is not
  the beginning of EOS, is longer than seven bits, or when EOS itself occurs: the decoder takes the
  zero-padded byte 0 as the string "0", and four bytes of ones, which hold EOS, as the empty
  string.\<close>

theorem http2_huffman_never_rejects:
  "(\<forall>src dest_size. src \<noteq> [] \<and> 8 * length src < dest_size \<longrightarrow>
      http2_huffman_decode src dest_size \<noteq> None)
   \<and> http2_huffman_decode [0] 16 = Some [48]
   \<and> http2_huffman_decode [0xff, 0xff, 0xff, 0xff] 16 = Some []"
proof (intro conjI allI impI)
  fix src :: bytes and dest_size :: nat
  assume "src \<noteq> [] \<and> 8 * length src < dest_size"
  then show "http2_huffman_decode src dest_size \<noteq> None"
    using length_walk [of huff_tree huff_tree "byte_bits src"]
      huff_loop_walk [OF huff_root(1), of "[]" dest_size src]
    by (cases "huff_walk huff_tree (byte_bits src)") (auto simp: http2_huffman_decode_def)
next
  have "byte_bits [0] = replicate 8 False" by (simp add: byte_bits_def numeral_eq_Suc)
  moreover have "fst (huff_walk huff_tree (replicate 8 False)) = [48]" by code_simp
  ultimately have "fst (huff_walk huff_tree (byte_bits [0])) = [48]" by simp
  then show "http2_huffman_decode [0] 16 = Some [48]"
    using huff_loop_walk [OF huff_root(1), of "[]" 16 "[0]"]
    by (cases "huff_walk huff_tree (byte_bits [0])") (simp add: http2_huffman_decode_def)
next
  have "bits_of 8 255 = replicate 8 True" by code_simp
  then have "byte_bits [0xff, 0xff, 0xff, 0xff] = replicate 32 True"
    by (simp add: byte_bits_def replicate_add [symmetric] del: bits_of.simps)
  moreover have "fst (huff_walk huff_tree (replicate 32 True)) = []" by code_simp
  ultimately have "fst (huff_walk huff_tree (byte_bits [0xff, 0xff, 0xff, 0xff])) = []" by simp
  then show "http2_huffman_decode [0xff, 0xff, 0xff, 0xff] 16 = Some []"
    using huff_loop_walk [OF huff_root(1), of "[]" 16 "[0xff, 0xff, 0xff, 0xff]"]
    by (cases "huff_walk huff_tree (byte_bits [0xff, 0xff, 0xff, 0xff])")
      (simp add: http2_huffman_decode_def)
qed

theorem http2_huffman_never_rejects_witness:
  "http2_huffman_decode [1] 9 \<noteq> None"
  using http2_huffman_never_rejects by auto

end
