(* ===== verification/Hpack_Block.thy ===== *)
theory Hpack_Block
  imports Hpack Huffman_Code
begin

text \<open>
  Whole header blocks.  \<open>field_rep\<close> is a field as RFC 7541, section 6, lets an encoder write it:
  indexed, or literal (added to the table or not), its name an index or a text, its texts plain or
  Huffman coded.  \<open>apply_field\<close> says what the field means for the request and the table;
  parsing the bytes of a list of fields does just that, field by field.
\<close>

datatype name_rep = NameIndex nat | NameText bool string

datatype field_rep = Indexed nat | Literal bool name_rep bool string

definition enc_string :: "bool \<Rightarrow> string \<Rightarrow> bytes" where
  "enc_string huff s =
     (if huff then encode_int 7 0x80 (length (huff_encode (bytes_of s))) @ huff_encode (bytes_of s)
      else encode_int 7 0 (length s) @ bytes_of s)"

fun enc_name :: "nat \<Rightarrow> u8 \<Rightarrow> name_rep \<Rightarrow> bytes" where
  "enc_name N hi (NameIndex i) = encode_int N hi i"
| "enc_name N hi (NameText huff n) = encode_int N hi 0 @ enc_string huff n"

fun enc_field :: "field_rep \<Rightarrow> bytes" where
  "enc_field (Indexed i) = encode_int 7 0x80 i"
| "enc_field (Literal inc n huff v) =
     (if inc then enc_name 6 0x40 n else enc_name 4 0 n) @ enc_string huff v"

definition text_ok :: "nat \<Rightarrow> string \<Rightarrow> bool" where
  "text_ok n s \<longleftrightarrow> s \<noteq> [] \<and> length s < n \<and> CHR 0x00 \<notin> set s"

fun name_ok :: "name_rep \<Rightarrow> bool" where
  "name_ok (NameIndex i) \<longleftrightarrow> 0 < i \<and> i < 2 ^ 32"
| "name_ok (NameText huff n) \<longleftrightarrow> text_ok HPACK_NAME_MAX n"

fun field_ok :: "field_rep \<Rightarrow> bool" where
  "field_ok (Indexed i) \<longleftrightarrow> i < 2 ^ 32"
| "field_ok (Literal inc n huff v) \<longleftrightarrow> name_ok n \<and> text_ok HPACK_VALUE_MAX v"

fun name_text :: "HPACKDynamicTable \<Rightarrow> name_rep \<Rightarrow> string" where
  "name_text dyn (NameIndex i) =
     (case http2_hpack_get_header dyn (word_of_nat i) of
        Some (n, _) \<Rightarrow> c_copy HPACK_NAME_MAX n
      | None \<Rightarrow> [])"
| "name_text dyn (NameText huff n) = n"

fun apply_field ::
  "bool \<Rightarrow> field_rep \<Rightarrow> HPACKDynamicTable \<Rightarrow> RequestHeader \<Rightarrow> int \<times> HPACKDynamicTable \<times> RequestHeader"
where
  "apply_field tp (Indexed i) dyn req =
     (let (status, req') = http2_hpack_indexed_header tp dyn (word_of_nat i) req in (status, dyn, req'))"
| "apply_field tp (Literal inc n huff v) dyn req =
     (let name = name_text dyn n in
      if name = [] then (0, dyn, req)
      else let (status, req') = http2_hpack_literal_header_with_name tp name v req
           in (status, if inc then http2_hpack_dynamic_table_add dyn name v else dyn, req'))"

fun apply_block ::
  "bool \<Rightarrow> field_rep list \<Rightarrow> HPACKDynamicTable \<Rightarrow> RequestHeader \<Rightarrow> int \<times> HPACKDynamicTable \<times> RequestHeader"
where
  "apply_block tp [] dyn req = (0, dyn, req)"
| "apply_block tp (f # fs) dyn req =
     (let (status, dyn', req') = apply_field tp f dyn req
      in if status \<noteq> 0 then (status, dyn', req'\<lparr> rh_error_code := status, rh_is_valid := False \<rparr>)
         else apply_block tp fs dyn' req')"

section \<open>The first byte of an encoded integer\<close>

lemma encode_int_Cons:
  assumes "N < 8"
  obtains x xs where "encode_int N hi n = (hi OR (x AND mask N)) # xs"
proof (cases "n < 2 ^ N - 1")
  case True
  then have "n < 2 ^ N" by linarith
  then have "(word_of_nat n :: u8) AND mask N = word_of_nat n"
    by (simp add: take_bit_eq_mask [symmetric] take_bit_of_nat take_bit_nat_eq_self)
  then show ?thesis using that [of "word_of_nat n" "[]"] True by (simp add: encode_int_def)
next
  case False
  then show ?thesis using that [of "mask N"] by (simp add: encode_int_def)
qed

lemma encode_int_not_Nil [simp]: "encode_int N hi n \<noteq> []"
  by (simp add: encode_int_def)

lemma enc_string_not_Nil [simp]: "enc_string h s \<noteq> []"
  by (simp add: enc_string_def)

lemma enc_name_not_Nil [simp]: "enc_name N hi n \<noteq> []"
  by (cases n) auto

lemma enc_field_not_Nil [simp]: "enc_field f \<noteq> []"
  by (cases f) auto

lemma hd_encode_int:
  "hd (encode_int 7 0x80 n) AND 0x80 \<noteq> 0"
  "hd (encode_int 7 0 n) AND 0x80 = 0"
  "hd (encode_int 6 0x40 n) AND 0x80 = 0"
  "hd (encode_int 6 0x40 n) AND 0xC0 = 0x40"
  "hd (encode_int 4 0 n) AND 0x80 = 0"
  "hd (encode_int 4 0 n) AND 0xC0 = 0"
  "hd (encode_int 4 0 n) AND 0xE0 = 0"
  "hd (encode_int 4 0 n) AND 0xF0 = 0"
proof -
  obtain x xs where "encode_int 7 0x80 n = (0x80 OR (x AND mask 7)) # xs"
    by (rule encode_int_Cons [of 7]) simp
  then show "hd (encode_int 7 0x80 n) AND 0x80 \<noteq> 0"
    by (simp add: bit.conj_disj_distrib2 mask_numeral and.assoc)
  obtain x xs where "encode_int 7 0 n = (0 OR (x AND mask 7)) # xs"
    by (rule encode_int_Cons [of 7]) simp
  then show "hd (encode_int 7 0 n) AND 0x80 = 0"
    by (simp add: mask_numeral and.assoc)
  obtain x xs where "encode_int 6 0x40 n = (0x40 OR (x AND mask 6)) # xs"
    by (rule encode_int_Cons [of 6]) simp
  then show "hd (encode_int 6 0x40 n) AND 0x80 = 0" "hd (encode_int 6 0x40 n) AND 0xC0 = 0x40"
    by (simp_all add: bit.conj_disj_distrib2 mask_numeral and.assoc)
  obtain x xs where "encode_int 4 0 n = (0 OR (x AND mask 4)) # xs"
    by (rule encode_int_Cons [of 4]) simp
  then show "hd (encode_int 4 0 n) AND 0x80 = 0" "hd (encode_int 4 0 n) AND 0xC0 = 0"
    "hd (encode_int 4 0 n) AND 0xE0 = 0" "hd (encode_int 4 0 n) AND 0xF0 = 0"
    by (simp_all add: mask_numeral and.assoc)
qed

lemma mask_7: "(0x7F :: u8) = mask 7" and mask_6: "(0x3F :: u8) = mask 6" and mask_4: "(0x0F :: u8) = mask 4"
  by (simp_all add: mask_numeral)

lemma decode_int_7:
  assumes "n < 2 ^ 32"
  shows "http2_hpack_decode_int (encode_int 7 0x80 n @ r) 0x7F = (word_of_nat n, r)"
    and "http2_hpack_decode_int (encode_int 7 0 n @ r) 0x7F = (word_of_nat n, r)"
  unfolding mask_7 by (rule decode_encode_int; use assms in \<open>simp add: mask_numeral\<close>)+

lemma decode_int_6:
  "n < 2 ^ 32 \<Longrightarrow> http2_hpack_decode_int (encode_int 6 0x40 n @ r) 0x3F = (word_of_nat n, r)"
  unfolding mask_6 by (rule decode_encode_int) (simp_all add: mask_numeral)

lemma decode_int_4:
  "n < 2 ^ 32 \<Longrightarrow> http2_hpack_decode_int (encode_int 4 0 n @ r) 0x0F = (word_of_nat n, r)"
  unfolding mask_4 by (rule decode_encode_int) simp_all

section \<open>Strings and fields\<close>

lemma decode_enc_string:
  assumes "text_ok out_max s" and "out_max \<le> 512"
  shows "http2_hpack_decode_string_buf (enc_string huff s @ r) out_max = (True, Some s, r)"
proof -
  from assms have s: "s \<noteq> []" "length s < out_max" "length s < 512" "cstr s = s"
    by (auto simp: text_ok_def cstr_id)
  have "length (huff_encode (bytes_of s)) < 10240"
    using length_huff_encode [of "bytes_of s"] s(3) by simp
  moreover have "http2_huffman_decode (huff_encode (bytes_of s)) out_max = Some (bytes_of s)"
    using s by (intro decode_huff_encode) (auto simp: bytes_of_def)
  ultimately show ?thesis
    using s
    by (cases huff)
      (simp_all add: http2_hpack_decode_string_buf_def enc_string_def decode_int_7 hd_encode_int
        Let_def unat_of_nat)
qed

lemma parse_literal_enc:
  assumes "name_ok n" and "text_ok HPACK_VALUE_MAX v"
    and "\<And>i r. i < 2 ^ 32 \<Longrightarrow> http2_hpack_decode_int (encode_int N hi i @ r) m = (word_of_nat i, r)"
  shows "parse_literal dyn m (enc_name N hi n @ enc_string huff v @ r) = (name_text dyn n, v, r)"
proof (cases n)
  case (NameIndex i)
  with assms(1) have i: "0 < i" "i < 2 ^ 32" by auto
  then have "(word_of_nat i :: u32) \<noteq> 0"
    by (simp add: word_of_nat_eq_0_iff nat_dvd_not_less)
  then show ?thesis
    using NameIndex i assms(2) decode_enc_string [OF assms(2)]
    by (simp add: parse_literal_def assms(3) Let_def HPACK_VALUE_MAX_def case_prod_unfold split: option.split)
next
  case (NameText h t)
  with assms(1) have "text_ok HPACK_NAME_MAX t" by simp
  from decode_enc_string [OF this] decode_enc_string [OF assms(2)] show ?thesis
    using NameText assms(3) [of 0]
    by (simp add: parse_literal_def Let_def HPACK_NAME_MAX_def HPACK_VALUE_MAX_def)
qed

lemma hd_enc_name:
  "hd (enc_name 6 0x40 n) AND 0x80 = 0" "hd (enc_name 6 0x40 n) AND 0xC0 = 0x40"
  "hd (enc_name 4 0 n) AND 0x80 = 0" "hd (enc_name 4 0 n) AND 0xC0 = 0"
  "hd (enc_name 4 0 n) AND 0xE0 = 0" "hd (enc_name 4 0 n) AND 0xF0 = 0"
  by (cases n; simp add: hd_encode_int)+

lemma parse_step_enc_field:
  assumes "field_ok f"
  shows "parse_header_step tp (enc_field f @ r) dyn req =
     (let (status, dyn', req') = apply_field tp f dyn req in (status, r, dyn', req'))"
proof (cases f)
  case (Indexed i)
  with assms show ?thesis
    by (simp add: parse_header_step_def Let_def hd_encode_int decode_int_7 case_prod_unfold)
next
  case (Literal inc n huff v)
  with assms have ok: "name_ok n" "text_ok HPACK_VALUE_MAX v" "v \<noteq> []" by (auto simp: text_ok_def)
  have "parse_literal dyn 0x3F (enc_name 6 0x40 n @ enc_string huff v @ r) = (name_text dyn n, v, r)"
    by (rule parse_literal_enc [OF ok(1,2)]) (rule decode_int_6)
  moreover have "parse_literal dyn 0x0F (enc_name 4 0 n @ enc_string huff v @ r) = (name_text dyn n, v, r)"
    by (rule parse_literal_enc [OF ok(1,2)]) (rule decode_int_4)
  ultimately show ?thesis
    using Literal ok(3) by (simp add: parse_header_step_def Let_def hd_enc_name case_prod_unfold)
qed

section \<open>Properties\<close>



text \<open>A literal field to be indexed whose value is empty changes neither the request nor the
  dynamic table, although RFC 7541, section 6.2.1, and hence the peer's encoder put it in the
  table: from then on the peer's index 62 means this field, while the server reads index 62 as
  the field before it (here ":path" instead of "x").\<close>

theorem hpack_empty_value_not_indexed:
  assumes "text_ok HPACK_NAME_MAX name"
  shows "parse_header_step trust_proxy
           (encode_int 6 0x40 0 @ enc_string False name @ enc_string False [] @ rest) dyn req
         = (0, rest, dyn, req)"
proof -
  have "http2_hpack_decode_string_buf (enc_string False [] @ rest) HPACK_VALUE_MAX = (True, Some [], rest)"
    using decode_int_7(2) [of 0 rest]
    by (simp add: http2_hpack_decode_string_buf_def enc_string_def hd_encode_int bytes_of_def
        HPACK_VALUE_MAX_def Let_def cstr_def)
  then have "parse_literal dyn 0x3F
      (encode_int 6 0x40 0 @ enc_string False name @ enc_string False [] @ rest) = (name, [], rest)"
    using decode_int_6 [of 0] decode_enc_string [OF assms]
    by (simp add: parse_literal_def Let_def HPACK_NAME_MAX_def)
  then show ?thesis
    by (simp add: parse_header_step_def Let_def hd_encode_int)
qed

theorem hpack_empty_value_not_indexed_witness:
  "let dyn = \<lparr> dt_allocated = True, dt_entries = [('':path'', ''/a'')] \<rparr>;
       (status, rest, dyn', req') = parse_header_step False
          (encode_int 6 0x40 0 @ enc_string False ''x'' @ enc_string False [] @ []) dyn empty_request
   in http2_hpack_get_header dyn' 62 = Some ('':path'', ''/a'')"
  by (subst hpack_empty_value_not_indexed)
    (simp_all add: text_ok_def HPACK_NAME_MAX_def http2_hpack_get_header_def)

end
