(* ===== verification/H2_Response.thy ===== *)
theory H2_Response
  imports H2_Socket Http_Utils Hpack_Block
begin

text \<open>
  HTTP/2 responses: src/protocol/http2/halmos_http2_response.c.

  A function that writes returns the actions it takes, in order; \<open>SendFrame\<close> is a call of
  \<open>http2_frame_send\<close>.  The file system and the FastCGI session are arguments.
\<close>

datatype h2_action =
    SendFrame u8 u8 u32 bytes
  | RawWrite bytes
  | CloseFd int
  | Bridge u32
  | WsMessage u32 bytes

section \<open>Header blocks\<close>

text \<open>The status field; \<open>s_str\<close> is ten bytes, so that ten digits lose the last one to the terminator.\<close>

definition status_digits :: "int \<Rightarrow> string" where
  "status_digits code =
     (let d = dec_int code in if length d \<le> 9 then d else take 9 d @ [CHR 0x00])"

definition hpack_status :: "int \<Rightarrow> bytes" where
  "hpack_status code =
     (if code = 200 then [0x88] else if code = 204 then [0x89] else if code = 304 then [0x8B]
      else if code = 400 then [0x8C] else if code = 404 then [0x8D] else if code = 500 then [0x8E]
      else [0x08, word_of_nat (length (status_digits code)) AND 0x7F] @ bytes_of (status_digits code))"

definition response_mime :: "string option \<Rightarrow> string" where
  "response_mime uri =
     (case uri of
        None \<Rightarrow> ''text/plain''
      | Some u \<Rightarrow> if c_strstr u ''.php'' \<noteq> None then ''text/html'' else get_mime_type u)"

definition http2_response_send_header :: "HTTP2Stream \<Rightarrow> int \<Rightarrow> h2_action list" where
  "http2_response_send_header st status_code =
     (let mime = response_mime (rh_uri (st_http1_compat st));
          mlen = min (length mime) 127
      in [SendFrame 0x01 0x04 (st_stream_id st)
            (hpack_status status_code @ [0x0F, 0x10, word_of_nat mlen AND 0x7F]
             @ bytes_of (take mlen mime))])"

section \<open>Data\<close>

text \<open>The frames of one call and whether the stream is closed by it.\<close>

function data_chunks :: "u32 \<Rightarrow> bytes \<Rightarrow> bool \<Rightarrow> h2_action list" where
  "data_chunks sid data is_end =
     (if data = [] then []
      else let chunk = (if length data > 16384 then 16384 else length data);
               fl = (if is_end \<and> length data = chunk then 0x01 else 0x00)
           in SendFrame 0x00 fl sid (take chunk data) # data_chunks sid (drop chunk data) is_end)"
  by pat_completeness auto
termination by (relation "measure (\<lambda>(_, data, _). length data)") auto

declare data_chunks.simps [simp del]

definition http2_response_send_data :: "u32 \<Rightarrow> bytes \<Rightarrow> bool \<Rightarrow> h2_action list \<times> bool" where
  "http2_response_send_data sid data is_end =
     (if data = [] then (if is_end then ([SendFrame 0x00 0x01 sid []], True) else ([], False))
      else (data_chunks sid data is_end, is_end))"

section \<open>Headers of a backend\<close>

definition backend_status :: "string \<Rightarrow> int" where
  "backend_status raw =
     (let parsed = (case c_strcasestr raw ''Status:'' of
                      Some p \<Rightarrow> c_int (c_strtol10 (dropWhile (\<lambda>c. c = CHR '' '' \<or> c = CHR 0x09) (drop 7 p)))
                    | None \<Rightarrow> 0);
          final_status = (if parsed > 0 then parsed else 200);
          has_location = (c_strcasestr raw ''Location:'' \<noteq> None)
      in if has_location \<and> (final_status = 200 \<or> final_status = 304 \<or> final_status = 0) then 302
         else final_status)"

text \<open>A line: key and value around the first colon, trimmed, the key in lower case.\<close>

definition header_line :: "string \<Rightarrow> (string \<times> string) option" where
  "header_line line =
     (if CHR '':'' \<notin> set line then None
      else let key = takeWhile (\<lambda>c. c \<noteq> CHR '':'') line;
               val = drop (length key + 1) line
           in Some (map c_tolower (dropWhile c_isspace key),
                    dropWhile c_isspace (trim_end c_isspace val)))"

definition backend_fields :: "string \<Rightarrow> (string \<times> string) list" where
  "backend_fields raw =
     filter (\<lambda>(k, v). k \<noteq> ''status'')
       (List.map_filter header_line (c_tokens (\<lambda>c. c = CHR 0x0D \<or> c = CHR 0x0A) raw))"

text \<open>The long form of a length: what is over 127, seven bits at a time.\<close>

function len_more :: "nat \<Rightarrow> bytes" where
  "len_more rem =
     (if rem \<ge> 128 then (word_of_nat (rem mod 128) OR 0x80) # len_more (rem div 128)
      else [word_of_nat rem])"
  by pat_completeness auto
termination by (relation "measure id") auto

declare len_more.simps [simp del]

definition hpack_pair :: "string \<Rightarrow> string \<Rightarrow> bytes" where
  "hpack_pair key val =
     (let klen = length key; vlen = length val
      in [0x00]
         @ (if klen < 127 then word_of_nat klen # bytes_of key else 0x7F # bytes_of (take 127 key))
         @ (if vlen < 127 then [word_of_nat vlen] else 0x7F # len_more (vlen - 127))
         @ bytes_of val)"

text \<open>
  The loop over the lines, with the buffer and its capacity.  One reallocation doubles the capacity;
  if it fails, the rest of the headers is dropped.
\<close>

fun complex_loop :: "bool \<Rightarrow> bytes \<times> nat \<Rightarrow> (string \<times> string) list \<Rightarrow> bytes \<times> nat" where
  "complex_loop realloc_ok (buf, cap) [] = (buf, cap)"
| "complex_loop realloc_ok (buf, cap) ((key, val) # fs) =
     (if length buf + length key + length val + 16 > cap then
        (if realloc_ok then complex_loop realloc_ok (buf @ hpack_pair key val, cap * 2) fs
         else (buf, cap))
      else complex_loop realloc_ok (buf @ hpack_pair key val, cap) fs)"

definition http2_response_send_complex_header ::
  "bool \<Rightarrow> HTTP2Stream \<Rightarrow> string \<Rightarrow> u8 \<Rightarrow> h2_action list" where
  "http2_response_send_complex_header realloc_ok st raw_headers fl =
     (let (buf, cap) = complex_loop realloc_ok (hpack_status (backend_status raw_headers), 16384)
                         (backend_fields raw_headers)
      in [SendFrame 0x01 fl (st_stream_id st) buf])"

section \<open>Pumping the active streams\<close>

definition HTTP2_MAX_FRAME_SIZE :: nat where "HTTP2_MAX_FRAME_SIZE = 16384"

definition has_file :: "HTTP2Stream \<Rightarrow> bool" where
  "has_file st \<longleftrightarrow> st_is_sending_file st \<and> st_file_fd st \<ge> 0 \<and> st_state st \<noteq> HTTP2_STATE_CLOSED"

definition http2_response_has_active_streams :: "HTTP2Session \<Rightarrow> bool" where
  "http2_response_has_active_streams s \<longleftrightarrow>
     (\<exists>st \<in> set (concat (ss_streams_hash s)). has_file st \<or> st_is_fcgi_active st)"

definition close_file :: "HTTP2Stream \<Rightarrow> HTTP2Stream" where
  "close_file st =
     st\<lparr> st_file_fd := -1, st_is_sending_file := False, st_state := HTTP2_STATE_CLOSED \<rparr>"

definition close_file_action :: "HTTP2Stream \<Rightarrow> h2_action list" where
  "close_file_action st = (if st_file_fd st \<ge> 0 then [CloseFd (st_file_fd st)] else [])"

text \<open>One chunk of a file; \<open>pread fd n off\<close> is what the system call reads.\<close>

definition flush_file ::
  "(int \<Rightarrow> nat \<Rightarrow> nat \<Rightarrow> bytes) \<Rightarrow> u32 \<Rightarrow> HTTP2Session \<Rightarrow> HTTP2Session \<times> h2_action list" where
  "flush_file pread sid s =
     (case http2_stream_find_unlocked s sid of
        None \<Rightarrow> (s, [])
      | Some st \<Rightarrow>
          if \<not> has_file st then (s, [])
          else
            let conn_win = sint (ss_out_window_size s);
                stream_win = sint (st_out_window_size st);
                off = st_file_offset st; total = st_file_size st
            in if off \<ge> total then (s, [])
               else if conn_win \<le> 0 \<or> stream_win \<le> 0 then (s, [])
               else
                 let m1 = (if int HTTP2_MAX_FRAME_SIZE > conn_win then nat conn_win else HTTP2_MAX_FRAME_SIZE);
                     m2 = (if int m1 > stream_win then nat stream_win else m1);
                     max_allowed = (if m2 > total - off then total - off else m2);
                     buf = pread (st_file_fd st) max_allowed off
                 in if buf = [] then (with_stream sid close_file s, close_file_action st)
                    else
                      let n_read = length buf;
                          fl = (if off + n_read \<ge> total then 0x01 else 0x00);
                          st1 = st\<lparr> st_out_window_size := st_out_window_size st - word_of_nat n_read,
                                    st_file_offset := off + n_read \<rparr>;
                          done = (st_file_offset st1 \<ge> st_file_size st1);
                          upd = (\<lambda>x. let y = x\<lparr> st_out_window_size := st_out_window_size x - word_of_nat n_read,
                                               st_file_offset := st_file_offset x + n_read \<rparr>
                                     in if st_file_offset y \<ge> st_file_size y then close_file y else y)
                      in (with_stream sid upd
                            (s\<lparr> ss_out_window_size := ss_out_window_size s - word_of_nat n_read \<rparr>),
                          SendFrame 0x00 fl sid buf # (if done then close_file_action st1 else [])))"

text \<open>The first 256 active streams, in the order of the buckets, each a file or a FastCGI stream.\<close>

definition active_ids :: "HTTP2Session \<Rightarrow> (u32 \<times> bool) list" where
  "active_ids s =
     take 256 (map (\<lambda>st. (st_stream_id st, st_is_fcgi_active st))
       (filter (\<lambda>st. has_file st \<or> st_is_fcgi_active st) (concat (ss_streams_hash s))))"

definition http2_response_flush_active_streams ::
  "(int \<Rightarrow> nat \<Rightarrow> nat \<Rightarrow> bytes) \<Rightarrow> (u32 \<Rightarrow> HTTP2Session \<Rightarrow> HTTP2Session \<times> h2_action list) \<Rightarrow>
     HTTP2Session \<Rightarrow> HTTP2Session \<times> h2_action list" where
  "http2_response_flush_active_streams pread fcgi_step s =
     foldl (\<lambda>(s, acts) (sid, is_fcgi).
              let (s', a) = (if is_fcgi
                             then (case http2_stream_find_unlocked s sid of
                                     Some st \<Rightarrow> if st_is_fcgi_active st then fcgi_step sid s else (s, [])
                                   | None \<Rightarrow> (s, []))
                             else flush_file pread sid s)
              in (s', acts @ a))
       (s, []) (active_ids s)"

section \<open>Header blocks are what RFC 7541 encodes\<close>

lemma len_more_encode: "len_more n = encode_int_more n"
proof (induction n rule: len_more.induct)
  case (1 n)
  then show ?case
    by (subst len_more.simps, subst encode_int_more.simps) (simp add: u8_or_128)
qed

lemma enc_short: "n < 127 \<Longrightarrow> encode_int 7 0 n = [word_of_nat n]"
  by (simp add: encode_int_def)

lemma enc_long: "\<not> n < 127 \<Longrightarrow> encode_int 7 0 n = 0x7F # len_more (n - 127)"
  by (simp add: encode_int_def len_more_encode mask_numeral)

lemma hpack_pair_enc:
  "length key < 127 \<Longrightarrow> hpack_pair key val = enc_field (Literal False (NameText False key) False val)"
  by (cases "length val < 127")
    (simp_all add: hpack_pair_def enc_string_def enc_short enc_long Let_def encode_int_def [of 4 0])

definition status_field :: "int \<Rightarrow> field_rep" where
  "status_field code =
     (if code = 200 then Indexed 8 else if code = 204 then Indexed 9 else if code = 304 then Indexed 11
      else if code = 400 then Indexed 12 else if code = 404 then Indexed 13
      else if code = 500 then Indexed 14
      else Literal False (NameIndex 8) False (dec_int code))"

lemma dec_nat_3: "n < 1000 \<Longrightarrow> length (dec_nat n) \<le> 3"
  by (subst dec_nat.simps, subst dec_nat.simps, subst dec_nat.simps) auto

lemma hpack_status_enc:
  assumes "0 \<le> code" and "code < 1000"
  shows "hpack_status code = enc_field (status_field code)"
proof -
  have len: "length (dec_int code) \<le> 3"
    using assms dec_nat_3 [of "nat code"] by (simp add: dec_int_def)
  then have "(word_of_nat (length (dec_int code)) :: u8) AND 0x7F = word_of_nat (length (dec_int code))"
    by (simp add: u8_and_127)
  moreover have "encode_int 7 0 (length (dec_int code)) = [word_of_nat (length (dec_int code))]"
    using len by (intro enc_short) simp
  ultimately show ?thesis
    using len
    by (simp add: hpack_status_def status_field_def status_digits_def encode_int_def [of 7 "0x80"]
        encode_int_def [of 4 0] enc_string_def Let_def)
qed

lemma complex_loop_enc:
  assumes "\<forall>(k, v) \<in> set fs. length k < 127"
  shows "fst (complex_loop True (buf, cap) fs) =
           buf @ concat (map (\<lambda>(k, v). enc_field (Literal False (NameText False k) False v)) fs)"
  using assms
  by (induction fs arbitrary: buf cap) (auto simp: hpack_pair_enc simp del: enc_field.simps)

lemma get_mime_type_length: "length (response_mime uri) < 127"
proof -
  have "mime_search dot low high \<in> insert ''application/octet-stream'' (snd ` set mime_types)"
    if "0 \<le> low" "high < 8" for dot low high
    using that
  proof (induction dot low high rule: mime_search.induct)
    case (1 dot low high)
    let ?mid = "(low + high) div 2"
    have mid: "low \<le> high \<Longrightarrow> nat ?mid < length mime_types" using 1(3,4) by (auto simp: mime_types_def)
    show ?case
    proof (cases "low \<le> high")
      case True
      with mid nth_mem have "snd (mime_types ! nat ?mid) \<in> snd ` set mime_types" by blast
      with True 1 show ?thesis by (subst mime_search.simps) (auto simp: Let_def)
    qed (simp add: mime_search.simps)
  qed
  moreover have "\<forall>x \<in> insert ''application/octet-stream'' (snd ` set mime_types). length x < 127"
    by (simp add: mime_types_def)
  ultimately have "length (mime_search dot 0 7) < 127" for dot by force
  then show ?thesis
    by (auto simp: response_mime_def get_mime_type_def mime_types_def split: option.split)
qed

section \<open>Data frames\<close>

fun frame_payload :: "h2_action \<Rightarrow> bytes" where
  "frame_payload (SendFrame t f i p) = p"
| "frame_payload _ = []"

lemma data_chunks_concat: "concat (map frame_payload (data_chunks sid data is_end)) = data"
proof (induction sid data is_end rule: data_chunks.induct)
  case (1 sid data is_end)
  then show ?case by (subst data_chunks.simps) (auto simp: Let_def)
qed

text \<open>All but the last are plain full frames; the last has the end flag as asked.\<close>

fun data_frames_ok :: "bool \<Rightarrow> u32 \<Rightarrow> h2_action list \<Rightarrow> bool" where
  "data_frames_ok is_end sid [] \<longleftrightarrow> False"
| "data_frames_ok is_end sid [a] \<longleftrightarrow>
     (\<exists>p. a = SendFrame 0 (if is_end then 1 else 0) sid p \<and> length p \<le> 16384)"
| "data_frames_ok is_end sid (a # b # as) \<longleftrightarrow>
     (\<exists>p. a = SendFrame 0 0 sid p \<and> length p = 16384) \<and> data_frames_ok is_end sid (b # as)"

lemma data_chunks_frames: "data \<noteq> [] \<Longrightarrow> data_frames_ok is_end sid (data_chunks sid data is_end)"
proof (induction sid data is_end rule: data_chunks.induct)
  case (1 sid data is_end)
  show ?case
  proof (cases "length data > 16384")
    case True
    then have ne: "drop 16384 data \<noteq> []" by simp
    then obtain b as where next_frames: "data_chunks sid (drop 16384 data) is_end = b # as"
      by (subst (asm) data_chunks.simps) (auto simp: Let_def data_chunks.simps)
    have "data_frames_ok is_end sid (b # as)"
      using 1 True ne next_frames by simp
    with True show ?thesis
      using 1(2) next_frames by (subst data_chunks.simps) (auto simp: Let_def)
  next
    case False
    with 1(2) show ?thesis
      by (subst data_chunks.simps) (simp add: Let_def data_chunks.simps [of _ "[]"])
  qed
qed

section \<open>Flow control\<close>

text \<open>The step of a file that is being sent, with its windows open.\<close>

lemma flush_file_cases:
  assumes "streams_ok s" and "http2_stream_find_unlocked s sid = Some st" and "has_file st"
    and "st_file_offset st < st_file_size st"
    and "0 < sint (ss_out_window_size s)" and "0 < sint (st_out_window_size st)"
  shows "\<exists>n. 0 < n \<and> n \<le> HTTP2_MAX_FRAME_SIZE \<and> int n \<le> sint (ss_out_window_size s)
       \<and> int n \<le> sint (st_out_window_size st) \<and> st_file_offset st + n \<le> st_file_size st
       \<and> (let buf = pread (st_file_fd st) n (st_file_offset st); k = length buf;
              fl = (if st_file_offset st + k \<ge> st_file_size st then 1 else 0)
          in if buf = [] then flush_file pread sid s = (with_stream sid close_file s, close_file_action st)
             else \<exists>acts. snd (flush_file pread sid s) = SendFrame 0 fl sid buf # acts
                \<and> ss_out_window_size (fst (flush_file pread sid s)) = ss_out_window_size s - word_of_nat k
                \<and> (\<exists>st'. http2_stream_find_unlocked (fst (flush_file pread sid s)) sid = Some st'
                     \<and> st_out_window_size st' = st_out_window_size st - word_of_nat k
                     \<and> st_file_offset st' = st_file_offset st + k
                     \<and> (st_state st' = HTTP2_STATE_CLOSED \<longleftrightarrow> fl = (1 :: u8))))"
proof -
  let ?c = "sint (ss_out_window_size s)" and ?w = "sint (st_out_window_size st)"
  let ?m1 = "if int HTTP2_MAX_FRAME_SIZE > ?c then nat ?c else HTTP2_MAX_FRAME_SIZE"
  let ?m2 = "if int ?m1 > ?w then nat ?w else ?m1"
  let ?n = "if ?m2 > st_file_size st - st_file_offset st then st_file_size st - st_file_offset st else ?m2"
  let ?buf = "pread (st_file_fd st) ?n (st_file_offset st)"
  have n: "0 < ?n" "?n \<le> HTTP2_MAX_FRAME_SIZE" "int ?n \<le> ?c" "int ?n \<le> ?w"
    "st_file_offset st + ?n \<le> st_file_size st"
    using assms(4-6) by (auto simp: HTTP2_MAX_FRAME_SIZE_def)
  have open_st: "st_state st \<noteq> HTTP2_STATE_CLOSED" using assms(3) by (simp add: has_file_def)
  have buf0: "?buf = [] \<Longrightarrow> flush_file pread sid s = (with_stream sid close_file s, close_file_action st)"
    using assms by (simp add: flush_file_def Let_def)
  define upd where "upd = (\<lambda>x. let y = x\<lparr> st_out_window_size := st_out_window_size x - word_of_nat (length ?buf),
                                st_file_offset := st_file_offset x + length ?buf \<rparr>
                      in if st_file_offset y \<ge> st_file_size y then close_file y else y)"
  define s1 where "s1 = s\<lparr> ss_out_window_size := ss_out_window_size s - word_of_nat (length ?buf) \<rparr>"
  have run: "fst (flush_file pread sid s) = with_stream sid upd s1"
    "\<exists>acts. snd (flush_file pread sid s) = SendFrame 0
       (if st_file_offset st + length ?buf \<ge> st_file_size st then 1 else 0) sid ?buf # acts"
    if "?buf \<noteq> []"
    using assms that by (simp_all add: flush_file_def Let_def upd_def s1_def)
  have s1: "streams_ok s1" "http2_stream_find_unlocked s1 sid = Some st"
    using assms(1,2) by (auto simp: s1_def streams_ok_def http2_stream_find_unlocked_def split: if_splits)
  have "http2_stream_find_unlocked (with_stream sid upd s1) sid = Some (upd st)"
    using with_stream_find [OF s1(1), of upd sid sid] s1(2)
    by (simp add: upd_def Let_def close_file_def)
  moreover have "ss_out_window_size (with_stream sid upd s1) = ss_out_window_size s - word_of_nat (length ?buf)"
    by (simp add: with_stream_def s1_def)
  ultimately have "let buf = ?buf; k = length buf;
              fl = (if st_file_offset st + k \<ge> st_file_size st then 1 else 0)
          in if buf = [] then flush_file pread sid s = (with_stream sid close_file s, close_file_action st)
             else \<exists>acts. snd (flush_file pread sid s) = SendFrame 0 fl sid buf # acts
                \<and> ss_out_window_size (fst (flush_file pread sid s)) = ss_out_window_size s - word_of_nat k
                \<and> (\<exists>st'. http2_stream_find_unlocked (fst (flush_file pread sid s)) sid = Some st'
                     \<and> st_out_window_size st' = st_out_window_size st - word_of_nat k
                     \<and> st_file_offset st' = st_file_offset st + k
                     \<and> (st_state st' = HTTP2_STATE_CLOSED \<longleftrightarrow> fl = (1 :: u8)))"
    using buf0 run open_st
    by (auto simp: Let_def upd_def close_file_def)
  with n show ?thesis by blast
qed

section \<open>Properties\<close>

text \<open>The header block sent with a status from 0 to 999 is, byte for byte, what RFC 7541 encodes
  for two fields: the status (indexed where the static table has it) and the content type of the
  request's path.\<close>

theorem send_header_block:
  assumes "0 \<le> status_code" and "status_code < 1000"
  shows "http2_response_send_header st status_code =
     [SendFrame 0x01 0x04 (st_stream_id st)
        (concat (map enc_field
           [status_field status_code,
            Literal False (NameIndex 31) False (response_mime (rh_uri (st_http1_compat st)))]))]"
proof -
  let ?mime = "response_mime (rh_uri (st_http1_compat st))"
  have "encode_int 4 0 31 = [0x0F, 0x10]"
    by (simp add: encode_int_def encode_int_more.simps mask_numeral)
  moreover have "(word_of_nat (length ?mime) :: u8) AND 0x7F = word_of_nat (length ?mime)"
    using get_mime_type_length [of "rh_uri (st_http1_compat st)"] by (simp add: u8_and_127)
  ultimately show ?thesis
    using get_mime_type_length [of "rh_uri (st_http1_compat st)"] hpack_status_enc [OF assms]
    by (simp add: http2_response_send_header_def Let_def enc_string_def enc_short
        min.absorb1 less_imp_le)
qed

theorem send_header_block_witness:
  "http2_response_send_header (new_stream idle_session None 1) 404 =
     [SendFrame 0x01 0x04 1 (0x8D # enc_field (Literal False (NameIndex 31) False ''text/plain''))]"
  by (subst send_header_block)
    (simp_all add: new_stream_def empty_request_def response_mime_def status_field_def
      encode_int_def [of 7 "0x80"] del: enc_field.simps(2))



text \<open>The buffer for the headers of a backend is doubled only once for a field: a field of more
  than 32 KB, which the 64 KB header buffer of FastCGI lets through, is written past the end of
  the allocation.\<close>

theorem complex_header_overflow:
  assumes "length key < 127" and "32768 \<le> length val"
  shows "let (buf, cap) = complex_loop True (hpack_status 200, 16384) [(key, val)]
         in cap < length buf"
  using assms by (simp add: hpack_status_def hpack_pair_def Let_def)

theorem complex_header_overflow_witness:
  "let (buf, cap) = complex_loop True (hpack_status 200, 16384)
                      [(''x'', replicate 40000 (CHR ''a''))]
   in cap < length buf"
  by (rule complex_header_overflow) simp_all

text \<open>A body of any size is sent whole and in order: the payloads of the DATA frames put together
  are the body, every frame but the last carries 16384 bytes and no flag, the last at most 16384
  and END_STREAM exactly when this is the end; an empty body that ends the stream is one empty
  frame with END_STREAM.\<close>

theorem send_data_spec:
  "let (frames, closed) = http2_response_send_data sid data is_end
   in concat (map frame_payload frames) = data
      \<and> (if data = [] \<and> \<not> is_end then frames = [] else data_frames_ok is_end sid frames)
      \<and> closed = is_end"
  using data_chunks_concat [of sid data is_end] data_chunks_frames [of data is_end sid]
  by (auto simp: http2_response_send_data_def)

text \<open>C14: sending a file respects both windows: one step asks for at most 16384 bytes, at most what
  the connection window and the stream window allow, and not past the end of the file; what was
  read goes out as one DATA frame, both windows shrink by exactly its length and so stay at least
  zero, the offset advances by it, and the frame ends the stream, which is then closed, exactly
  when the file is complete.\<close>

theorem flush_file_flow_control:
  assumes "streams_ok s" and "http2_stream_find_unlocked s sid = Some st" and "has_file st"
    and "st_file_offset st < st_file_size st"
    and "0 < sint (ss_out_window_size s)" and "0 < sint (st_out_window_size st)"
    and "\<And>n. length (pread (st_file_fd st) n (st_file_offset st)) \<le> n"
    and "\<And>n. 0 < n \<Longrightarrow> pread (st_file_fd st) n (st_file_offset st) \<noteq> []"
  shows "\<exists>buf fl acts st'.
       snd (flush_file pread sid s) = SendFrame 0 fl sid buf # acts
     \<and> buf \<noteq> [] \<and> length buf \<le> HTTP2_MAX_FRAME_SIZE
     \<and> http2_stream_find_unlocked (fst (flush_file pread sid s)) sid = Some st'
     \<and> sint (ss_out_window_size (fst (flush_file pread sid s))) = sint (ss_out_window_size s) - int (length buf)
     \<and> 0 \<le> sint (ss_out_window_size (fst (flush_file pread sid s)))
     \<and> sint (st_out_window_size st') = sint (st_out_window_size st) - int (length buf)
     \<and> 0 \<le> sint (st_out_window_size st')
     \<and> st_file_offset st' = st_file_offset st + length buf \<and> st_file_offset st' \<le> st_file_size st
     \<and> (fl = 1 \<longleftrightarrow> st_file_offset st' = st_file_size st)
     \<and> (st_state st' = HTTP2_STATE_CLOSED \<longleftrightarrow> fl = 1)"
proof -
  have sub: "sint (w - word_of_nat k) = sint w - int k" if "int k \<le> sint w" for w :: u32 and k
  proof -
    have k: "int k < 2 ^ 31" using that sint_less [of w] by simp
    have "sint (w - word_of_nat k) = signed_take_bit 31 (sint w - int k)"
      using k by (simp add: sint_word_ariths signed_of_nat signed_take_bit_int_eq_self)
    also have "\<dots> = sint w - int k"
      using that sint_less [of w] k by (intro signed_take_bit_int_eq_self) simp_all
    finally show ?thesis .
  qed
  note assms(7) [simp] note nonempty = assms(8)
  from flush_file_cases [OF assms(1-6), of pread] obtain n where
    n: "0 < n" "n \<le> HTTP2_MAX_FRAME_SIZE" "int n \<le> sint (ss_out_window_size s)"
      "int n \<le> sint (st_out_window_size st)" "st_file_offset st + n \<le> st_file_size st"
    and "let buf = pread (st_file_fd st) n (st_file_offset st); k = length buf;
              fl = (if st_file_offset st + k \<ge> st_file_size st then 1 else 0)
          in if buf = [] then flush_file pread sid s = (with_stream sid close_file s, close_file_action st)
             else \<exists>acts. snd (flush_file pread sid s) = SendFrame 0 fl sid buf # acts
                \<and> ss_out_window_size (fst (flush_file pread sid s)) = ss_out_window_size s - word_of_nat k
                \<and> (\<exists>st'. http2_stream_find_unlocked (fst (flush_file pread sid s)) sid = Some st'
                     \<and> st_out_window_size st' = st_out_window_size st - word_of_nat k
                     \<and> st_file_offset st' = st_file_offset st + k
                     \<and> (st_state st' = HTTP2_STATE_CLOSED \<longleftrightarrow> fl = (1 :: u8)))"
    by blast
  moreover define buf where "buf = pread (st_file_fd st) n (st_file_offset st)"
  moreover have "length buf \<le> n" "buf \<noteq> []" using nonempty [OF n(1)] by (simp_all add: buf_def)
  ultimately obtain acts st' where
    "snd (flush_file pread sid s) = SendFrame 0
       (if st_file_offset st + length buf \<ge> st_file_size st then 1 else 0) sid buf # acts"
    "ss_out_window_size (fst (flush_file pread sid s)) = ss_out_window_size s - word_of_nat (length buf)"
    "http2_stream_find_unlocked (fst (flush_file pread sid s)) sid = Some st'"
    "st_out_window_size st' = st_out_window_size st - word_of_nat (length buf)"
    "st_file_offset st' = st_file_offset st + length buf"
    "st_state st' = HTTP2_STATE_CLOSED \<longleftrightarrow> (if st_file_offset st + length buf \<ge> st_file_size st then 1 else 0) = (1 :: u8)"
    by (auto simp: Let_def)
  with n \<open>length buf \<le> n\<close> \<open>buf \<noteq> []\<close> sub show ?thesis
    by (intro exI [of _ buf] exI [of _ acts] exI [of _ st']
        exI [of _ "if st_file_offset st + length buf \<ge> st_file_size st then 1 else 0"]) auto
qed

definition file_session :: HTTP2Session where
  "file_session =
     with_stream 1 (\<lambda>st. st\<lparr> st_file_fd := 7, st_file_size := 100, st_is_sending_file := True \<rparr>)
       (snd (http2_stream_get_or_create idle_session 1 None True))"

theorem flush_file_flow_control_witness:
  "\<exists>buf fl acts. snd (flush_file (\<lambda>fd n off. replicate n 0) 1 file_session) = SendFrame 0 fl 1 buf # acts
     \<and> buf \<noteq> []"
proof -
  let ?s = "snd (http2_stream_get_or_create idle_session 1 None True)"
  let ?st = "(new_stream idle_session None 1)\<lparr> st_file_fd := 7, st_file_size := 100, st_is_sending_file := True \<rparr>"
  have none: "http2_stream_find_unlocked idle_session 1 = None"
    by (simp add: http2_stream_find_unlocked_def idle_session_def chain_find_def)
  have ok: "streams_ok ?s" using streams_ok_idle by (rule get_or_create_ok)
  then have "streams_ok file_session"
    unfolding file_session_def by (rule with_stream_ok) simp
  moreover have "http2_stream_find_unlocked file_session 1 = Some ?st"
    unfolding file_session_def
    using with_stream_find [OF ok, of "\<lambda>st. st\<lparr> st_file_fd := 7, st_file_size := 100, st_is_sending_file := True \<rparr>" 1 1]
      get_or_create_find [OF streams_ok_idle, of 1 None True 1] none
    by simp
  moreover have "ss_out_window_size file_session = 65535"
    using none by (simp add: file_session_def with_stream_def http2_stream_get_or_create_def
        http2_stream_find_unlocked_def idle_session_def Let_def chain_find_def)
  ultimately show ?thesis
    using flush_file_flow_control [of file_session 1 ?st "\<lambda>fd n off. replicate n 0"]
    by (fastforce simp: has_file_def new_stream_def idle_session_def)
qed

end
