(* ===== verification/H2_Session.thy ===== *)
theory H2_Session
  imports H2_Response
begin

text \<open>
  The HTTP/2 connection: src/protocol/http2/halmos_http2_manager.c and the frame handlers of
  src/protocol/http2/halmos_http2_parser.c.

  A read is given by its result \<open>rd\<close>: data (never more than was asked for), end of file, an error
  worth retrying (EAGAIN, WANT_READ, WANT_WRITE) or another error.  The routing of a request
  (virtual hosts, routes), the rate limiter, the router's bridge and the FastCGI step are arguments,
  in the record \<open>h2_env\<close>; their calls stand where the source has them.
\<close>

datatype rd = RData bytes | REof | RRetry | RFail

record h2_config =
  hc_trust_proxy :: bool
  hc_rate_limit_enabled :: bool
  hc_max_requests_per_sec :: int
  hc_max_body_size :: nat

record h2_env =
  he_peer :: "string option"
  he_calloc_ok :: bool
  he_realloc_ok :: bool
  he_malloc_ok :: "nat \<Rightarrow> bool"
  he_routing :: "RequestHeader \<Rightarrow> bool \<times> RequestHeader"
  he_allowed :: "string \<Rightarrow> int \<Rightarrow> bool"
  he_bridge :: "u32 \<Rightarrow> HTTP2Session \<Rightarrow> HTTP2Session \<times> h2_action list"
  he_pread :: "int \<Rightarrow> nat \<Rightarrow> nat \<Rightarrow> bytes"
  he_fcgi_step :: "u32 \<Rightarrow> HTTP2Session \<Rightarrow> HTTP2Session \<times> h2_action list"

section \<open>HEADERS\<close>

text \<open>\<open>strip_headers_padding\<close>: the bytes of the payload that are the header block.\<close>

definition strip_headers_padding :: "u8 \<Rightarrow> bytes \<Rightarrow> bytes" where
  "strip_headers_padding fl payload =
     (let (pad_len, p1) = (if fl AND 0x08 \<noteq> 0 \<and> payload \<noteq> []
                           then (unat (hd payload), tl payload) else (0, payload));
          p2 = (if fl AND 0x20 \<noteq> 0 \<and> length p1 \<ge> 5 then drop 5 p1 else p1)
      in take (if length p2 > pad_len then length p2 - pad_len else 0) p2)"

definition parse_header ::
  "h2_env \<Rightarrow> h2_config \<Rightarrow> bytes \<Rightarrow> HPACKDynamicTable \<Rightarrow> RequestHeader \<Rightarrow>
     bool \<times> HPACKDynamicTable \<times> RequestHeader" where
  "parse_header env cfg payload dyn req =
     (let (ok, dyn', req') = parse_header_fields (hc_trust_proxy cfg) payload dyn req
      in if \<not> ok then (False, dyn', req')
         else let (routed, req'') = (if rh_uri req' \<noteq> None then he_routing env req' else (True, req'))
              in if \<not> routed then (False, dyn', req''\<lparr> rh_is_valid := False \<rparr>)
                 else let valid = (rh_method req'' \<noteq> [] \<and> rh_uri req'' \<noteq> None)
                      in (valid, dyn', req''\<lparr> rh_is_valid := valid \<rparr>))"

definition check_rate_limit :: "h2_env \<Rightarrow> h2_config \<Rightarrow> RequestHeader \<Rightarrow> bool" where
  "check_rate_limit env cfg req =
     (if hc_rate_limit_enabled cfg
      then he_allowed env (rh_client_ip req)
             (if hc_max_requests_per_sec cfg > 0 then hc_max_requests_per_sec cfg else 50)
      else True)"

definition http2_parser_handle_headers ::
  "h2_env \<Rightarrow> h2_config \<Rightarrow> HTTP2FrameHeader \<Rightarrow> bytes \<Rightarrow> HTTP2Session \<Rightarrow> HTTP2Session \<times> h2_action list" where
  "http2_parser_handle_headers env cfg head payload s =
     (let sid = fh_stream_id head in
      if sid = 0 then (s, [])
      else case http2_stream_get_or_create s sid (he_peer env) (he_calloc_ok env) of
             (None, s1) \<Rightarrow> (s1, [])
           | (Some st, s1) \<Rightarrow>
               let (ok, dyn', req) = parse_header env cfg (strip_headers_padding (fh_flags head) payload)
                                       (ss_dyn_table s1) (st_http1_compat st);
                   s2 = with_stream sid (\<lambda>x. x\<lparr> st_http1_compat := req \<rparr>) (s1\<lparr> ss_dyn_table := dyn' \<rparr>)
               in if \<not> ok then (s2, [])
                  else if \<not> check_rate_limit env cfg req
                  then (s2, [SendFrame 0x03 0x00 sid [0x00, 0x00, 0x00, 0x07]])
                  else if rh_is_upgrade req then he_bridge env sid s2
                  else if fh_flags head AND 0x01 \<noteq> 0
                  then he_bridge env sid (with_stream sid (\<lambda>x. x\<lparr> st_state := state_of_nat 2 \<rparr>) s2)
                  else (s2, []))"

section \<open>DATA\<close>

definition window_updates :: "u32 \<Rightarrow> nat \<Rightarrow> h2_action list" where
  "window_updates sid n =
     [SendFrame 0x08 0x00 sid (window_update_payload (word_of_nat n)),
      SendFrame 0x08 0x00 0 (window_update_payload (word_of_nat n))]"

text \<open>
  A WebSocket frame inside a DATA frame.  The length and the offset are 64-bit: their sum wraps.
\<close>

definition handle_websocket_data_payload ::
  "h2_env \<Rightarrow> HTTP2FrameHeader \<Rightarrow> bytes \<Rightarrow> h2_action list" where
  "handle_websocket_data_payload env head payload =
     (let len = fh_length head in
      if len < 2 then []
      else
        let opcode = payload ! 0 AND 0x0F;
            masked = (payload ! 1 AND 0x80 \<noteq> 0);
            l7 = unat (payload ! 1 AND 0x7F)
        in if l7 = 126 \<and> len < 4 then []
           else if l7 = 127 \<and> len < 10 then []
           else
             let payload_len = (if l7 = 126 then be16 (payload ! 2) (payload ! 3)
                                else if l7 = 127 then be64 (drop 2 payload) else l7);
                 off1 = (if l7 = 126 then 4 else if l7 = 127 then 10 else 2)
             in if masked \<and> len < off1 + 4 then []
                else
                  let mask_key = (if masked then take 4 (drop off1 payload) else [0, 0, 0, 0]);
                      header_offset = (if masked then off1 + 4 else off1)
                  in if (header_offset + payload_len) mod 2 ^ 64 > len \<or> payload_len = 2 ^ 64 - 1 then []
                     else if \<not> he_malloc_ok env (payload_len + 1) then []
                     else
                       let body = take payload_len (drop header_offset payload);
                           clear = (if masked then map2 (\<lambda>b i. b XOR (mask_key ! (i mod 4))) body [0..<length body]
                                    else body)
                       in (if opcode = 0x01 then [WsMessage (fh_stream_id head) clear] else [])
                          @ window_updates (fh_stream_id head) len)"

definition append_stream_body :: "h2_env \<Rightarrow> u32 \<Rightarrow> bytes \<Rightarrow> HTTP2Session \<Rightarrow> bool \<times> HTTP2Session" where
  "append_stream_body env sid payload s =
     (if \<not> he_realloc_ok env then (False, s)
      else (True, with_stream sid
              (\<lambda>st. st\<lparr> st_http1_compat :=
                 (st_http1_compat st)\<lparr> rh_body := rh_body (st_http1_compat st) @ payload \<rparr> \<rparr>) s))"

definition handle_stream_end :: "h2_env \<Rightarrow> u32 \<Rightarrow> HTTP2Session \<Rightarrow> HTTP2Session \<times> h2_action list" where
  "handle_stream_end env sid s =
     (let s1 = with_stream sid
                 (\<lambda>st. st\<lparr> st_http1_compat := (st_http1_compat st)
                    \<lparr> rh_content_length := c_int (int (length (rh_body (st_http1_compat st)))) \<rparr> \<rparr>) s;
          (s2, acts) = he_bridge env sid s1
      in (with_stream sid (\<lambda>st. st\<lparr> st_state := state_of_nat 4 \<rparr>) s2, acts))"

definition http2_parser_handle_data ::
  "h2_env \<Rightarrow> HTTP2FrameHeader \<Rightarrow> bytes \<Rightarrow> HTTP2Session \<Rightarrow> HTTP2Session \<times> h2_action list" where
  "http2_parser_handle_data env head payload s =
     (let sid = fh_stream_id head in
      case http2_stream_find_unlocked s sid of
        None \<Rightarrow> (s, [])
      | Some st \<Rightarrow>
          if payload = [] \<or> fh_length head = 0 then (s, [])
          else if rh_is_upgrade (st_http1_compat st) then (s, handle_websocket_data_payload env head payload)
          else
            let (ok, s1) = append_stream_body env sid payload s
            in if \<not> ok then (s1, [])
               else if fh_flags head AND 0x01 \<noteq> 0 then
                 let (s2, acts) = handle_stream_end env sid s1
                 in (s2, window_updates sid (fh_length head) @ acts)
               else (s1, window_updates sid (fh_length head)))"

section \<open>The other frames\<close>

text \<open>One setting; the new initial window moves the window of every stream by the difference.\<close>

definition apply_setting :: "nat \<Rightarrow> u32 \<Rightarrow> HTTP2Session \<Rightarrow> HTTP2Session" where
  "apply_setting i val s =
     (if i = 4 then
        s\<lparr> ss_peer_initial_window_size := val,
           ss_streams_hash := map (map (\<lambda>st. st\<lparr> st_out_window_size :=
             st_out_window_size st + (val - ss_peer_initial_window_size s) \<rparr>)) (ss_streams_hash s) \<rparr>
      else s)"

fun apply_settings :: "bytes \<Rightarrow> HTTP2Session \<Rightarrow> HTTP2Session" where
  "apply_settings (a # b # c # d # e # f # rest) s =
     apply_settings rest (apply_setting (be16 a b) (word_of_nat (be32 c d e f)) s)"
| "apply_settings _ s = s"

definition reset_stream :: "HTTP2Stream \<Rightarrow> HTTP2Stream" where
  "reset_stream st = st\<lparr> st_file_fd := (if st_file_fd st \<ge> 0 then -1 else st_file_fd st),
     st_is_sending_file := False, st_state := HTTP2_STATE_CLOSED \<rparr>"

text \<open>The end of \<open>dispatch_frame\<close>: ready for the next frame.\<close>

definition frame_done :: "HTTP2Session \<Rightarrow> HTTP2Session" where
  "frame_done s = s\<lparr> ss_payload_buf := None, ss_read_state := 0, ss_header_buf_partial := [] \<rparr>"

definition dispatch_frame ::
  "h2_env \<Rightarrow> h2_config \<Rightarrow> HTTP2Session \<Rightarrow> bool \<times> HTTP2Session \<times> h2_action list" where
  "dispatch_frame env cfg s =
     (let head = ss_current_frame_head s;
          payload = (case ss_payload_buf s of Some p \<Rightarrow> p | None \<Rightarrow> []);
          type = fh_type head
      in if type = 0x07 then (False, s, [])
         else
           let (s1, acts) =
             (if type = 0x00 then http2_parser_handle_data env head payload s
              else if type = 0x01 then http2_parser_handle_headers env cfg head payload s
              else if type = 0x03 then
                (with_stream (fh_stream_id head) reset_stream s,
                 concat (map (\<lambda>st. if st_stream_id st = fh_stream_id head then close_file_action st else [])
                   (concat (ss_streams_hash s))))
              else if type = 0x04 then
                (if fh_flags head AND 0x01 = 0 \<and> ss_payload_buf s \<noteq> None \<and> fh_length head \<ge> 6
                 then (apply_settings payload s, [RawWrite settings_ack_bytes])
                 else (s, []))
              else if type = 0x06 then
                (s, if fh_flags head AND 0x01 = 0 then [SendFrame 0x06 0x01 0 payload] else [])
              else if type = 0x08 then (http2_frame_handle_window_update s head (ss_payload_buf s), [])
              else (s, []))
           in (True, frame_done s1, acts))"

section \<open>Reading\<close>

definition has_backlog :: "HTTP2Session \<Rightarrow> bool" where
  "has_backlog s \<longleftrightarrow> ss_pending_write_len s > ss_pending_write_offset s"

definition handle_socket_retry :: "HTTP2Session \<Rightarrow> bool \<Rightarrow> int" where
  "handle_socket_retry s retry =
     (if retry then (if has_backlog s \<or> http2_response_has_active_streams s then 4 else 2) else 0)"

definition process_preface :: "HTTP2Session \<Rightarrow> rd \<Rightarrow> int \<times> HTTP2Session" where
  "process_preface s r =
     (if ss_preface_bytes_read s < 24 then
        (case r of
           RData bs \<Rightarrow> (1, s\<lparr> ss_preface_bytes_read := ss_preface_bytes_read s + length bs \<rparr>)
         | RRetry \<Rightarrow> (handle_socket_retry s True, s)
         | RFail \<Rightarrow> (handle_socket_retry s False, s)
         | REof \<Rightarrow> (0, s))
      else (1, s))"

definition read_frame_header :: "h2_config \<Rightarrow> (nat \<Rightarrow> bool) \<Rightarrow> HTTP2Session \<Rightarrow> rd \<Rightarrow> int \<times> HTTP2Session" where
  "read_frame_header cfg malloc_ok s r =
     (if ss_read_state s = 0 then
        (case r of
           RData bs \<Rightarrow>
             let s1 = s\<lparr> ss_header_buf_partial := ss_header_buf_partial s @ bs \<rparr>
             in if length (ss_header_buf_partial s1) = 9 then
                  let head = http2_parser_frame_header (ss_header_buf_partial s1);
                      s2 = s1\<lparr> ss_current_frame_head := head, ss_read_state := 1 \<rparr>;
                      max_allowed = (if hc_max_body_size cfg > 0 then hc_max_body_size cfg else 1048576)
                  in if fh_length head > 0 then
                       (if fh_length head > max_allowed then (0, s2)
                        else if \<not> malloc_ok (fh_length head) then (0, s2)
                        else (1, s2\<lparr> ss_payload_buf := Some [] \<rparr>))
                     else (1, s2)
                else (1, s1)
         | RRetry \<Rightarrow> (handle_socket_retry s True, s)
         | RFail \<Rightarrow> (handle_socket_retry s False, s)
         | REof \<Rightarrow> (0, s))
      else (1, s))"

definition read_frame_payload :: "HTTP2Session \<Rightarrow> rd \<Rightarrow> int \<times> HTTP2Session" where
  "read_frame_payload s r =
     (if ss_read_state s = 1 \<and> fh_length (ss_current_frame_head s) > 0 then
        (case r of
           RData bs \<Rightarrow>
             let buf = (case ss_payload_buf s of Some p \<Rightarrow> p @ bs | None \<Rightarrow> bs);
                 s1 = s\<lparr> ss_payload_buf := Some buf \<rparr>
             in if length buf < fh_length (ss_current_frame_head s) then (2, s1) else (1, s1)
         | RRetry \<Rightarrow> (handle_socket_retry s True, s)
         | RFail \<Rightarrow> (handle_socket_retry s False, s)
         | REof \<Rightarrow> (0, s))
      else (1, s))"

section \<open>One turn of the session loop\<close>

text \<open>Actions in order: frames through the backlog, raw writes straight to the socket.\<close>

fun emit :: "(sys_result \<times> bool) list \<Rightarrow> h2_action list \<Rightarrow> HTTP2Session \<Rightarrow> HTTP2Session \<times> bytes" where
  "emit ws [] s = (s, [])"
| "emit ws (a # as) s =
     (let (r, ok) = (case ws of [] \<Rightarrow> (\<lparr> sr_n = -1, sr_errno = EAGAIN \<rparr>, True) | w # _ \<Rightarrow> w);
          (s1, out) = (case a of
                         SendFrame t f i p \<Rightarrow> http2_frame_send s t f i p r ok
                       | RawWrite b \<Rightarrow> raw_write s b r
                       | _ \<Rightarrow> (s, []));
          (s2, out') = emit (tl ws) as s1
      in (s2, out @ out'))"

record h2_turn =
  ht_flush :: sys_result
  ht_preface :: rd
  ht_header :: rd
  ht_payload :: rd
  ht_writes1 :: "(sys_result \<times> bool) list"
  ht_writes2 :: "(sys_result \<times> bool) list"

datatype turn_result = Return int | Again

definition http2_manager_turn ::
  "h2_env \<Rightarrow> h2_config \<Rightarrow> h2_turn \<Rightarrow> HTTP2Session \<Rightarrow> turn_result \<times> HTTP2Session \<times> bytes" where
  "http2_manager_turn env cfg t s =
     (if ss_write_error s then (Return 0, s, [])
      else
        let (fl, s1, out1) = (if has_backlog s then http2_socket_flush_pending_write s (ht_flush t)
                              else (0, s, []))
        in if fl < 0 then (Return 0, s1, out1)
           else if fl > 0 then (Return 4, s1, out1)
           else
             let (pr, s2) = process_preface s1 (ht_preface t)
             in if pr = 0 then (Return 0, s2, out1)
                else if pr = 2 \<or> pr = 4 then (Return pr, s2, out1)
                else if ss_preface_bytes_read s2 < 24 then (Again, s2, out1)
                else
                  let (s3, acts3) = http2_response_flush_active_streams (he_pread env) (he_fcgi_step env) s2;
                      (s4, out4) = emit (ht_writes1 t) acts3 s3;
                      (hr, s5) = read_frame_header cfg (he_malloc_ok env) s4 (ht_header t)
                  in if hr = 0 then (Return 0, s5, out1 @ out4)
                     else if hr = 2 \<or> hr = 4 then (Return hr, s5, out1 @ out4)
                     else if ss_read_state s5 = 0 then (Again, s5, out1 @ out4)
                     else
                       let (br, s6) = read_frame_payload s5 (ht_payload t)
                       in if br = 0 then (Return 0, s6, out1 @ out4)
                          else if br = 2 then (Again, s6, out1 @ out4)
                          else if br = 4 then (Return 4, s6, out1 @ out4)
                          else
                            let (cont, s7, acts7) = dispatch_frame env cfg s6;
                                (s8, out8) = emit (ht_writes2 t) acts7 s7
                            in (if cont then Again else Return 0, s8, out1 @ out4 @ out8))"

section \<open>The frames read do not depend on how the bytes arrive\<close>

definition session_init :: "bool \<Rightarrow> bool \<Rightarrow> HTTP2Session \<times> h2_action list" where
  "session_init is_tls entries_ok =
     (idle_session\<lparr> ss_is_tls := is_tls,
        ss_dyn_table := \<lparr> dt_allocated = entries_ok, dt_entries = [] \<rparr> \<rparr>, [RawWrite settings_bytes])"

text \<open>How much the next read asks for, and what it does: one read, and the frame it completes.\<close>

definition to_read :: "HTTP2Session \<Rightarrow> nat" where
  "to_read s =
     (if ss_preface_bytes_read s < 24 then 24 - ss_preface_bytes_read s
      else if ss_read_state s = 0 then 9 - length (ss_header_buf_partial s)
      else fh_length (ss_current_frame_head s) - (case ss_payload_buf s of Some p \<Rightarrow> length p | None \<Rightarrow> 0))"

definition reader_step ::
  "h2_config \<Rightarrow> HTTP2Session \<Rightarrow> bytes \<Rightarrow> (HTTP2Session \<times> (HTTP2FrameHeader \<times> bytes) list) option" where
  "reader_step cfg s bs =
     (if ss_preface_bytes_read s < 24 then Some (snd (process_preface s (RData bs)), [])
      else if ss_read_state s = 0 then
        (let (c, s1) = read_frame_header cfg (\<lambda>_. True) s (RData bs)
         in if c = 0 then None
            else if ss_read_state s1 = 1 \<and> fh_length (ss_current_frame_head s1) = 0
            then Some (frame_done s1, [(ss_current_frame_head s1, [])])
            else Some (s1, []))
      else
        (let (c, s1) = read_frame_payload s (RData bs)
         in if c = 1
            then Some (frame_done s1,
                       [(ss_current_frame_head s1, case ss_payload_buf s1 of Some p \<Rightarrow> p | None \<Rightarrow> [])])
            else Some (s1, [])))"

fun reader_run ::
  "h2_config \<Rightarrow> HTTP2Session \<Rightarrow> bytes list \<Rightarrow> (HTTP2FrameHeader \<times> bytes) list option" where
  "reader_run cfg s [] = Some []"
| "reader_run cfg s (b # bs) =
     (case reader_step cfg s b of
        None \<Rightarrow> None
      | Some (s1, fr) \<Rightarrow> map_option ((@) fr) (reader_run cfg s1 bs))"

fun chunks_ok :: "h2_config \<Rightarrow> HTTP2Session \<Rightarrow> bytes list \<Rightarrow> bool" where
  "chunks_ok cfg s [] \<longleftrightarrow> True"
| "chunks_ok cfg s (b # bs) \<longleftrightarrow> b \<noteq> [] \<and> length b \<le> to_read s \<and>
     (case reader_step cfg s b of None \<Rightarrow> True | Some (s1, _) \<Rightarrow> chunks_ok cfg s1 bs)"

definition max_payload :: "h2_config \<Rightarrow> nat" where
  "max_payload cfg = (if hc_max_body_size cfg > 0 then hc_max_body_size cfg else 1048576)"

text \<open>The frames of a byte stream; \<open>None\<close> if one of them is too long.\<close>

function frames_of :: "nat \<Rightarrow> bytes \<Rightarrow> (HTTP2FrameHeader \<times> bytes) list option" where
  "frames_of m bs =
     (if length bs < 9 then Some []
      else let h = http2_parser_frame_header (take 9 bs)
           in if fh_length h > m then None
              else if length bs < 9 + fh_length h then Some []
              else map_option ((#) (h, take (fh_length h) (drop 9 bs)))
                     (frames_of m (drop (9 + fh_length h) bs)))"
  by pat_completeness auto
termination by (relation "measure (\<lambda>(_, bs). length bs)") auto

declare frames_of.simps [simp del]

definition held :: "HTTP2Session \<Rightarrow> bytes" where
  "held s = ss_header_buf_partial s @ (case ss_payload_buf s of Some p \<Rightarrow> p | None \<Rightarrow> [])"

definition reader_ok :: "h2_config \<Rightarrow> HTTP2Session \<Rightarrow> bool" where
  "reader_ok cfg s \<longleftrightarrow>
     (if ss_read_state s = 0 then length (ss_header_buf_partial s) < 9 \<and> ss_payload_buf s = None
      else ss_read_state s = 1 \<and> length (ss_header_buf_partial s) = 9
         \<and> ss_current_frame_head s = http2_parser_frame_header (ss_header_buf_partial s)
         \<and> fh_length (ss_current_frame_head s) \<le> max_payload cfg
         \<and> (\<exists>p. ss_payload_buf s = Some p \<and> length p < fh_length (ss_current_frame_head s)))"

lemma frames_of_held: "reader_ok cfg s \<Longrightarrow> frames_of (max_payload cfg) (held s) = Some []"
  by (auto simp: reader_ok_def held_def frames_of.simps Let_def split: if_splits)

lemma frames_of_complete:
  assumes "length hd9 = 9" and "http2_parser_frame_header hd9 = h" and "fh_length h \<le> m"
    and "length p = fh_length h"
  shows "frames_of m (hd9 @ p @ rest) = map_option ((#) (h, p)) (frames_of m rest)"
  using assms by (subst frames_of.simps) (simp add: Let_def)

lemma frames_of_too_long:
  assumes "length hd9 = 9" and "fh_length (http2_parser_frame_header hd9) > m"
  shows "frames_of m (hd9 @ rest) = None"
  using assms by (subst frames_of.simps) (simp add: Let_def)

lemma map_option_append [simp]:
  "map_option ((@) []) x = x" "map_option ((@) [a]) x = map_option ((#) a) x"
  by (cases x; simp)+

text \<open>One read keeps the correspondence: what is held, plus the bytes to come, are the same frames.\<close>

lemma reader_step_frames:
  assumes ok: "reader_ok cfg s" and pre: "\<not> ss_preface_bytes_read s < 24"
    and len: "length b \<le> to_read s"
  shows "case reader_step cfg s b of
      None \<Rightarrow> frames_of (max_payload cfg) (held s @ b @ rest) = None
    | Some (s1, fr) \<Rightarrow> reader_ok cfg s1 \<and> \<not> ss_preface_bytes_read s1 < 24 \<and>
        frames_of (max_payload cfg) (held s @ b @ rest) =
          map_option ((@) fr) (frames_of (max_payload cfg) (held s1 @ rest))"
proof (cases "ss_read_state s = 0")
  case True
  let ?p = "ss_header_buf_partial s @ b"
  have st: "length (ss_header_buf_partial s) < 9" "ss_payload_buf s = None"
    using ok True by (auto simp: reader_ok_def)
  then have held_s: "held s @ b @ rest = ?p @ rest" by (simp add: held_def)
  have le: "length ?p \<le> 9" using len True pre st by (simp add: to_read_def)
  show ?thesis
  proof (cases "length ?p = 9")
    case nine: True
    let ?h = "http2_parser_frame_header ?p"
    show ?thesis
    proof (cases "fh_length ?h > max_payload cfg")
      case True
      then have "frames_of (max_payload cfg) (?p @ rest) = None"
        using nine by (intro frames_of_too_long) simp_all
      then show ?thesis
        using True nine \<open>ss_read_state s = 0\<close> pre st held_s
        by (simp add: reader_step_def read_frame_header_def Let_def max_payload_def split: if_splits)
    next
      case False
      show ?thesis
      proof (cases "fh_length ?h = 0")
        case True
        then have "frames_of (max_payload cfg) (?p @ [] @ rest) =
            map_option ((#) (?h, [])) (frames_of (max_payload cfg) rest)"
          using nine by (intro frames_of_complete) simp_all
        then show ?thesis
          using True nine \<open>ss_read_state s = 0\<close> pre st held_s
          by (simp add: reader_step_def read_frame_header_def Let_def frame_done_def reader_ok_def held_def)
      next
        case nz: False
        then show ?thesis
          using False nine \<open>ss_read_state s = 0\<close> pre st held_s
          by (simp add: reader_step_def read_frame_header_def Let_def reader_ok_def held_def
              max_payload_def split: if_splits)
      qed
    qed
  next
    case False
    then show ?thesis
      using le True pre st held_s
      by (simp add: reader_step_def read_frame_header_def Let_def reader_ok_def held_def)
  qed
next
  case False
  let ?h = "ss_current_frame_head s" and ?hd = "ss_header_buf_partial s"
  obtain p where st: "ss_read_state s = 1" "length ?hd = 9" "?h = http2_parser_frame_header ?hd"
    "fh_length ?h \<le> max_payload cfg" "ss_payload_buf s = Some p" "length p < fh_length ?h"
    using ok False by (auto simp: reader_ok_def)
  then have held_s: "held s @ b @ rest = ?hd @ (p @ b) @ rest" by (simp add: held_def)
  have le: "length (p @ b) \<le> fh_length ?h" using len pre st by (simp add: to_read_def)
  show ?thesis
  proof (cases "length (p @ b) = fh_length ?h")
    case True
    then have "frames_of (max_payload cfg) (?hd @ (p @ b) @ rest) =
        map_option ((#) (?h, p @ b)) (frames_of (max_payload cfg) rest)"
      using st by (intro frames_of_complete) simp_all
    then show ?thesis
      using True st pre held_s
      by (simp add: reader_step_def read_frame_payload_def Let_def frame_done_def reader_ok_def held_def)
  next
    case False
    with le have lt: "length (p @ b) < fh_length ?h" by simp
    then show ?thesis
      using st pre held_s
      by (simp add: reader_step_def read_frame_payload_def Let_def reader_ok_def held_def)
  qed
qed

lemma reader_run_frames:
  "reader_ok cfg s \<Longrightarrow> \<not> ss_preface_bytes_read s < 24 \<Longrightarrow> chunks_ok cfg s bs \<Longrightarrow>
     reader_run cfg s bs = frames_of (max_payload cfg) (held s @ concat bs)"
proof (induction bs arbitrary: s)
  case Nil
  then show ?case by (simp add: frames_of_held)
next
  case (Cons b bs)
  from reader_step_frames [OF Cons.prems(1,2), of b "concat bs"] Cons.prems(3)
  show ?case
    by (auto split: option.splits simp: Cons.IH)
qed

lemma reader_run_preface:
  "ss_read_state s = 0 \<Longrightarrow> ss_header_buf_partial s = [] \<Longrightarrow> ss_payload_buf s = None \<Longrightarrow>
   ss_preface_bytes_read s \<le> 24 \<Longrightarrow> chunks_ok cfg s bs \<Longrightarrow>
     reader_run cfg s bs = frames_of (max_payload cfg) (drop (24 - ss_preface_bytes_read s) (concat bs))"
proof (induction bs arbitrary: s)
  case Nil
  then show ?case by (simp add: frames_of.simps)
next
  case (Cons b bs)
  show ?case
  proof (cases "ss_preface_bytes_read s < 24")
    case True
    let ?s1 = "s\<lparr> ss_preface_bytes_read := ss_preface_bytes_read s + length b \<rparr>"
    from True Cons.prems have b: "length b \<le> 24 - ss_preface_bytes_read s" "chunks_ok cfg ?s1 bs"
      by (simp_all add: to_read_def reader_step_def process_preface_def)
    then have "reader_run cfg ?s1 bs =
        frames_of (max_payload cfg) (drop (24 - ss_preface_bytes_read ?s1) (concat bs))"
      using Cons.prems by (intro Cons.IH) simp_all
    then show ?thesis
      using True b by (simp add: reader_step_def process_preface_def)
  next
    case False
    have "reader_run cfg s (b # bs) = frames_of (max_payload cfg) (held s @ concat (b # bs))"
      by (rule reader_run_frames) (use Cons.prems False in \<open>auto simp: reader_ok_def\<close>)
    then show ?thesis using Cons.prems False by (simp add: held_def)
  qed
qed

section \<open>Properties\<close>

text \<open>C15: however the network cuts the stream into reads, a new session delivers exactly the frames
  that the bytes after the 24 bytes of the preface contain, in order and whole; it fails exactly
  when one of them is announced longer than the limit.\<close>

theorem h2_frames_chunk_independent:
  assumes "chunks_ok cfg (fst (session_init is_tls entries_ok)) chunks"
  shows "reader_run cfg (fst (session_init is_tls entries_ok)) chunks =
           frames_of (max_payload cfg) (drop 24 (concat chunks))"
  using reader_run_preface [of "fst (session_init is_tls entries_ok)" cfg chunks] assms
  by (simp add: session_init_def idle_session_def)

theorem h2_frames_chunk_independent_witness:
  "reader_run \<lparr> hc_trust_proxy = False, hc_rate_limit_enabled = False, hc_max_requests_per_sec = 0,
       hc_max_body_size = 0 \<rparr> (fst (session_init False True)) [replicate 20 1, replicate 4 2, [0, 0, 1], [6, 0]]
   = frames_of 1048576 [0, 0, 1, 6, 0]"
proof -
  let ?cfg = "\<lparr> hc_trust_proxy = False, hc_rate_limit_enabled = False, hc_max_requests_per_sec = 0,
       hc_max_body_size = 0 \<rparr>"
  have "chunks_ok ?cfg (fst (session_init False True)) [replicate 20 1, replicate 4 2, [0, 0, 1], [6, 0]]"
    by (simp add: session_init_def idle_session_def to_read_def reader_step_def process_preface_def
        read_frame_header_def Let_def)
  from h2_frames_chunk_independent [OF this] show ?thesis
    by (simp add: max_payload_def)
qed

text \<open>While a frame's payload has not arrived and there is nothing to write, a turn of the
  session loop changes nothing, sends nothing and asks for another turn: the loop does not return
  to the event loop on EAGAIN, as it does while reading a frame header, but spins until the peer
  sends more.\<close>

theorem h2_payload_wait_spins:
  assumes "\<not> ss_write_error s" and "\<not> has_backlog s" and "\<not> http2_response_has_active_streams s"
    and "24 \<le> ss_preface_bytes_read s" and "ss_read_state s = 1"
    and "0 < fh_length (ss_current_frame_head s)" and "ht_payload t = RRetry"
  shows "http2_manager_turn env cfg t s = (Again, s, [])"
proof -
  have "active_ids s = []"
    using assms(3) by (simp add: active_ids_def http2_response_has_active_streams_def)
  then have "http2_response_flush_active_streams (he_pread env) (he_fcgi_step env) s = (s, [])"
    by (simp add: http2_response_flush_active_streams_def)
  then show ?thesis
    using assms
    by (simp add: http2_manager_turn_def process_preface_def read_frame_header_def
        read_frame_payload_def handle_socket_retry_def Let_def)
qed

definition plain_env :: h2_env where
  "plain_env = \<lparr> he_peer = None, he_calloc_ok = True, he_realloc_ok = True, he_malloc_ok = (\<lambda>_. True),
     he_routing = (\<lambda>r. (True, r)), he_allowed = (\<lambda>_ _. True), he_bridge = (\<lambda>_ s. (s, [])),
     he_pread = (\<lambda>_ _ _. []), he_fcgi_step = (\<lambda>_ s. (s, [])) \<rparr>"

definition plain_cfg :: h2_config where
  "plain_cfg = \<lparr> hc_trust_proxy = False, hc_rate_limit_enabled = False,
     hc_max_requests_per_sec = 0, hc_max_body_size = 0 \<rparr>"

theorem h2_payload_wait_spins_witness:
  "let s = idle_session\<lparr> ss_preface_bytes_read := 24, ss_read_state := 1, ss_payload_buf := Some [],
             ss_current_frame_head := \<lparr> fh_length = 10, fh_type = 0, fh_flags = 0, fh_stream_id = 1 \<rparr> \<rparr>;
       t = \<lparr> ht_flush = \<lparr> sr_n = 0, sr_errno = 0 \<rparr>, ht_preface = RRetry, ht_header = RRetry,
             ht_payload = RRetry, ht_writes1 = [], ht_writes2 = [] \<rparr>
   in http2_manager_turn plain_env plain_cfg t s = (Again, s, [])"
  unfolding Let_def
  by (rule h2_payload_wait_spins)
    (simp_all add: idle_session_def has_backlog_def http2_response_has_active_streams_def)

text \<open>An empty DATA frame is dropped whatever its flags: a request whose last, empty DATA frame
  carries END_STREAM (RFC 7540, section 6.1, allows it and clients send it) is never handed to the
  router; neither session nor stream changes.\<close>

theorem empty_end_stream_ignored:
  assumes "fh_type (ss_current_frame_head s) = 0" and "fh_length (ss_current_frame_head s) = 0"
  shows "dispatch_frame env cfg s = (True, frame_done s, [])"
  using assms
  by (auto simp: dispatch_frame_def http2_parser_handle_data_def Let_def split: option.split)

theorem empty_end_stream_ignored_witness:
  "dispatch_frame plain_env plain_cfg (idle_session\<lparr> ss_current_frame_head :=
       \<lparr> fh_length = 0, fh_type = 0, fh_flags = 1, fh_stream_id = 1 \<rparr> \<rparr>) =
   (True, frame_done (idle_session\<lparr> ss_current_frame_head :=
       \<lparr> fh_length = 0, fh_type = 0, fh_flags = 1, fh_stream_id = 1 \<rparr> \<rparr>), [])"
  by (rule empty_end_stream_ignored) simp_all

text \<open>The acknowledgement of SETTINGS bypasses the backlog: when a frame before it was taken only in
  part by the socket, the acknowledgement goes out in the middle of that frame, whose rest follows
  later, and the peer cannot read the stream any more.\<close>

theorem settings_ack_splits_frame:
  assumes "\<not> has_backlog s" and "backlog_ok s" and "length p \<le> 16384" and "n < 9"
    and "emit [(\<lparr> sr_n = int n, sr_errno = 0 \<rparr>, True), (\<lparr> sr_n = 9, sr_errno = 0 \<rparr>, True)]
           [SendFrame type fl sid p, RawWrite settings_ack_bytes] s = (s', wire)"
  shows "wire = take n (frame_bytes type fl sid p) @ settings_ack_bytes
       \<and> old_unsent s' = drop n (frame_bytes type fl sid p)"
proof -
  have "old_unsent s = []"
    using assms(1,2) by (simp add: has_backlog_def backlog_ok_def old_unsent_def)
  moreover have "frame_bytes type fl sid p \<noteq> []" "n < length (frame_bytes type fl sid p)"
    "n \<noteq> length (frame_bytes type fl sid p)"
    using assms(4) by (simp_all add: frame_bytes_def Let_def)
  ultimately show ?thesis
    using assms
    by (auto simp: http2_frame_send_def http2_socket_write_or_buffer_def buffer_rest_def raw_write_def
        has_backlog_def old_unsent_def settings_ack_bytes_def Let_def split: prod.splits)
qed

theorem settings_ack_splits_frame_witness:
  "snd (emit [(\<lparr> sr_n = int 3, sr_errno = 0 \<rparr>, True), (\<lparr> sr_n = 9, sr_errno = 0 \<rparr>, True)]
          [SendFrame 0 1 1 [65], RawWrite settings_ack_bytes] idle_session)
   = [0, 0, 1] @ settings_ack_bytes"
proof -
  obtain s' wire where run: "emit [(\<lparr> sr_n = int 3, sr_errno = 0 \<rparr>, True), (\<lparr> sr_n = 9, sr_errno = 0 \<rparr>, True)]
          [SendFrame 0 1 1 [65], RawWrite settings_ack_bytes] idle_session = (s', wire)" by fastforce
  from settings_ack_splits_frame [OF _ _ _ _ run] run show ?thesis
    by (simp add: has_backlog_def backlog_ok_def idle_session_def frame_bytes_def byte_of_def Let_def)
qed

end
