(* ===== verification/Log_Ring.thy ===== *)
theory Log_Ring
  imports Http_Types
begin

text \<open>
  The logger: src/utils/halmos_log.c.  Any thread puts an entry into a ring of 1024 slots; one
  logger thread takes entries out and writes them to the file of their kind; with telemetry on, a
  monitor thread adds a line of metrics every 15 seconds and waits on the same condition variable.

  Each critical section is one operation on \<open>LogQueue\<close>; the threads are a step relation over the
  points between them.  Formatting of the \<open>printf\<close> arguments of \<open>write_log\<close> is the caller's text;
  opening and appending to the file is the list of what was written.
\<close>

section \<open>The ring\<close>

datatype LogType = LOG_TYPE_SYSTEM | LOG_TYPE_ERROR | LOG_TYPE_ACCESS | LOG_TYPE_METRICS

record LogEntry =
  le_text :: string
  le_type :: LogType

record LogQueue =
  lq_entries :: "LogEntry list"
  lq_head :: nat
  lq_tail :: nat
  lq_count :: nat

definition MAX_LOG_QUEUE :: nat where "MAX_LOG_QUEUE = 1024"
definition MAX_LOG_MESSAGE :: nat where "MAX_LOG_MESSAGE = 512"

definition empty_entry :: LogEntry where
  "empty_entry = \<lparr> le_text = [], le_type = LOG_TYPE_SYSTEM \<rparr>"

definition global_log_queue :: LogQueue where
  "global_log_queue = \<lparr> lq_entries = replicate MAX_LOG_QUEUE empty_entry, lq_head = 0, lq_tail = 0, lq_count = 0 \<rparr>"

text \<open>
  \<open>enqueue_log\<close>: the entry is dropped when the ring is full; a \<open>NULL\<close> format leaves the text that
  the slot had.  The flag says that a waiting thread is signalled.
\<close>

definition enqueue_log :: "LogType \<Rightarrow> string option \<Rightarrow> LogQueue \<Rightarrow> bool \<times> LogQueue" where
  "enqueue_log type format q =
     (if lq_count q < MAX_LOG_QUEUE then
        let tail = lq_tail q;
            text = (case format of Some f \<Rightarrow> c_copy MAX_LOG_MESSAGE f | None \<Rightarrow> le_text (lq_entries q ! tail))
        in (True, q\<lparr> lq_entries := (lq_entries q)[tail := \<lparr> le_text = text, le_type = type \<rparr>],
                     lq_tail := (tail + 1) mod MAX_LOG_QUEUE, lq_count := lq_count q + 1 \<rparr>)
      else (False, q))"

text \<open>The consumer's half of the critical section of \<open>log_thread_routine\<close>.\<close>

definition take_log :: "LogQueue \<Rightarrow> LogEntry \<times> LogQueue" where
  "take_log q = (lq_entries q ! lq_head q,
     q\<lparr> lq_head := (lq_head q + 1) mod MAX_LOG_QUEUE, lq_count := lq_count q - 1 \<rparr>)"

text \<open>The file an entry goes to and the line written there; date and time are the clock's.\<close>

definition LOG_DIR :: string where "LOG_DIR = ''/var/log/halmos/''"

definition log_filename :: "string \<Rightarrow> LogType \<Rightarrow> string" where
  "log_filename date_str type = LOG_DIR @ date_str @
     (case type of LOG_TYPE_ERROR \<Rightarrow> ''_error.log'' | LOG_TYPE_METRICS \<Rightarrow> ''_telemetry.log''
      | LOG_TYPE_ACCESS \<Rightarrow> ''_access.log'' | LOG_TYPE_SYSTEM \<Rightarrow> ''_system.log'')"

definition log_line :: "string \<Rightarrow> LogEntry \<Rightarrow> string" where
  "log_line time_str e =
     (case le_type e of
        LOG_TYPE_METRICS \<Rightarrow> le_text e
      | LOG_TYPE_ACCESS \<Rightarrow> ''['' @ time_str @ ''] '' @ le_text e
      | LOG_TYPE_ERROR \<Rightarrow> ''['' @ time_str @ ''] [ERROR] '' @ le_text e
      | LOG_TYPE_SYSTEM \<Rightarrow> ''['' @ time_str @ ''] [INFO] '' @ le_text e) @ [CHR 0x0A]"

definition write_log_access :: "string \<Rightarrow> string \<Rightarrow> string \<Rightarrow> string \<Rightarrow> int \<Rightarrow> int \<Rightarrow> LogQueue \<Rightarrow> bool \<times> LogQueue" where
  "write_log_access protocol client_ip meth uri status bytes_sent q =
     enqueue_log LOG_TYPE_ACCESS
       (Some (c_copy MAX_LOG_MESSAGE (''['' @ protocol @ ''] '' @ client_ip @ '' - '' @ [CHR 0x22] @ meth
          @ '' '' @ uri @ [CHR 0x22] @ '' '' @ dec_int status @ '' '' @ dec_int bytes_sent))) q"

section \<open>A bounded buffer\<close>

definition log_ok :: "LogQueue \<Rightarrow> bool" where
  "log_ok q \<longleftrightarrow> length (lq_entries q) = MAX_LOG_QUEUE \<and> lq_head q < MAX_LOG_QUEUE
     \<and> lq_count q \<le> MAX_LOG_QUEUE \<and> lq_tail q = (lq_head q + lq_count q) mod MAX_LOG_QUEUE"

definition log_contents :: "LogQueue \<Rightarrow> LogEntry list" where
  "log_contents q = map (\<lambda>i. lq_entries q ! ((lq_head q + i) mod MAX_LOG_QUEUE)) [0..<lq_count q]"

definition enq_log :: "LogQueue \<Rightarrow> LogEntry \<Rightarrow> LogQueue option" where
  "enq_log q e = (let (ok, q') = enqueue_log (le_type e) (Some (le_text e)) q in if ok then Some q' else None)"

definition deq_log :: "LogQueue \<Rightarrow> (LogEntry \<times> LogQueue) option" where
  "deq_log q = (if lq_count q = 0 then None else Some (take_log q))"

text \<open>What an accepted entry looks like in the ring: its text is cut to the slot.\<close>

definition stored_text :: "LogQueue \<Rightarrow> string option \<Rightarrow> string" where
  "stored_text q format = (case format of Some f \<Rightarrow> c_copy MAX_LOG_MESSAGE f
                           | None \<Rightarrow> le_text (lq_entries q ! lq_tail q))"

lemma log_ok_init: "log_ok global_log_queue" "log_contents global_log_queue = []"
  by (simp_all add: log_ok_def global_log_queue_def MAX_LOG_QUEUE_def log_contents_def)

lemma length_log_contents [simp]: "length (log_contents q) = lq_count q"
  by (simp add: log_contents_def)

text \<open>Two offsets below the size of the ring name different slots.\<close>

lemma ring_slot_neq:
  fixes h i j n :: nat
  assumes "i < j" and "j < n"
  shows "(h + i) mod n \<noteq> (h + j) mod n"
proof
  assume "(h + i) mod n = (h + j) mod n"
  then have "(h + j - (h + i)) mod n = 0"
    using assms(1) by (metis add_le_cancel_left less_imp_le_nat mod_eq_dvd_iff_nat mod_0_imp_dvd dvd_imp_mod_0)
  with assms show False by (simp add: mod_less)
qed

lemma enqueue_log_spec:
  assumes "log_ok q"
  shows "fst (enqueue_log ty f q) \<longleftrightarrow> lq_count q < MAX_LOG_QUEUE"
    and "log_ok (snd (enqueue_log ty f q))"
    and "log_contents (snd (enqueue_log ty f q)) = log_contents q @
      (if lq_count q < MAX_LOG_QUEUE then [\<lparr> le_text = stored_text q f, le_type = ty \<rparr>] else [])"
proof -
  show "fst (enqueue_log ty f q) \<longleftrightarrow> lq_count q < MAX_LOG_QUEUE"
    by (simp add: enqueue_log_def Let_def)
  show "log_ok (snd (enqueue_log ty f q))"
    using assms by (simp add: log_ok_def enqueue_log_def Let_def mod_Suc_eq)
  show "log_contents (snd (enqueue_log ty f q)) = log_contents q @
      (if lq_count q < MAX_LOG_QUEUE then [\<lparr> le_text = stored_text q f, le_type = ty \<rparr>] else [])"
  proof (cases "lq_count q < MAX_LOG_QUEUE")
    case True
    then have "lq_tail q < length (lq_entries q)"
      using assms by (simp add: log_ok_def MAX_LOG_QUEUE_def)
    moreover have tail: "(lq_head q + lq_count q) mod MAX_LOG_QUEUE = lq_tail q"
      using assms by (simp add: log_ok_def)
    moreover have "lq_tail q \<noteq> (lq_head q + i) mod MAX_LOG_QUEUE" if "i < lq_count q" for i
      using ring_slot_neq [OF that True] tail by metis
    ultimately show ?thesis
      using True
      by (simp add: log_contents_def enqueue_log_def stored_text_def Let_def nth_list_update)
  qed (simp add: enqueue_log_def log_contents_def)
qed

lemma take_log_spec:
  assumes "log_ok q" and "lq_count q \<noteq> 0"
  shows "log_ok (snd (take_log q))"
    and "log_contents q = fst (take_log q) # log_contents (snd (take_log q))"
proof -
  obtain c where c: "lq_count q = Suc c" using assms(2) by (cases "lq_count q") auto
  have "[0..<lq_count q] = 0 # map Suc [0..<c]"
    unfolding c by (simp add: map_Suc_upt upt_conv_Cons)
  then show "log_contents q = fst (take_log q) # log_contents (snd (take_log q))"
    using assms(1) c by (simp add: log_contents_def take_log_def log_ok_def mod_add_left_eq comp_def)
      (simp add: mod_Suc_eq)?
  show "log_ok (snd (take_log q))"
    using assms(1) c by (simp add: log_ok_def take_log_def mod_add_left_eq)
      (simp add: MAX_LOG_QUEUE_def)?
qed

text \<open>The ring keeps the contract of the bounded buffer; it stores an entry with its text cut.\<close>

definition cut_entry :: "LogEntry \<Rightarrow> LogEntry" where
  "cut_entry e = e\<lparr> le_text := c_copy MAX_LOG_MESSAGE (le_text e) \<rparr>"

interpretation log_fifo: bounded_fifo
  log_ok log_contents "\<lambda>_. MAX_LOG_QUEUE" cut_entry enq_log deq_log
proof
  fix q q' :: LogQueue and x
  assume ok: "log_ok q"
  show "enq_log q x = None \<longleftrightarrow> MAX_LOG_QUEUE \<le> length (log_contents q)"
    using enqueue_log_spec(1) [OF ok] by (auto simp: enq_log_def case_prod_unfold Let_def)
  show "deq_log q = None \<longleftrightarrow> log_contents q = []"
    by (simp add: deq_log_def flip: length_0_conv)
  assume "enq_log q x = Some q'"
  then show "log_ok q' \<and> log_contents q' = log_contents q @ [cut_entry x] \<and> MAX_LOG_QUEUE = MAX_LOG_QUEUE"
    using enqueue_log_spec [OF ok, of "le_type x" "Some (le_text x)"]
    by (cases x) (auto simp: enq_log_def case_prod_unfold Let_def stored_text_def cut_entry_def split: if_splits)
next
  fix q q' :: LogQueue and x
  assume ok: "log_ok q" and "deq_log q = Some (x, q')"
  then show "log_ok q' \<and> log_contents q = x # log_contents q' \<and> MAX_LOG_QUEUE = MAX_LOG_QUEUE"
    using take_log_spec [OF ok] by (auto simp: deq_log_def split: if_splits)
qed

section \<open>The threads\<close>

text \<open>
  Where the logger and the monitor stand.  \<open>LTop\<close> is before the critical section of
  \<open>log_thread_routine\<close>, \<open>LWait\<close> inside its wait, \<open>LWrite e\<close> after it with the entry in hand.  \<open>MTop\<close> is the
  test of \<open>log_keep_running\<close>, \<open>MBody\<close> the call of \<open>write_log_telemetry\<close>, \<open>MLock\<close> before the timed wait.
  The test of the flag at \<open>MTop\<close> holds no lock.
\<close>

datatype logger_pc = LTop | LWait | LWrite LogEntry | LDone
datatype monitor_pc = MTop | MBody | MLock | MWait | MDone

record log_state =
  lg_queue :: LogQueue
  lg_keep_running :: bool
  lg_logger :: logger_pc
  lg_monitor :: monitor_pc
  lg_accepted :: "LogEntry list"
  lg_written :: "LogEntry list"

text \<open>\<open>start_thread_logger\<close>: the monitor thread exists only with telemetry on.\<close>

definition start_thread_logger :: "bool \<Rightarrow> log_state" where
  "start_thread_logger telemetry_enabled =
     \<lparr> lg_queue = global_log_queue, lg_keep_running = True, lg_logger = LTop,
       lg_monitor = (if telemetry_enabled then MTop else MDone), lg_accepted = [], lg_written = [] \<rparr>"

text \<open>
  An entry is added; \<open>pthread_cond_signal\<close> wakes one of the threads that wait, whichever, and is lost
  when none does.
\<close>

definition put_log :: "LogType \<Rightarrow> string option \<Rightarrow> log_state \<Rightarrow> log_state" where
  "put_log ty f s =
     (let (ok, q) = enqueue_log ty f (lg_queue s)
      in s\<lparr> lg_queue := q, lg_accepted := lg_accepted s @
              (if ok then [\<lparr> le_text = stored_text (lg_queue s) f, le_type = ty \<rparr>] else []) \<rparr>)"

definition wake_logger :: "log_state \<Rightarrow> log_state" where
  "wake_logger s = s\<lparr> lg_logger := (if lg_logger s = LWait then LTop else lg_logger s) \<rparr>"

definition wake_monitor :: "log_state \<Rightarrow> log_state" where
  "wake_monitor s = s\<lparr> lg_monitor := (if lg_monitor s = MWait then MTop else lg_monitor s) \<rparr>"

definition nobody_waits :: "log_state \<Rightarrow> bool" where
  "nobody_waits s \<longleftrightarrow> lg_logger s \<noteq> LWait \<and> lg_monitor s \<noteq> MWait"

definition signalled :: "log_state \<Rightarrow> log_state \<Rightarrow> bool" where
  "signalled s s' \<longleftrightarrow> (lg_logger s = LWait \<and> s' = wake_logger s)
     \<or> (lg_monitor s = MWait \<and> s' = wake_monitor s) \<or> (nobody_waits s \<and> s' = s)"

text \<open>The critical section of the logger, entered at \<open>LTop\<close>.\<close>

definition logger_section :: "log_state \<Rightarrow> log_state" where
  "logger_section s =
     (if lq_count (lg_queue s) = 0 \<and> lg_keep_running s then s\<lparr> lg_logger := LWait \<rparr>
      else if \<not> lg_keep_running s \<and> lq_count (lg_queue s) = 0 then s\<lparr> lg_logger := LDone \<rparr>
      else let (e, q) = take_log (lg_queue s) in s\<lparr> lg_queue := q, lg_logger := LWrite e \<rparr>)"

inductive log_step :: "bool \<Rightarrow> log_state \<Rightarrow> log_state \<Rightarrow> bool" for telemetry where
  Put: "fst (enqueue_log ty f (lg_queue s)) \<Longrightarrow> signalled (put_log ty f s) s' \<Longrightarrow> log_step telemetry s s'"
| Drop: "\<not> fst (enqueue_log ty f (lg_queue s)) \<Longrightarrow> log_step telemetry s (put_log ty f s)"
| Section: "lg_logger s = LTop \<Longrightarrow> log_step telemetry s (logger_section s)"
| Spurious: "lg_logger s = LWait \<Longrightarrow> log_step telemetry s (wake_logger s)"
| Write: "lg_logger s = LWrite e \<Longrightarrow>
    log_step telemetry s (s\<lparr> lg_written := lg_written s @ [e], lg_logger := LTop \<rparr>)"
| Check: "lg_monitor s = MTop \<Longrightarrow>
    log_step telemetry s (s\<lparr> lg_monitor := (if lg_keep_running s then MBody else MDone) \<rparr>)"
| Metrics: "lg_monitor s = MBody \<Longrightarrow> fst (enqueue_log LOG_TYPE_METRICS f (lg_queue s)) \<Longrightarrow>
    signalled ((put_log LOG_TYPE_METRICS f s)\<lparr> lg_monitor := MLock \<rparr>) s' \<Longrightarrow> log_step telemetry s s'"
| MetricsDrop: "lg_monitor s = MBody \<Longrightarrow> \<not> fst (enqueue_log LOG_TYPE_METRICS f (lg_queue s)) \<Longrightarrow>
    log_step telemetry s (s\<lparr> lg_monitor := MLock \<rparr>)"
| Sleep: "lg_monitor s = MLock \<Longrightarrow> log_step telemetry s (s\<lparr> lg_monitor := MWait \<rparr>)"
| Timeout: "lg_monitor s = MWait \<Longrightarrow> log_step telemetry s (wake_monitor s)"
| Stop: "log_step telemetry s (wake_monitor (wake_logger (s\<lparr> lg_keep_running := False \<rparr>)))"

inductive log_reachable :: "bool \<Rightarrow> log_state \<Rightarrow> bool" for telemetry where
  start: "log_reachable telemetry (start_thread_logger telemetry)"
| step: "log_reachable telemetry s \<Longrightarrow> log_step telemetry s s' \<Longrightarrow> log_reachable telemetry s'"

definition in_hand :: "log_state \<Rightarrow> LogEntry list" where
  "in_hand s = (case lg_logger s of LWrite e \<Rightarrow> [e] | _ \<Rightarrow> [])"

text \<open>
  Nothing accepted is lost or reordered, and the logger sleeps on entries only while the monitor,
  which took the signal, is on its way to signal again.
\<close>

definition log_inv :: "log_state \<Rightarrow> bool" where
  "log_inv s \<longleftrightarrow> log_ok (lg_queue s)
     \<and> lg_accepted s = lg_written s @ in_hand s @ log_contents (lg_queue s)
     \<and> (lg_logger s = LWait \<longrightarrow> lg_keep_running s \<and>
         (lq_count (lg_queue s) = 0 \<or> lq_count (lg_queue s) = 1 \<and> lg_monitor s \<in> {MTop, MBody}))"

lemma log_inv_start: "log_inv (start_thread_logger t)"
  by (simp add: log_inv_def start_thread_logger_def log_ok_init in_hand_def)

text \<open>What a section does to the queue and the ghost list, in one place.\<close>

lemma put_log_fields [simp]:
  "lg_keep_running (put_log ty f s) = lg_keep_running s" "lg_logger (put_log ty f s) = lg_logger s"
  "lg_monitor (put_log ty f s) = lg_monitor s" "lg_written (put_log ty f s) = lg_written s"
  "lg_queue (put_log ty f s) = snd (enqueue_log ty f (lg_queue s))"
  by (simp_all add: put_log_def case_prod_unfold Let_def)

lemma in_hand_simps [simp]:
  "in_hand (put_log ty f s) = in_hand s" "in_hand (s\<lparr> lg_monitor := m \<rparr>) = in_hand s"
  "in_hand (wake_logger s) = in_hand s" "in_hand (wake_monitor s) = in_hand s"
  by (auto simp: in_hand_def wake_logger_def wake_monitor_def split: logger_pc.splits)

lemma enqueue_count:
  "lq_count (snd (enqueue_log ty f q)) = (if lq_count q < MAX_LOG_QUEUE then lq_count q + 1 else lq_count q)"
  by (simp add: enqueue_log_def Let_def)

lemma put_log_ghost:
  "log_inv s \<Longrightarrow> log_ok (lg_queue (put_log ty f s)) \<and>
     lg_accepted (put_log ty f s) = lg_written s @ in_hand s @ log_contents (lg_queue (put_log ty f s))"
  using enqueue_log_spec [of "lg_queue s" ty f]
  by (simp add: log_inv_def put_log_def case_prod_unfold Let_def)

lemma log_inv_step: "log_step t s s' \<Longrightarrow> log_inv s \<Longrightarrow> log_inv s'"
proof (induction rule: log_step.induct)
  case (Put ty f s s')
  have full: "lq_count (lg_queue s) < MAX_LOG_QUEUE"
    using Put enqueue_log_spec(1) [of "lg_queue s" ty f] by (simp add: log_inv_def)
  show ?case
    using Put.hyps(2) Put.prems put_log_ghost [OF Put.prems, of ty f] full
    by (auto simp: signalled_def log_inv_def wake_logger_def wake_monitor_def nobody_waits_def in_hand_def
        enqueue_count split: logger_pc.splits if_splits)
next
  case (Drop ty f s)
  then show ?case
    using put_log_ghost [OF Drop.prems, of ty f] enqueue_log_spec(1) [of "lg_queue s" ty f]
    by (auto simp: log_inv_def enqueue_count)
next
  case (Section s)
  then show ?case
    using take_log_spec [of "lg_queue s"]
    by (auto simp: log_inv_def logger_section_def in_hand_def case_prod_unfold Let_def)
next
  case (Metrics s f s')
  have full: "lq_count (lg_queue s) < MAX_LOG_QUEUE"
    using Metrics enqueue_log_spec(1) [of "lg_queue s" LOG_TYPE_METRICS f] by (simp add: log_inv_def)
  show ?case
    using Metrics.hyps(3) Metrics.prems put_log_ghost [OF Metrics.prems, of LOG_TYPE_METRICS f] full
    by (auto simp: signalled_def log_inv_def wake_logger_def wake_monitor_def nobody_waits_def in_hand_def
        enqueue_count split: logger_pc.splits if_splits)
next
  case (MetricsDrop s f)
  then show ?case
    using enqueue_log_spec(1) [of "lg_queue s" LOG_TYPE_METRICS f]
    by (auto simp: log_inv_def MAX_LOG_QUEUE_def in_hand_def split: logger_pc.splits)
qed (auto simp: log_inv_def in_hand_def wake_logger_def wake_monitor_def split: logger_pc.splits if_splits)

lemma log_reachable_inv: "log_reachable t s \<Longrightarrow> log_inv s"
  by (induction rule: log_reachable.induct) (auto simp: log_inv_start dest: log_inv_step)

section \<open>Properties\<close>



end
