(* ===== verification/Conn_Table.thy ===== *)
theory Conn_Table
  imports Halmos_Base "HOL-Library.Multiset"
begin

text \<open>
  The table of connections by file descriptor: src/core/halmos_core_conn_table.c.

  A slot outlives the connections that use its descriptor: each activation counts its
  \<open>generation\<close> up, and an event carries the generation it was made for.  Pointers to a TLS object or
  to a protocol's session are numbers; the destructor is present or not.  What an operation frees is
  in its result.  The slot's \<open>io_lock\<close> makes each operation one step.
\<close>

datatype halmos_conn_state_t =
  CONN_STATE_READING | CONN_STATE_PROCESSING | CONN_STATE_WRITING | CONN_STATE_CLOSING | CONN_STATE_DEAD

record halmos_conn_t =
  cn_fd :: int
  cn_generation :: u32
  cn_active :: bool
  cn_state :: halmos_conn_state_t
  cn_ssl :: "nat option"
  cn_write_buf :: "bytes option"
  cn_write_len :: nat
  cn_write_offset :: nat
  cn_epoll_events :: u32
  cn_session :: "nat option"
  cn_session_destroy :: bool

record conn_system =
  cs_max_fd :: nat
  cs_connections :: "halmos_conn_t list option"

section \<open>One slot\<close>

definition core_conn_t_clear_write_buf :: "halmos_conn_t \<Rightarrow> halmos_conn_t" where
  "core_conn_t_clear_write_buf c = c\<lparr> cn_write_buf := None, cn_write_len := 0, cn_write_offset := 0 \<rparr>"

text \<open>The session is destroyed when there is one and its destructor is known.\<close>

definition core_conn_t_destroy_protocol_session :: "halmos_conn_t \<Rightarrow> nat list \<times> halmos_conn_t" where
  "core_conn_t_destroy_protocol_session c =
     ((case cn_session c of Some p \<Rightarrow> if cn_session_destroy c then [p] else [] | None \<Rightarrow> []),
      c\<lparr> cn_session := None, cn_session_destroy := False \<rparr>)"

definition core_conn_t_set_protocol_session :: "nat \<Rightarrow> bool \<Rightarrow> halmos_conn_t \<Rightarrow> halmos_conn_t" where
  "core_conn_t_set_protocol_session p d c = c\<lparr> cn_session := Some p, cn_session_destroy := d \<rparr>"

definition slot_init :: "nat \<Rightarrow> halmos_conn_t" where
  "slot_init i = \<lparr> cn_fd = int i, cn_generation = 0, cn_active = False, cn_state = CONN_STATE_DEAD,
     cn_ssl = None, cn_write_buf = None, cn_write_len = 0, cn_write_offset = 0, cn_epoll_events = 0,
     cn_session = None, cn_session_destroy = False \<rparr>"

definition slot_activate :: "halmos_conn_t \<Rightarrow> nat list \<times> halmos_conn_t" where
  "slot_activate c =
     (let c1 = core_conn_t_clear_write_buf (c\<lparr> cn_generation := cn_generation c + 1, cn_ssl := None \<rparr>);
          (freed, c2) = core_conn_t_destroy_protocol_session (c1\<lparr> cn_epoll_events := 0 \<rparr>)
      in (freed, c2\<lparr> cn_state := CONN_STATE_READING, cn_active := True \<rparr>))"

definition slot_deactivate :: "halmos_conn_t \<Rightarrow> nat list \<times> halmos_conn_t" where
  "slot_deactivate c =
     core_conn_t_destroy_protocol_session (core_conn_t_clear_write_buf
       (c\<lparr> cn_active := False, cn_state := CONN_STATE_DEAD, cn_ssl := None \<rparr>))"

definition slot_valid :: "halmos_conn_t \<Rightarrow> u32 \<Rightarrow> bool" where
  "slot_valid c expected_generation \<longleftrightarrow>
     cn_active c \<and> cn_generation c = expected_generation
     \<and> cn_state c \<noteq> CONN_STATE_CLOSING \<and> cn_state c \<noteq> CONN_STATE_DEAD"

section \<open>The table\<close>

definition core_conn_t_init :: "conn_system \<Rightarrow> bool \<Rightarrow> (nat \<Rightarrow> bool) \<Rightarrow> int \<times> conn_system" where
  "core_conn_t_init cs calloc_ok mutex_ok =
     (if cs_max_fd cs = 0 then (-1, cs)
      else if \<not> calloc_ok then (-1, cs\<lparr> cs_connections := None \<rparr>)
      else ((if \<forall>i < cs_max_fd cs. mutex_ok i then 0 else -1),
            cs\<lparr> cs_connections := Some (map slot_init [0..<cs_max_fd cs]) \<rparr>))"

definition core_conn_t_get :: "conn_system \<Rightarrow> int \<Rightarrow> halmos_conn_t option" where
  "core_conn_t_get cs fd =
     (if fd < 0 \<or> nat fd \<ge> cs_max_fd cs then None
      else map_option (\<lambda>t. t ! nat fd) (cs_connections cs))"

definition put_slot :: "conn_system \<Rightarrow> int \<Rightarrow> halmos_conn_t \<Rightarrow> conn_system" where
  "put_slot cs fd c = cs\<lparr> cs_connections := map_option (\<lambda>t. t[nat fd := c]) (cs_connections cs) \<rparr>"

definition core_conn_t_activate :: "conn_system \<Rightarrow> int \<Rightarrow> u32 \<times> nat list \<times> conn_system" where
  "core_conn_t_activate cs fd =
     (case core_conn_t_get cs fd of
        None \<Rightarrow> (0, [], cs)
      | Some c \<Rightarrow> let (freed, c') = slot_activate c in (cn_generation c', freed, put_slot cs fd c'))"

definition core_conn_t_deactivate :: "conn_system \<Rightarrow> int \<Rightarrow> nat list \<times> conn_system" where
  "core_conn_t_deactivate cs fd =
     (case core_conn_t_get cs fd of
        None \<Rightarrow> ([], cs)
      | Some c \<Rightarrow> let (freed, c') = slot_deactivate c in (freed, put_slot cs fd c'))"

definition core_conn_t_is_valid :: "conn_system \<Rightarrow> int \<Rightarrow> u32 \<Rightarrow> bool" where
  "core_conn_t_is_valid cs fd expected_generation =
     (case core_conn_t_get cs fd of None \<Rightarrow> False | Some c \<Rightarrow> slot_valid c expected_generation)"

text \<open>The end of the server: TLS objects and sessions still held are freed, slot by slot.\<close>

definition core_conn_t_destroy :: "conn_system \<Rightarrow> nat list \<times> nat list \<times> conn_system" where
  "core_conn_t_destroy cs =
     (case cs_connections cs of
        None \<Rightarrow> ([], [], cs)
      | Some t \<Rightarrow> (concat (map (\<lambda>c. case cn_ssl c of Some p \<Rightarrow> [p] | None \<Rightarrow> []) t),
                   concat (map (fst \<circ> core_conn_t_destroy_protocol_session) t),
                   cs\<lparr> cs_connections := None \<rparr>))"

section \<open>Histories of the table\<close>

text \<open>
  What the event loop and the workers do to the table: activations, closes, changes of the state of
  a connection, and a protocol installing its session where there is none
  (\<open>session_init\<close> of src/protocol/http2/halmos_http2_manager.c).
\<close>

datatype conn_op = Activate int | Deactivate int | SetState int halmos_conn_state_t | NewSession int nat

fun conn_step :: "conn_system \<Rightarrow> conn_op \<Rightarrow> nat list \<times> nat list \<times> conn_system" where
  "conn_step cs (Activate fd) = (let (g, freed, cs') = core_conn_t_activate cs fd in ([], freed, cs'))"
| "conn_step cs (Deactivate fd) = (let (freed, cs') = core_conn_t_deactivate cs fd in ([], freed, cs'))"
| "conn_step cs (SetState fd st) =
     (case core_conn_t_get cs fd of None \<Rightarrow> ([], [], cs)
      | Some c \<Rightarrow> ([], [], put_slot cs fd (c\<lparr> cn_state := st \<rparr>)))"
| "conn_step cs (NewSession fd p) =
     (case core_conn_t_get cs fd of None \<Rightarrow> ([], [], cs)
      | Some c \<Rightarrow> if cn_session c = None
                  then ([p], [], put_slot cs fd (core_conn_t_set_protocol_session p True c))
                  else ([], [], cs))"

text \<open>A history: the sessions installed, the sessions destroyed, the table left.\<close>

fun conn_run :: "conn_system \<Rightarrow> conn_op list \<Rightarrow> nat list \<times> nat list \<times> conn_system" where
  "conn_run cs [] = ([], [], cs)"
| "conn_run cs (x # xs) =
     (let (new, freed, cs1) = conn_step cs x;
          (new', freed', cs2) = conn_run cs1 xs
      in (new @ new', freed @ freed', cs2))"

definition table_after :: "conn_system \<Rightarrow> conn_op list \<Rightarrow> conn_system" where
  "table_after cs xs = snd (snd (conn_run cs xs))"

definition conn_ok :: "conn_system \<Rightarrow> bool" where
  "conn_ok cs \<longleftrightarrow> (\<exists>t. cs_connections cs = Some t \<and> length t = cs_max_fd cs
     \<and> (\<forall>c \<in> set t. cn_session c \<noteq> None \<longrightarrow> cn_session_destroy c))"

definition held_sessions :: "conn_system \<Rightarrow> nat multiset" where
  "held_sessions cs = (case cs_connections cs of None \<Rightarrow> {#}
     | Some t \<Rightarrow> \<Sum>c \<leftarrow> t. (case cn_session c of Some p \<Rightarrow> {#p#} | None \<Rightarrow> {#}))"

lemma conn_ok_init: "fst (core_conn_t_init cs c m) = 0 \<Longrightarrow> conn_ok (snd (core_conn_t_init cs c m))"
  by (auto simp: core_conn_t_init_def conn_ok_def slot_init_def split: if_splits)

section \<open>Lookup and accounting of one slot\<close>

lemma conn_ok_get:
  "conn_ok cs \<Longrightarrow> core_conn_t_get cs fd = Some c \<Longrightarrow>
     0 \<le> fd \<and> (\<exists>t. cs_connections cs = Some t \<and> nat fd < length t \<and> t ! nat fd = c \<and> length t = cs_max_fd cs)"
  by (auto simp: conn_ok_def core_conn_t_get_def split: if_splits)

lemma get_put_slot:
  "conn_ok cs \<Longrightarrow> core_conn_t_get cs fd = Some c \<Longrightarrow>
     core_conn_t_get (put_slot cs fd c') fd' = (if fd' = fd then Some c' else core_conn_t_get cs fd')"
  using conn_ok_get [of cs fd c] by (auto simp: core_conn_t_get_def put_slot_def nth_list_update)

lemma conn_ok_put_slot:
  "conn_ok cs \<Longrightarrow> core_conn_t_get cs fd = Some c \<Longrightarrow> (cn_session c' \<noteq> None \<longrightarrow> cn_session_destroy c') \<Longrightarrow>
     conn_ok (put_slot cs fd c')"
  by (auto simp: conn_ok_def put_slot_def dest!: set_update_subset_insert [THEN subsetD])

lemma conn_ok_session:
  "conn_ok cs \<Longrightarrow> core_conn_t_get cs fd = Some c \<Longrightarrow> cn_session c = Some p \<Longrightarrow> cn_session_destroy c"
  by (auto simp: conn_ok_def core_conn_t_get_def split: if_splits)

lemma sum_list_map_update:
  fixes f :: "'a \<Rightarrow> 'b :: comm_monoid_add"
  shows "k < length xs \<Longrightarrow> (\<Sum>x\<leftarrow>xs[k := y]. f x) + f (xs ! k) = (\<Sum>x\<leftarrow>xs. f x) + f y"
proof (induction xs arbitrary: k)
  case (Cons a xs)
  then show ?case by (cases k) (auto simp: ac_simps)
qed simp

definition slot_sessions :: "halmos_conn_t \<Rightarrow> nat multiset" where
  "slot_sessions c = (case cn_session c of Some p \<Rightarrow> {#p#} | None \<Rightarrow> {#})"

lemma held_put_slot:
  assumes "conn_ok cs" and "core_conn_t_get cs fd = Some c"
  shows "held_sessions (put_slot cs fd c') + slot_sessions c = held_sessions cs + slot_sessions c'"
proof -
  obtain t where t: "cs_connections cs = Some t" "nat fd < length t" "t ! nat fd = c"
    using conn_ok_get [OF assms] by auto
  show ?thesis
    using sum_list_map_update [OF t(2), of slot_sessions c'] t
    by (simp add: held_sessions_def put_slot_def slot_sessions_def)
qed

lemma destroy_session_frees:
  "cn_session c \<noteq> None \<longrightarrow> cn_session_destroy c \<Longrightarrow>
     mset (fst (core_conn_t_destroy_protocol_session c)) = slot_sessions c"
  by (auto simp: core_conn_t_destroy_protocol_session_def slot_sessions_def split: option.splits)

lemma destroy_session_fields [simp]:
  "cn_session (snd (core_conn_t_destroy_protocol_session c)) = None"
  "cn_generation (snd (core_conn_t_destroy_protocol_session c)) = cn_generation c"
  by (simp_all add: core_conn_t_destroy_protocol_session_def)

lemma slot_ops_fields [simp]:
  "cn_session (snd (slot_activate c)) = None" "cn_generation (snd (slot_activate c)) = cn_generation c + 1"
  "cn_session (snd (slot_deactivate c)) = None" "cn_generation (snd (slot_deactivate c)) = cn_generation c"
  by (simp_all add: slot_activate_def slot_deactivate_def core_conn_t_clear_write_buf_def
      case_prod_unfold Let_def)

lemma slot_ops_free:
  assumes "cn_session c \<noteq> None \<longrightarrow> cn_session_destroy c"
  shows "mset (fst (slot_activate c)) = slot_sessions c" "mset (fst (slot_deactivate c)) = slot_sessions c"
  using destroy_session_frees [of "(core_conn_t_clear_write_buf
      (c\<lparr> cn_generation := cn_generation c + 1, cn_ssl := None \<rparr>))\<lparr> cn_epoll_events := 0 \<rparr>"]
    destroy_session_frees [of "core_conn_t_clear_write_buf
      (c\<lparr> cn_active := False, cn_state := CONN_STATE_DEAD, cn_ssl := None \<rparr>)"] assms
  by (simp_all add: slot_activate_def slot_deactivate_def core_conn_t_clear_write_buf_def
      slot_sessions_def case_prod_unfold Let_def)

definition gen_at :: "conn_system \<Rightarrow> int \<Rightarrow> u32 option" where
  "gen_at cs fd = map_option cn_generation (core_conn_t_get cs fd)"

lemma slot_sessions_None [simp]: "cn_session c = None \<Longrightarrow> slot_sessions c = {#}"
  by (simp add: slot_sessions_def)

lemma conn_step_spec:
  assumes ok: "conn_ok cs"
  shows "conn_ok (snd (snd (conn_step cs x)))
    \<and> held_sessions cs + mset (fst (conn_step cs x)) =
        mset (fst (snd (conn_step cs x))) + held_sessions (snd (snd (conn_step cs x)))
    \<and> gen_at (snd (snd (conn_step cs x))) fd =
        map_option (\<lambda>g. if x = Activate fd then g + 1 else g) (gen_at cs fd)"
proof -
  have step: ?thesis
    if get: "core_conn_t_get cs fd' = Some c" and res: "conn_step cs x = (new, freed, put_slot cs fd' c')"
      and sess: "slot_sessions c + mset new = mset freed + slot_sessions c'"
      and c': "cn_session c' \<noteq> None \<longrightarrow> cn_session_destroy c'"
      and gen: "cn_generation c' = (if x = Activate fd' then cn_generation c + 1 else cn_generation c)"
      and other: "x = Activate fd \<Longrightarrow> fd = fd'"
    for fd' c c' new freed
  proof -
    have "held_sessions cs + mset new + slot_sessions c' = mset freed + held_sessions (put_slot cs fd' c') + slot_sessions c'"
      using held_put_slot [OF ok get, of c'] sess by (metis add.assoc add.commute)
    then show ?thesis
      using conn_ok_put_slot [OF ok get c'] get_put_slot [OF ok get, of c' fd] get gen other
      unfolding res gen_at_def by (cases "x = Activate fd"; cases "fd' = fd") (auto simp: option.map_comp comp_def)
  qed
  have sess_ok: "cn_session c \<noteq> None \<longrightarrow> cn_session_destroy c" if "core_conn_t_get cs fd' = Some c" for fd' c
    using conn_ok_session [OF ok that] by auto
  show ?thesis
  proof (cases x)
    case (Activate fd')
    show ?thesis
    proof (cases "core_conn_t_get cs fd'")
      case (Some c)
      show ?thesis
        by (rule step [OF Some, of "[]" "fst (slot_activate c)" "snd (slot_activate c)"])
          (simp_all add: Activate Some core_conn_t_activate_def case_prod_unfold Let_def
            slot_ops_free sess_ok [OF Some])
    qed (use ok in \<open>cases "fd' = fd"; auto simp: Activate core_conn_t_activate_def gen_at_def option.map_comp comp_def\<close>)
  next
    case (Deactivate fd')
    show ?thesis
    proof (cases "core_conn_t_get cs fd'")
      case (Some c)
      show ?thesis
        by (rule step [OF Some, of "[]" "fst (slot_deactivate c)" "snd (slot_deactivate c)"])
          (simp_all add: Deactivate Some core_conn_t_deactivate_def case_prod_unfold Let_def
            slot_ops_free sess_ok [OF Some])
    qed (use ok in \<open>auto simp: Deactivate core_conn_t_deactivate_def gen_at_def option.map_ident\<close>)
  next
    case (SetState fd' st)
    show ?thesis
    proof (cases "core_conn_t_get cs fd'")
      case (Some c)
      show ?thesis
        by (rule step [OF Some, of "[]" "[]" "c\<lparr> cn_state := st \<rparr>"])
          (use sess_ok [OF Some] in \<open>simp_all add: SetState Some slot_sessions_def\<close>)
    qed (use ok in \<open>auto simp: SetState gen_at_def option.map_ident\<close>)
  next
    case (NewSession fd' p)
    show ?thesis
    proof (cases "core_conn_t_get cs fd'")
      case (Some c)
      show ?thesis
      proof (cases "cn_session c")
        case None
        show ?thesis
          by (rule step [OF Some, of "[p]" "[]" "core_conn_t_set_protocol_session p True c"])
            (simp_all add: NewSession Some None core_conn_t_set_protocol_session_def slot_sessions_def)
      qed (use ok Some in \<open>auto simp: NewSession gen_at_def option.map_ident\<close>)
    qed (use ok in \<open>auto simp: NewSession gen_at_def option.map_ident\<close>)
  qed
qed

lemma conn_run_spec:
  "conn_ok cs \<Longrightarrow> conn_ok (table_after cs xs)
     \<and> held_sessions cs + mset (fst (conn_run cs xs)) =
         mset (fst (snd (conn_run cs xs))) + held_sessions (table_after cs xs)
     \<and> gen_at (table_after cs xs) fd =
         map_option (\<lambda>g. g + of_nat (count_list xs (Activate fd))) (gen_at cs fd)"
proof (induction xs arbitrary: cs)
  case Nil
  then show ?case by (simp add: table_after_def option.map_ident)
next
  case (Cons x xs)
  let ?cs1 = "snd (snd (conn_step cs x))"
  note x = conn_step_spec [OF Cons.prems, of x fd]
  then have ok: "conn_ok ?cs1" by blast
  note IH = Cons.IH [OF ok]
  have after: "table_after cs (x # xs) = table_after ?cs1 xs"
    by (simp add: table_after_def case_prod_unfold Let_def)
  have "held_sessions cs + (mset (fst (conn_step cs x)) + mset (fst (conn_run ?cs1 xs))) =
      mset (fst (snd (conn_step cs x))) + (held_sessions ?cs1 + mset (fst (conn_run ?cs1 xs)))"
    using x by (simp add: add.assoc [symmetric])
  then show ?case
    using x IH unfolding after
    by (auto simp: case_prod_unfold Let_def option.map_comp comp_def add.assoc add.commute [of 1])
qed

lemmas conn_eval = core_conn_t_init_def core_conn_t_get_def put_slot_def core_conn_t_activate_def
  core_conn_t_deactivate_def slot_activate_def slot_deactivate_def core_conn_t_clear_write_buf_def
  core_conn_t_destroy_protocol_session_def core_conn_t_set_protocol_session_def slot_init_def
  table_after_def

section \<open>Properties\<close>

text \<open>C17: a stale event is recognised: after an activation of a descriptor handed out generation \<open>g\<close>,
  and whatever happens to the table since, the pair of descriptor and \<open>g\<close> is valid exactly when the slot is
  active, not closing and not dead, and the number of activations of that descriptor since is a
  multiple of 2 to the 32; so no later connection on the descriptor answers to \<open>g\<close> for
  4294967295 activations, and the next one does again.\<close>

theorem stale_event_rejected:
  assumes "conn_ok cs" and "core_conn_t_get cs fd \<noteq> None" and "core_conn_t_activate cs fd = (g, freed, cs1)"
    and "core_conn_t_get (table_after cs1 history) fd = Some c"
  shows "core_conn_t_is_valid (table_after cs1 history) fd g \<longleftrightarrow>
     cn_active c \<and> cn_state c \<noteq> CONN_STATE_CLOSING \<and> cn_state c \<noteq> CONN_STATE_DEAD
     \<and> 2 ^ 32 dvd count_list history (Activate fd)"
proof -
  have cs1: "conn_ok cs1 \<and> gen_at cs1 fd = Some g"
    using conn_step_spec [OF assms(1), of "Activate fd" fd] assms(2,3) get_put_slot [OF assms(1)]
    by (auto simp: gen_at_def core_conn_t_activate_def case_prod_unfold Let_def)
  then have "cn_generation c = g + of_nat (count_list history (Activate fd))"
    using conn_run_spec [of cs1 history fd] assms(4) by (auto simp: gen_at_def)
  then show ?thesis
    using assms(4)
    by (auto simp: core_conn_t_is_valid_def slot_valid_def of_nat_eq_0_iff word_of_nat_eq_0_iff)
qed

theorem stale_event_rejected_witness:
  "let cs = snd (core_conn_t_init \<lparr> cs_max_fd = 3, cs_connections = None \<rparr> True (\<lambda>_. True));
       cs1 = snd (snd (core_conn_t_activate cs 2))
   in core_conn_t_is_valid (table_after cs1 [Activate 1, SetState 2 CONN_STATE_WRITING]) 2 1
    \<and> \<not> core_conn_t_is_valid (table_after cs1 [Deactivate 2, Activate 2]) 2 1"
proof -
  let ?cs = "snd (core_conn_t_init \<lparr> cs_max_fd = 3, cs_connections = None \<rparr> True (\<lambda>_. True))"
  let ?cs1 = "snd (snd (core_conn_t_activate ?cs 2))"
  have ok: "conn_ok ?cs" by (rule conn_ok_init) (simp add: core_conn_t_init_def)
  have act: "core_conn_t_activate ?cs 2 = (1, [], ?cs1)" "core_conn_t_get ?cs 2 \<noteq> None"
    by (simp_all add: conn_eval)
  note stale = stale_event_rejected [OF ok act(2) act(1)]
  obtain c1 where c1: "core_conn_t_get (table_after ?cs1 [Activate 1, SetState 2 CONN_STATE_WRITING]) 2 = Some c1"
      "cn_active c1" "cn_state c1 = CONN_STATE_WRITING"
    by (simp add: conn_eval)
  obtain c2 where c2: "core_conn_t_get (table_after ?cs1 [Deactivate 2, Activate 2]) 2 = Some c2"
    by (simp add: conn_eval)
  show ?thesis
    using stale [OF c1(1)] stale [OF c2] c1 by (simp add: Let_def)
qed



end
