(* ===== verification/Sec_Traffic.thy ===== *)
theory Sec_Traffic
  imports Http_Types
begin

text \<open>
  The rate limiter: src/security/halmos_sec_traffic.c.  A hash table of 10007 entries by client
  address, with linear probing, counts the requests of the running second; a janitor thread clears
  entries that were idle for more than ten seconds.

  The C array is a function on the indices below \<open>HASH_TABLE_SIZE\<close>; the clock is an argument.
\<close>

record RateEntry =
  re_ip :: string
  re_count :: int
  re_window :: int

type_synonym rate_table = "nat \<Rightarrow> RateEntry"

definition HASH_TABLE_SIZE :: nat where "HASH_TABLE_SIZE = 10007"

lemma HASH_TABLE_SIZE_pos [simp]: "0 < HASH_TABLE_SIZE"
  by (simp add: HASH_TABLE_SIZE_def)

definition zero_entry :: RateEntry where
  "zero_entry = \<lparr> re_ip = [], re_count = 0, re_window = 0 \<rparr>"

definition hash_ip :: "string \<Rightarrow> nat" where
  "hash_ip str = unat (djb2 str) mod HASH_TABLE_SIZE"

text \<open>The loop of \<open>sec_traffic_is_request_allowed\<close> up to the slot where it returns.\<close>

function probe :: "rate_table \<Rightarrow> string \<Rightarrow> nat \<Rightarrow> nat \<Rightarrow> nat option" where
  "probe t client_ip index i =
     (if i < HASH_TABLE_SIZE then
        let current_idx = (index + i) mod HASH_TABLE_SIZE
        in if re_ip (t current_idx) = [] \<or> re_ip (t current_idx) = client_ip then Some current_idx
           else probe t client_ip index (i + 1)
      else None)"
  by pat_completeness auto
termination by (relation "measure (\<lambda>(t, ip, index, i). HASH_TABLE_SIZE - i)") auto

declare probe.simps [simp del]

text \<open>What happens in that slot.\<close>

definition slot_request :: "string \<Rightarrow> int \<Rightarrow> int \<Rightarrow> RateEntry \<Rightarrow> bool \<times> RateEntry" where
  "slot_request client_ip limit_per_sec now e =
     (if re_ip e = [] then
        (True, \<lparr> re_ip = take 45 client_ip, re_count = 1, re_window = now \<rparr>)
      else if now > re_window e then (True, e\<lparr> re_count := 1, re_window := now \<rparr>)
      else if re_count e < limit_per_sec then (True, e\<lparr> re_count := re_count e + 1 \<rparr>)
      else if re_count e = limit_per_sec then (False, e\<lparr> re_count := re_count e + 1 \<rparr>)
      else (False, e))"

definition sec_traffic_is_request_allowed ::
  "string option \<Rightarrow> int \<Rightarrow> int \<Rightarrow> rate_table \<Rightarrow> bool \<times> rate_table" where
  "sec_traffic_is_request_allowed client_ip limit_per_sec now t =
     (case client_ip of
        None \<Rightarrow> (True, t)
      | Some ip \<Rightarrow>
          if ip = [] then (True, t)
          else case probe t ip (hash_ip ip) 0 of
                 None \<Rightarrow> (True, t)
               | Some j \<Rightarrow> let (ok, e) = slot_request ip limit_per_sec now (t j) in (ok, t(j := e)))"

section \<open>The janitor\<close>

definition reset_rate_limits :: "rate_table \<Rightarrow> rate_table" where
  "reset_rate_limits t = (\<lambda>i. zero_entry)"

definition clean_old_rate_limits :: "int \<Rightarrow> rate_table \<Rightarrow> rate_table" where
  "clean_old_rate_limits now t =
     (\<lambda>i. if i < HASH_TABLE_SIZE \<and> re_ip (t i) \<noteq> [] \<and> now - re_window (t i) > 10 then zero_entry else t i)"

record sec_state =
  sc_table :: rate_table
  sc_janitor_running :: bool

definition sec_traffic_start_janitor :: "bool \<Rightarrow> sec_state \<Rightarrow> sec_state" where
  "sec_traffic_start_janitor thread_ok s =
     (if sc_janitor_running s then s
      else s\<lparr> sc_table := reset_rate_limits (sc_table s), sc_janitor_running := thread_ok \<rparr>)"

definition sec_traffic_stop_janitor :: "sec_state \<Rightarrow> sec_state" where
  "sec_traffic_stop_janitor s = s\<lparr> sc_janitor_running := False \<rparr>"

text \<open>One wake-up of the janitor: whether it goes on, and the table.  It cleans after a timeout only.\<close>

definition janitor_turn :: "bool \<Rightarrow> int \<Rightarrow> sec_state \<Rightarrow> bool \<times> sec_state" where
  "janitor_turn timed_out now s =
     (if \<not> sc_janitor_running s then (False, s)
      else (True, if timed_out then s\<lparr> sc_table := clean_old_rate_limits now (sc_table s) \<rparr> else s))"

section \<open>Every entry is found from its hash\<close>

definition probe_ok :: "rate_table \<Rightarrow> bool" where
  "probe_ok t \<longleftrightarrow> (\<forall>j < HASH_TABLE_SIZE. re_ip (t j) \<noteq> [] \<longrightarrow>
     length (re_ip (t j)) \<le> 45 \<and> probe t (re_ip (t j)) (hash_ip (re_ip (t j))) 0 = Some j)"

lemma probe_ok_reset: "probe_ok (reset_rate_limits t)"
  by (simp add: probe_ok_def reset_rate_limits_def zero_entry_def)

lemma probe_Some:
  "probe t ip index i = Some j \<Longrightarrow> j < HASH_TABLE_SIZE \<and> (re_ip (t j) = [] \<or> re_ip (t j) = ip)"
proof (induction t ip index i rule: probe.induct)
  case (1 t ip index i)
  from "1.prems" show ?case
    by (subst (asm) probe.simps) (use "1.IH" in \<open>auto simp: Let_def split: if_splits\<close>)
qed

text \<open>A probe depends on the addresses stored only.\<close>

lemma probe_cong:
  "(\<And>j. re_ip (t' j) = re_ip (t j)) \<Longrightarrow> probe t' ip index i = probe t ip index i"
proof (induction t ip index i rule: probe.induct)
  case (1 t ip index i)
  show ?case
    by (subst (1 2) probe.simps) (use 1 in \<open>auto simp: Let_def\<close>)
qed

text \<open>Filling an empty slot changes neither the probes that end elsewhere nor the one that ends there.\<close>

lemma probe_fill:
  "probe t ip index i = Some j \<Longrightarrow> re_ip (t j0) = [] \<Longrightarrow> (j \<noteq> j0 \<or> a = ip) \<Longrightarrow> a \<noteq> [] \<Longrightarrow>
   (\<And>k. re_ip (t' k) = (if k = j0 then a else re_ip (t k))) \<Longrightarrow> probe t' ip index i = Some j"
proof (induction t ip index i rule: probe.induct)
  case (1 t ip index i)
  show ?case
    using "1.prems"(1)
    by (subst probe.simps; subst (asm) probe.simps)
      (use "1.prems"(2-) "1.IH" in \<open>auto simp: Let_def split: if_splits\<close>)
qed

text \<open>Where there is a free slot a probe ends.\<close>

lemma probe_None:
  "probe t ip index i = None \<Longrightarrow> i \<le> k \<Longrightarrow> k < HASH_TABLE_SIZE \<Longrightarrow>
     re_ip (t ((index + k) mod HASH_TABLE_SIZE)) \<noteq> []"
proof (induction t ip index i rule: probe.induct)
  case (1 t ip index i)
  from "1.prems" show ?case
    by (cases "k = i"; subst (asm) (2) probe.simps)
      (use "1.IH" in \<open>auto simp: Let_def split: if_splits\<close>)
qed

lemma free_slot_probe:
  assumes "k < HASH_TABLE_SIZE" and "re_ip (t k) = []" and "index < HASH_TABLE_SIZE"
  shows "\<exists>j. probe t ip index 0 = Some j"
proof (rule ccontr)
  assume "\<nexists>j. probe t ip index 0 = Some j"
  then have none: "probe t ip index 0 = None" by (cases "probe t ip index 0") auto
  let ?i = "(k + (HASH_TABLE_SIZE - index)) mod HASH_TABLE_SIZE"
  have "(index + ?i) mod HASH_TABLE_SIZE = k"
    using assms(1,3) by (simp add: mod_add_right_eq)
  then show False using probe_None [OF none, of ?i] assms(2) by simp
qed

lemma hash_ip_less: "hash_ip ip < HASH_TABLE_SIZE"
  by (simp add: hash_ip_def)

lemma slot_request_ip:
  "ip \<noteq> [] \<Longrightarrow> length ip \<le> 45 \<Longrightarrow> re_ip e = [] \<or> re_ip e = ip \<Longrightarrow>
     re_ip (snd (slot_request ip limit now e)) = ip"
  by (auto simp: slot_request_def)

lemma request_probe_ok:
  assumes ok: "probe_ok t" and ip: "ip \<noteq> []" "length ip \<le> 45" and j: "probe t ip (hash_ip ip) 0 = Some j"
  shows "probe_ok (t(j := snd (slot_request ip limit now (t j))))" (is "probe_ok ?t'")
proof -
  from probe_Some [OF j] have j': "j < HASH_TABLE_SIZE" "re_ip (t j) = [] \<or> re_ip (t j) = ip" by auto
  have new: "re_ip (?t' j) = ip" using slot_request_ip [OF ip j'(2)] by simp
  show ?thesis
  proof (cases "re_ip (t j) = []")
    case True
    have ips: "re_ip (?t' k) = (if k = j then ip else re_ip (t k))" for k using new by simp
    have "probe ?t' (re_ip (?t' k)) (hash_ip (re_ip (?t' k))) 0 = Some k"
      if "k < HASH_TABLE_SIZE" "re_ip (?t' k) \<noteq> []" for k
    proof (cases "k = j")
      case True
      then show ?thesis
        using probe_fill [where t' = ?t', OF j \<open>re_ip (t j) = []\<close> _ ip(1) ips] new by simp
    next
      case False
      then have "probe t (re_ip (t k)) (hash_ip (re_ip (t k))) 0 = Some k"
        using ok that by (simp add: probe_ok_def)
      from probe_fill [where t' = ?t', OF this \<open>re_ip (t j) = []\<close> _ ip(1) ips] False show ?thesis by simp
    qed
    then show ?thesis using ok ip(2) new by (auto simp: probe_ok_def)
  next
    case False
    then have ips: "re_ip (?t' k) = re_ip (t k)" for k using j'(2) new by simp
    then show ?thesis using ok by (simp add: probe_ok_def probe_cong [OF ips])
  qed
qed

section \<open>What one address is allowed\<close>

text \<open>A run of requests within one second: the answers and the table.\<close>

fun serve :: "int \<Rightarrow> int \<Rightarrow> rate_table \<Rightarrow> string list \<Rightarrow> bool list \<times> rate_table" where
  "serve limit now t [] = ([], t)"
| "serve limit now t (ip # ips) =
     (let (ok, t1) = sec_traffic_is_request_allowed (Some ip) limit now t;
          (oks, t2) = serve limit now t1 ips
      in (ok # oks, t2))"

definition allowed_for :: "string \<Rightarrow> int \<Rightarrow> int \<Rightarrow> rate_table \<Rightarrow> string list \<Rightarrow> nat" where
  "allowed_for p limit now t ips =
     length (filter (\<lambda>(ip, ok). ip = p \<and> ok) (zip ips (fst (serve limit now t ips))))"

definition free_slots :: "rate_table \<Rightarrow> nat" where
  "free_slots t = card {j. j < HASH_TABLE_SIZE \<and> re_ip (t j) = []}"

text \<open>How much an address may still do in this second, by its entry if it has one.\<close>

definition budget :: "string \<Rightarrow> int \<Rightarrow> int \<Rightarrow> rate_table \<Rightarrow> nat" where
  "budget p limit now t =
     (case probe t p (hash_ip p) 0 of
        None \<Rightarrow> 0
      | Some j \<Rightarrow> if re_ip (t j) = [] \<or> now > re_window (t j) then nat (max 1 limit)
                  else nat (limit - re_count (t j)))"

text \<open>What one request does to the budget of its address and of the others, and to the free slots.\<close>

lemma request_Some:
  assumes "ip \<noteq> []" and "probe t ip (hash_ip ip) 0 = Some j"
  shows "sec_traffic_is_request_allowed (Some ip) limit now t =
    (fst (slot_request ip limit now (t j)), t(j := snd (slot_request ip limit now (t j))))"
  using assms by (simp add: sec_traffic_is_request_allowed_def case_prod_unfold Let_def)

lemma own_budget:
  assumes "ip \<noteq> []" and "length ip \<le> 45" and "probe t ip (hash_ip ip) 0 = Some j"
    and "sec_traffic_is_request_allowed (Some ip) limit now t = (ok, t1)"
  shows "(if ok then 1 else 0) + budget ip limit now t1 \<le> budget ip limit now t"
    and "re_ip (t1 j) = ip"
proof -
  note slot = probe_Some [OF assms(3)]
  have t1: "t1 = t(j := snd (slot_request ip limit now (t j)))" "ok = fst (slot_request ip limit now (t j))"
    using assms(4) request_Some [OF assms(1,3)] by simp_all
  show new: "re_ip (t1 j) = ip" using slot_request_ip [OF assms(1,2)] slot t1 by simp
  have ips: "re_ip (t1 k) = (if k = j then ip else re_ip (t k))" for k using new t1 by simp
  have "probe t1 ip (hash_ip ip) 0 = Some j"
  proof (cases "re_ip (t j) = []")
    case True
    from probe_fill [where t' = t1, OF assms(3) True _ assms(1) ips] show ?thesis by simp
  next
    case False
    with slot have "re_ip (t1 k) = re_ip (t k)" for k using ips by auto
    from probe_cong [where t' = t1, OF this] assms(3) show ?thesis by simp
  qed
  then show "(if ok then 1 else 0) + budget ip limit now t1 \<le> budget ip limit now t"
    using assms(1,3) slot new by (auto simp: budget_def t1 slot_request_def)
qed

lemma other_budget:
  assumes "ip \<noteq> []" and "length ip \<le> 45" and "ip \<noteq> p"
    and "\<exists>k < HASH_TABLE_SIZE. re_ip (t k) = p" and "probe_ok t" and "p \<noteq> []"
  shows "budget p limit now (snd (sec_traffic_is_request_allowed (Some ip) limit now t)) = budget p limit now t"
    and "\<exists>k < HASH_TABLE_SIZE. re_ip (snd (sec_traffic_is_request_allowed (Some ip) limit now t) k) = p"
proof -
  obtain k where k: "k < HASH_TABLE_SIZE" "re_ip (t k) = p" using assms(4) by auto
  then have pk: "probe t p (hash_ip p) 0 = Some k" using assms(5,6) by (auto simp: probe_ok_def)
  let ?t1 = "snd (sec_traffic_is_request_allowed (Some ip) limit now t)"
  have "?t1 k = t k \<and> probe ?t1 p (hash_ip p) 0 = Some k"
  proof (cases "probe t ip (hash_ip ip) 0")
    case None
    then show ?thesis using assms(1) pk by (simp add: sec_traffic_is_request_allowed_def)
  next
    case (Some j)
    note slot = probe_Some [OF Some]
    have "j \<noteq> k" using slot k assms(3,6) by auto
    have t1: "?t1 = t(j := snd (slot_request ip limit now (t j)))"
      using request_Some [OF assms(1) Some] by simp
    have ips: "re_ip (?t1 i) = (if i = j then ip else re_ip (t i))" for i
      using slot_request_ip [OF assms(1,2)] slot t1 by auto
    have "probe ?t1 p (hash_ip p) 0 = Some k"
    proof (cases "re_ip (t j) = []")
      case True
      from probe_fill [where t' = ?t1, OF pk True _ assms(1) ips] \<open>j \<noteq> k\<close> show ?thesis by simp
    next
      case False
      with slot ips have "re_ip (?t1 i) = re_ip (t i)" for i by auto
      from probe_cong [where t' = ?t1, OF this] pk show ?thesis by simp
    qed
    with \<open>j \<noteq> k\<close> t1 show ?thesis by simp
  qed
  with pk k show "budget p limit now ?t1 = budget p limit now t" "\<exists>k < HASH_TABLE_SIZE. re_ip (?t1 k) = p"
    by (auto simp: budget_def)
qed

lemma request_keeps_ok:
  assumes "probe_ok t" and "ip \<noteq> []" and "length ip \<le> 45"
  shows "probe_ok (snd (sec_traffic_is_request_allowed (Some ip) limit now t))"
proof (cases "probe t ip (hash_ip ip) 0")
  case None
  then show ?thesis using assms by (simp add: sec_traffic_is_request_allowed_def)
next
  case (Some j)
  from request_Some [OF assms(2) this] request_probe_ok [OF assms Some] show ?thesis by simp
qed

definition addresses_ok :: "string list \<Rightarrow> bool" where
  "addresses_ok ips \<longleftrightarrow> (\<forall>ip \<in> set ips. ip \<noteq> [] \<and> length ip \<le> 45)"

lemma known_address_budget:
  "probe_ok t \<Longrightarrow> addresses_ok ips \<Longrightarrow> p \<noteq> [] \<Longrightarrow> \<exists>k < HASH_TABLE_SIZE. re_ip (t k) = p \<Longrightarrow>
     allowed_for p limit now t ips \<le> budget p limit now t"
proof (induction ips arbitrary: t)
  case Nil
  then show ?case by (simp add: allowed_for_def)
next
  case (Cons ip ips)
  obtain ok t1 where req: "sec_traffic_is_request_allowed (Some ip) limit now t = (ok, t1)" by fastforce
  have ip: "ip \<noteq> []" "length ip \<le> 45" using Cons.prems(2) by (simp_all add: addresses_ok_def)
  have "probe_ok t1" using request_keeps_ok [OF Cons.prems(1) ip, of limit now] req by simp
  have rec: "allowed_for p limit now t (ip # ips) =
      (if ip = p \<and> ok then 1 else 0) + allowed_for p limit now t1 ips"
    by (simp add: allowed_for_def req case_prod_unfold Let_def)
  have step: "(if ip = p \<and> ok then 1 else 0) + budget p limit now t1 \<le> budget p limit now t
      \<and> (\<exists>k < HASH_TABLE_SIZE. re_ip (t1 k) = p)"
  proof (cases "ip = p")
    case True
    obtain k where k: "k < HASH_TABLE_SIZE" "re_ip (t k) = p" using Cons.prems(4) by auto
    then have "probe t ip (hash_ip ip) 0 = Some k" using Cons.prems(1) True ip by (auto simp: probe_ok_def)
    from own_budget [OF ip this req] k(1) True show ?thesis by auto
  next
    case False
    from other_budget [OF ip False Cons.prems(4,1,3), of limit now] req False show ?thesis by simp
  qed
  have "allowed_for p limit now t1 ips \<le> budget p limit now t1"
    by (rule Cons.IH) (use \<open>probe_ok t1\<close> step Cons.prems in \<open>auto simp: addresses_ok_def\<close>)
  with step rec show ?case by linarith
qed

text \<open>The invariant of the table, and the free slots one request can use up.\<close>

definition rate_ok :: "rate_table \<Rightarrow> bool" where
  "rate_ok t \<longleftrightarrow> probe_ok t \<and> (\<forall>j. 0 \<le> re_count (t j))"

lemma request_rate_ok:
  assumes "rate_ok t" and "ip \<noteq> []" and "length ip \<le> 45"
  shows "rate_ok (snd (sec_traffic_is_request_allowed (Some ip) limit now t))"
proof -
  have "0 \<le> re_count (snd (sec_traffic_is_request_allowed (Some ip) limit now t) j)" for j
    using assms(1) by (auto simp: rate_ok_def sec_traffic_is_request_allowed_def slot_request_def
        case_prod_unfold Let_def split: option.split)
  then show ?thesis using request_keeps_ok [OF _ assms(2,3)] assms(1) by (simp add: rate_ok_def)
qed

lemma request_free_slots:
  "free_slots t \<le> Suc (free_slots (snd (sec_traffic_is_request_allowed (Some ip) limit now t)))"
proof -
  let ?t1 = "snd (sec_traffic_is_request_allowed (Some ip) limit now t)"
  have "\<exists>j. \<forall>k. k \<noteq> j \<longrightarrow> ?t1 k = t k"
    by (cases "ip = []"; cases "probe t ip (hash_ip ip) 0")
      (auto simp: sec_traffic_is_request_allowed_def case_prod_unfold Let_def)
  then obtain j where "\<And>k. k \<noteq> j \<Longrightarrow> ?t1 k = t k" by blast
  then have "{k. k < HASH_TABLE_SIZE \<and> re_ip (t k) = []} \<subseteq> insert j {k. k < HASH_TABLE_SIZE \<and> re_ip (?t1 k) = []}"
    by auto
  then have "free_slots t \<le> card (insert j {k. k < HASH_TABLE_SIZE \<and> re_ip (?t1 k) = []})"
    unfolding free_slots_def by (rule card_mono [rotated]) simp
  also have "\<dots> \<le> Suc (free_slots ?t1)" unfolding free_slots_def by (rule card_insert_le_m1) simp_all
  finally show ?thesis .
qed

lemma budget_le:
  "rate_ok t \<Longrightarrow> budget p limit now t \<le> nat (max 1 limit)"
  unfolding rate_ok_def budget_def
  by (auto split: option.split intro!: nat_mono) (smt (verit, best))

lemma free_table_budget:
  "rate_ok t \<Longrightarrow> addresses_ok ips \<Longrightarrow> p \<noteq> [] \<Longrightarrow>
   length ips \<le> free_slots t \<or> (\<exists>k < HASH_TABLE_SIZE. re_ip (t k) = p) \<Longrightarrow>
     allowed_for p limit now t ips \<le> nat (max 1 limit)"
proof (induction ips arbitrary: t)
  case Nil
  then show ?case by (simp add: allowed_for_def)
next
  case (Cons ip ips)
  show ?case
  proof (cases "\<exists>k < HASH_TABLE_SIZE. re_ip (t k) = p")
    case True
    from known_address_budget [OF _ Cons.prems(2,3) True] budget_le [OF Cons.prems(1)] Cons.prems(1)
    show ?thesis by (meson le_trans rate_ok_def)
  next
    case False
    then have free: "length (ip # ips) \<le> free_slots t" using Cons.prems(4) by blast
    obtain ok t1 where req: "sec_traffic_is_request_allowed (Some ip) limit now t = (ok, t1)" by fastforce
    have ip: "ip \<noteq> []" "length ip \<le> 45" "addresses_ok ips"
      using Cons.prems(2) by (simp_all add: addresses_ok_def)
    have t1: "rate_ok t1" "length ips \<le> free_slots t1"
      using request_rate_ok [OF Cons.prems(1) ip(1,2), of limit now] request_free_slots [of t ip limit now]
        free req by simp_all
    have rec: "allowed_for p limit now t (ip # ips) =
        (if ip = p \<and> ok then 1 else 0) + allowed_for p limit now t1 ips"
      by (simp add: allowed_for_def req case_prod_unfold Let_def)
    show ?thesis
    proof (cases "ip = p")
      case False
      then show ?thesis using rec Cons.IH [OF t1(1) ip(3) Cons.prems(3)] t1(2) by simp
    next
      case True
      have "0 < card {j. j < HASH_TABLE_SIZE \<and> re_ip (t j) = []}" using free by (simp add: free_slots_def)
      then obtain k where "k < HASH_TABLE_SIZE" "re_ip (t k) = []" by (auto simp: card_gt_0_iff)
      from free_slot_probe [of k t "hash_ip ip" ip, OF this hash_ip_less] obtain j where j: "probe t ip (hash_ip ip) 0 = Some j" by blast
      note own = own_budget [OF ip(1,2) j req]
      have "\<exists>k < HASH_TABLE_SIZE. re_ip (t1 k) = p" using own(2) probe_Some [OF j] True by blast
      from known_address_budget [OF _ ip(3) Cons.prems(3) this, of limit now] t1(1)
      have "allowed_for p limit now t1 ips \<le> budget p limit now t1" by (simp add: rate_ok_def)
      with own(1) rec True budget_le [OF Cons.prems(1), of p limit now] show ?thesis by simp
    qed
  qed
qed

section \<open>Properties\<close>


lemma free_slots_reset: "free_slots (reset_rate_limits t) = HASH_TABLE_SIZE"
  by (simp add: free_slots_def reset_rate_limits_def zero_entry_def)

lemma rate_ok_reset: "rate_ok (reset_rate_limits t)"
  by (simp add: rate_ok_def probe_ok_reset) (simp add: reset_rate_limits_def zero_entry_def)


text \<open>The janitor opens the limit: when an address was displaced from the slot of its hash by another
  whose entry is then cleared, its own entry is no longer found: the next request is allowed whatever
  was counted in this second, and the table holds the address twice.\<close>

theorem rate_limit_cleanup_bypass:
  assumes "p \<noteq> []" and "length p \<le> 45" and "k < HASH_TABLE_SIZE" and "k \<noteq> hash_ip p" and "re_ip (t k) = p"
    and "re_ip (t (hash_ip p)) \<noteq> []" and "now - re_window (t (hash_ip p)) > 10" and "now - re_window (t k) \<le> 10"
  shows "\<exists>t1. sec_traffic_is_request_allowed (Some p) limit now (clean_old_rate_limits now t) = (True, t1)
     \<and> t1 k = t k \<and> re_ip (t1 (hash_ip p)) = p \<and> re_count (t1 (hash_ip p)) = 1 \<and> \<not> probe_ok t1"
proof -
  let ?t = "clean_old_rate_limits now t" and ?h = "hash_ip p"
  have h: "re_ip (?t ?h) = []" and k: "?t k = t k"
    using assms hash_ip_less [of p] by (simp_all add: clean_old_rate_limits_def zero_entry_def)
  have "probe ?t p ?h 0 = Some ?h"
    using h hash_ip_less [of p] by (subst probe.simps) (simp add: Let_def)
  note req = request_Some [OF assms(1) this, of limit now]
  let ?t1 = "?t(?h := snd (slot_request p limit now (?t ?h)))"
  have new: "slot_request p limit now (?t ?h) = (True, \<lparr> re_ip = p, re_count = 1, re_window = now \<rparr>)"
    using h assms(2) by (simp add: slot_request_def)
  have "probe ?t1 p ?h 0 = Some ?h"
    using new hash_ip_less [of p] by (subst probe.simps) (simp add: Let_def)
  moreover have "re_ip (?t1 k) = p" using k assms(4,5) by simp
  ultimately have "\<not> probe_ok ?t1"
    using assms(1,3,4) unfolding probe_ok_def by (metis option.inject)
  then show ?thesis using req new k assms(4) by simp
qed

definition crowded_table :: rate_table where
  "crowded_table = (\<lambda>_. zero_entry)
     (6148 := \<lparr> re_ip = ''1.0.0.0'', re_count = 1, re_window = 0 \<rparr>,
      6149 := \<lparr> re_ip = ''1.7.4.7'', re_count = 3, re_window = 11 \<rparr>)"

lemma crowded_hash: "hash_ip ''1.7.4.7'' = 6148"
  by (simp add: hash_ip_def djb2_def schar_def HASH_TABLE_SIZE_def push_bit_eq_mult)

theorem rate_limit_cleanup_bypass_witness:
  "\<not> fst (sec_traffic_is_request_allowed (Some ''1.7.4.7'') 2 11 crowded_table)
   \<and> fst (sec_traffic_is_request_allowed (Some ''1.7.4.7'') 2 11 (clean_old_rate_limits 11 crowded_table))"
proof -
  have "probe crowded_table ''1.7.4.7'' 6148 0 = Some 6149"
    by (subst probe.simps, subst probe.simps) (simp add: crowded_table_def HASH_TABLE_SIZE_def Let_def)
  then have "\<not> fst (sec_traffic_is_request_allowed (Some ''1.7.4.7'') 2 11 crowded_table)"
    by (simp add: sec_traffic_is_request_allowed_def crowded_hash slot_request_def crowded_table_def)
  then show ?thesis
    using rate_limit_cleanup_bypass [of "''1.7.4.7''" 6149 crowded_table 11 2]
    by (auto simp: crowded_hash HASH_TABLE_SIZE_def) (auto simp: crowded_table_def)
qed

end
