(* ===== verification/Adaptive.thy ===== *)
theory Adaptive
  imports Http_Utils
begin

text \<open>
  The capacity planning at start-up: src/core/halmos_core_adaptive.c.  From the cores, the
  descriptor limit, the memory and the configured backends it computes the limits of the worker
  pool, the task queue and the FastCGI quotas, and it reads the PHP-FPM configuration for one of them.

  What the operating system answers is an argument.  \<open>unsigned long\<close> is 64 bits wide and wraps;
  a conversion to \<open>int\<close> keeps the low 32 bits.  The report it prints is not modelled.
\<close>

section \<open>The PHP-FPM configuration\<close>

record PHPConfig =
  pc_max_children :: int
  pc_backlog :: int
  pc_mode :: string

definition php_default :: PHPConfig where
  "php_default = \<lparr> pc_max_children = 50, pc_backlog = 511, pc_mode = ''dynamic'' \<rparr>"

text \<open>
  \<open>strtol\<close> with its error reporting, as the parser tests it: \<open>Some\<close> of the value if there were digits
  and the value is in range.
\<close>

definition strtol_checked :: "string \<Rightarrow> int option" where
  "strtol_checked s =
     (let t = dropWhile c_isspace s;
          neg = (t \<noteq> [] \<and> hd t = CHR ''-'');
          u = (if t \<noteq> [] \<and> (hd t = CHR ''-'' \<or> hd t = CHR ''+'') then tl t else t);
          ds = takeWhile c_isdigit u;
          v = (if neg then - int (digits_val ds) else int (digits_val ds))
      in if ds = [] \<or> v < - (2 ^ 63) \<or> v \<ge> 2 ^ 63 then None else Some v)"

text \<open>What stands after the first \<open>'='\<close>; the value of a positive number there.\<close>

definition after_eq :: "string \<Rightarrow> string option" where
  "after_eq s = (case dropWhile (\<lambda>c. c \<noteq> CHR ''='') s of [] \<Rightarrow> None | _ # t \<Rightarrow> Some t)"

definition positive_value :: "string \<Rightarrow> int option" where
  "positive_value s = (case after_eq s of None \<Rightarrow> None
     | Some t \<Rightarrow> (case strtol_checked t of None \<Rightarrow> None | Some v \<Rightarrow> if v > 0 then Some (c_int v) else None))"

text \<open>A line without its end, its comment and its leading blanks.  A \<open>';'\<close> is looked for first.\<close>

definition clean_line :: "string \<Rightarrow> string" where
  "clean_line line =
     (let l = takeWhile (\<lambda>c. c \<noteq> CHR 0x0A \<and> c \<noteq> CHR 0x0D) line;
          l' = (if CHR '';'' \<in> set l then takeWhile (\<lambda>c. c \<noteq> CHR '';'') l
                else takeWhile (\<lambda>c. c \<noteq> CHR ''#'') l)
      in dropWhile (\<lambda>c. c = CHR '' '' \<or> c = CHR 0x09) l')"

definition php_mode :: "string \<Rightarrow> PHPConfig \<Rightarrow> PHPConfig" where
  "php_mode p cfg =
     (case after_eq p of
        None \<Rightarrow> cfg
      | Some t \<Rightarrow>
          if CHR ''.'' \<in> set (takeWhile (\<lambda>c. c \<noteq> CHR ''='') p) then cfg
          else let w = take 15 (takeWhile (\<lambda>c. \<not> c_isspace c) (dropWhile c_isspace t))
               in if w = [] then cfg else cfg\<lparr> pc_mode := w \<rparr>)"

definition php_line :: "PHPConfig \<Rightarrow> string \<Rightarrow> PHPConfig" where
  "php_line cfg line =
     (let p = clean_line line
      in if p = [] then cfg
         else if c_strstr p ''pm.max_children'' \<noteq> None then
           (case positive_value p of Some v \<Rightarrow> cfg\<lparr> pc_max_children := v \<rparr> | None \<Rightarrow> cfg)
         else if c_strstr p ''listen.backlog'' \<noteq> None then
           (case positive_value p of Some v \<Rightarrow> cfg\<lparr> pc_backlog := v \<rparr> | None \<Rightarrow> cfg)
         else if c_strstr p ''pm'' \<noteq> None \<and> (c_strstr p ''pm ='' \<noteq> None \<or> c_strstr p ''pm='' \<noteq> None)
         then php_mode p cfg
         else cfg)"

text \<open>The file, if there is a path and it opens, as the lines \<open>fgets\<close> hands out.\<close>

definition fetch_php_fpm_config :: "string \<Rightarrow> string list option \<Rightarrow> PHPConfig" where
  "fetch_php_fpm_config path conf =
     (if path = [] then php_default
      else case conf of None \<Rightarrow> php_default | Some ls \<Rightarrow> foldl php_line php_default ls)"

section \<open>Capacity\<close>

definition MAX_EVENT_BATCH_SIZE :: int where "MAX_EVENT_BATCH_SIZE = 1024"
definition MAX_QUEUE_CAPACITY :: int where "MAX_QUEUE_CAPACITY = 4096"

datatype fd_limit = Unlimited | Limit int

record machine =
  ma_num_cores :: int
  ma_rlimit :: "fd_limit option"
  ma_totalram :: "(u64 \<times> u64) option"

record backend_config =
  bc_memory_budget :: int
  bc_node_count :: int
  bc_ext :: string

record adaptive_config =
  ac_php :: backend_config
  ac_python :: backend_config
  ac_rust :: backend_config
  ac_php_fpm_config_path :: string

record capacity =
  ca_max_fd :: u32
  ca_worker_max :: int
  ca_worker_min :: int
  ca_php_quota :: int
  ca_python_quota :: int
  ca_rust_quota :: int
  ca_pool_size :: int
  ca_event_batch_size :: int
  ca_queue_capacity :: int

text \<open>\<open>RLIMIT_NOFILE\<close>, 4096 when it cannot be read, brought to 32 bits and to at least 64.\<close>

definition adaptive_max_fd :: "fd_limit option \<Rightarrow> u32" where
  "adaptive_max_fd r =
     (let calculated = (case r of None \<Rightarrow> 4096 | Some Unlimited \<Rightarrow> 65536
                        | Some (Limit n) \<Rightarrow> if n > 2 ^ 32 - 1 then - 1 else word_of_int n) :: u32
      in if calculated < 64 then 64 else calculated)"

definition total_ram_mb :: "(u64 \<times> u64) option \<Rightarrow> u64" where
  "total_ram_mb si =
     (let mb = (case si of None \<Rightarrow> 0 | Some (totalram, mem_unit) \<Rightarrow> (totalram * mem_unit) div (1024 * 1024))
      in if mb = 0 then 1024 else mb)"

definition reserved_ram_mb :: "u64 \<Rightarrow> u64" where
  "reserved_ram_mb ram =
     (let r = ram div 4; r = (if r < 1024 then 1024 else r) in if r > 4096 then 4096 else r)"

text \<open>The shares of the memory by the set of active backends: PHP, Python, Rust.\<close>

definition budget_ram :: "u64 \<Rightarrow> bool \<Rightarrow> bool \<Rightarrow> bool \<Rightarrow> u64 \<times> u64 \<times> u64" where
  "budget_ram avail php python rust =
     (if php \<and> python \<and> rust then ((avail * 50) div 100, (avail * 30) div 100, (avail * 20) div 100)
      else if php \<and> python then ((avail * 60) div 100, (avail * 40) div 100, 0)
      else if php \<and> rust then ((avail * 70) div 100, 0, (avail * 30) div 100)
      else if python \<and> rust then (0, (avail * 60) div 100, (avail * 40) div 100)
      else (if php then avail else 0, if python then avail else 0, if rust then avail else 0))"

text \<open>\<open>(int) (budget / per_process)\<close>.\<close>

definition fit_int :: "u64 \<Rightarrow> int \<Rightarrow> int" where
  "fit_int budget per_process = c_int (uint (budget div word_of_int per_process))"

definition group_active :: "backend_config \<Rightarrow> bool" where
  "group_active b \<longleftrightarrow> bc_node_count b > 0 \<or> length (bc_ext b) > 0"

definition php_active :: "adaptive_config \<Rightarrow> bool" where
  "php_active cfg \<longleftrightarrow> bc_node_count (ac_php cfg) > 0 \<or> length (ac_php_fpm_config_path cfg) > 0"

definition mem_budget :: "backend_config \<Rightarrow> int \<Rightarrow> int" where
  "mem_budget b d = (if bc_memory_budget b > 0 then bc_memory_budget b else d)"

definition recommended_workers :: "int \<Rightarrow> int \<Rightarrow> int" where
  "recommended_workers cpu_based_max ram_sum =
     (let ram_total_max = (if ram_sum < 32 then 32 else ram_sum);
          v = (if cpu_based_max < ram_total_max then cpu_based_max else ram_total_max);
          v = (if v > 1024 then 1024 else v)
      in if v < 32 then 32 else v)"

text \<open>What is left after PHP goes to Python and Rust in the proportion of their memory.\<close>

definition split_quota :: "int \<Rightarrow> bool \<Rightarrow> bool \<Rightarrow> u64 \<Rightarrow> u64 \<Rightarrow> int \<times> int" where
  "split_quota sisa python rust python_ram rust_ram =
     (if python \<and> rust then
        let py_rust = python_ram + rust_ram;
            p = (if py_rust > 0 then c_int (uint ((word_of_int sisa * python_ram) div py_rust)) else sisa div 2)
        in (p, sisa - p)
      else if python then (sisa, 0)
      else if rust then (0, sisa)
      else (0, 0))"

definition queue_capacity :: "u32 \<Rightarrow> int \<Rightarrow> int" where
  "queue_capacity max_fd worker_max =
     (let c = (if max_fd > word_of_int worker_max
               then c_int (uint (((max_fd - word_of_int worker_max) * 60) div 100)) else 256);
          c = (if c > MAX_QUEUE_CAPACITY then MAX_QUEUE_CAPACITY else c)
      in if c < 256 then 256 else c)"

definition core_adaptive_init :: "machine \<Rightarrow> adaptive_config \<Rightarrow> string list option \<Rightarrow> capacity" where
  "core_adaptive_init m cfg php_fpm_file =
     (let num_cores = (if ma_num_cores m < 1 then 1 else ma_num_cores m);
          max_fd = adaptive_max_fd (ma_rlimit m);
          ram = total_ram_mb (ma_totalram m);
          is_php = php_active cfg;
          is_python = group_active (ac_python cfg);
          is_rust = group_active (ac_rust cfg);
          avail = ram - reserved_ram_mb ram;
          (php_ram, python_ram, rust_ram) = budget_ram avail is_php is_python is_rust;
          max_php = (if is_php then fit_int php_ram (mem_budget (ac_php cfg) 20) else 0);
          max_python = (if is_python then fit_int python_ram (mem_budget (ac_python cfg) 40) else 0);
          max_rust = (if is_rust then fit_int rust_ram (mem_budget (ac_rust cfg) 15) else 0);
          worker_max = recommended_workers (c_int (num_cores * 64)) (c_int (max_php + max_python + max_rust));
          min0 = c_int (num_cores * 4);
          worker_min = (if min0 > worker_max then worker_max else min0);
          php = fetch_php_fpm_config (ac_php_fpm_config_path cfg) php_fpm_file;
          php_quota = (if is_php then pc_max_children php else 0);
          sisa = (if worker_max - php_quota < 0 then 0 else worker_max - php_quota);
          (python_quota, rust_quota) = split_quota sisa is_python is_rust python_ram rust_ram
      in \<lparr> ca_max_fd = max_fd, ca_worker_max = worker_max, ca_worker_min = worker_min,
           ca_php_quota = php_quota, ca_python_quota = python_quota, ca_rust_quota = rust_quota,
           ca_pool_size = php_quota + rust_quota + python_quota,
           ca_event_batch_size = (if worker_max > MAX_EVENT_BATCH_SIZE then MAX_EVENT_BATCH_SIZE else worker_max),
           ca_queue_capacity = queue_capacity max_fd worker_max \<rparr>)"

section \<open>Bounds\<close>

lemma recommended_workers_bounds: "32 \<le> recommended_workers c r \<and> recommended_workers c r \<le> 1024"
  by (simp add: recommended_workers_def Let_def)

lemma queue_capacity_bounds: "256 \<le> queue_capacity fd w \<and> queue_capacity fd w \<le> 4096"
  by (simp add: queue_capacity_def MAX_QUEUE_CAPACITY_def Let_def)

lemma split_quota_sum: "python \<or> rust \<Longrightarrow> split_quota s python rust p r = (a, b) \<Longrightarrow> a + b = s"
  by (auto simp: split_quota_def Let_def split: if_splits)

text \<open>The parts of the result, by their names in the source.\<close>

lemma core_adaptive_init_fields:
  assumes c_def: "c = core_adaptive_init m cfg conf"
  shows "\<exists>cpu ram. ca_worker_max c = recommended_workers cpu ram"
    and "ca_worker_min c \<le> ca_worker_max c"
    and "ca_queue_capacity c = queue_capacity (ca_max_fd c) (ca_worker_max c)"
    and "ca_max_fd c = adaptive_max_fd (ma_rlimit m)"
    and "ca_event_batch_size c = (if ca_worker_max c > 1024 then 1024 else ca_worker_max c)"
    and "ca_php_quota c = (if php_active cfg
           then pc_max_children (fetch_php_fpm_config (ac_php_fpm_config_path cfg) conf) else 0)"
    and "ca_pool_size c = ca_php_quota c + ca_python_quota c + ca_rust_quota c"
    and "\<exists>p r. split_quota (max 0 (ca_worker_max c - ca_php_quota c)) (group_active (ac_python cfg))
           (group_active (ac_rust cfg)) p r = (ca_python_quota c, ca_rust_quota c)"
    and "ca_worker_min c = min (ca_worker_max c) (c_int ((if ma_num_cores m < 1 then 1 else ma_num_cores m) * 4))"
  unfolding c_def core_adaptive_init_def Let_def case_prod_unfold
  by (auto simp: MAX_EVENT_BATCH_SIZE_def max_def min_def split: if_splits intro!: prod_eqI exI)

text \<open>The capacity of the queue in terms of numbers, while 60 times the rest fits in 32 bits.\<close>

lemma queue_capacity_nat:
  assumes "32 \<le> w" and "w \<le> 1024" and "w < int (unat fd)" and "unat fd \<le> 70000000"
  shows "queue_capacity fd w = max 256 (min 4096 ((int (unat fd) - w) * 60 div 100))"
proof -
  define n where "n = nat w"
  then have n: "w = int n" "n < unat fd" "n \<le> 1024" "32 \<le> n" using assms by linarith+
  have wn: "word_of_int w = (word_of_nat n :: u32)" using n(1) by simp
  have un: "unat (word_of_nat n :: u32) = n" using n(3) by (simp add: unat_of_nat)
  then have less: "(word_of_nat n :: u32) < fd" using n(2) by (simp add: word_less_nat_alt)
  have sub: "unat (fd - word_of_nat n) = unat fd - n"
    using less un by (simp add: unat_sub order_less_imp_le)
  have "unat ((fd - word_of_nat n) * 60) = (unat fd - n) * 60"
    using assms(4) by (subst unat_mult_lem [THEN iffD1]) (simp_all add: sub)
  then have "unat (((fd - word_of_nat n) * 60) div 100) = (unat fd - n) * 60 div 100"
    by (simp add: unat_div)
  then have "uint (((fd - word_of_nat n) * 60) div 100) = int ((unat fd - n) * 60 div 100)"
    by (simp only: uint_nat)
  also have "\<dots> = (int (unat fd) - w) * 60 div 100"
    by (simp only: n(1) zdiv_int of_nat_mult of_nat_diff [OF order_less_imp_le [OF n(2)]] of_nat_numeral)
  finally have "uint (((fd - word_of_nat n) * 60) div 100) = (int (unat fd) - w) * 60 div 100" .
  moreover have "x * 60 div 100 < 2147483648 \<and> 0 \<le> x * 60 div 100" if "0 \<le> x" "x \<le> 70000000" for x :: int
    using that by auto
  moreover have "0 \<le> int (unat fd) - w" "int (unat fd) - w \<le> 70000000" using assms by linarith+
  ultimately have "c_int (uint (((fd - word_of_nat n) * 60) div 100)) = (int (unat fd) - w) * 60 div 100"
    by (simp only:) (rule c_int_id; simp)
  then show ?thesis
    unfolding queue_capacity_def Let_def wn using less
    by (simp only: MAX_QUEUE_CAPACITY_def max_def min_def if_True) (simp only: not_le [symmetric] split: if_split; linarith)
qed

section \<open>Properties\<close>


definition machine_8_cores :: machine where
  "machine_8_cores = \<lparr> ma_num_cores = 8, ma_rlimit = Some (Limit 1024), ma_totalram = Some (16777216, 1024) \<rparr>"

definition php_only :: adaptive_config where
  "php_only = \<lparr> ac_php = \<lparr> bc_memory_budget = 0, bc_node_count = 1, bc_ext = [] \<rparr>,
     ac_python = \<lparr> bc_memory_budget = 0, bc_node_count = 0, bc_ext = [] \<rparr>,
     ac_rust = \<lparr> bc_memory_budget = 0, bc_node_count = 0, bc_ext = [] \<rparr>, ac_php_fpm_config_path = [] \<rparr>"


definition python_only :: adaptive_config where
  "python_only = php_only\<lparr> ac_php := (ac_php php_only)\<lparr> bc_node_count := 0 \<rparr>,
     ac_python := (ac_python php_only)\<lparr> bc_node_count := 1 \<rparr> \<rparr>"

text \<open>The memory left for the backends is computed in unsigned numbers and underflows below 1024 MB: a
  machine of 512 MB and 16 cores that runs Python gets 1024 workers, one of 2048 MB gets 32.\<close>

theorem adaptive_small_ram_underflow:
  "ca_worker_max (core_adaptive_init \<lparr> ma_num_cores = 16, ma_rlimit = None, ma_totalram = Some (536870912, 1) \<rparr>
      python_only None) = 1024
 \<and> ca_worker_max (core_adaptive_init \<lparr> ma_num_cores = 16, ma_rlimit = None, ma_totalram = Some (2147483648, 1) \<rparr>
      python_only None) = 32"
  by code_simp

end
