(* ===== verification/Http_Config.thy ===== *)
theory Http_Config
  imports Http_Utils
begin

text \<open>
  The configuration: include/halmos/halmos_core_config.h and src/core/halmos_core_config.c, and the
  route table of include/halmos/halmos_http_route.h.

  The fixed arrays of texts are lists; \<open>snprintf\<close> into them cuts to their size.  The file is the list
  of lines \<open>fgets\<close> hands out (at most 1023 characters each).
\<close>

section \<open>Data\<close>

datatype RouteType = RT_NONE | RT_QUERY | RT_PATH

record RouteTable =
  rt_type :: RouteType
  rt_source :: string
  rt_target :: string
  rt_fcgi_type :: FcgiBackend
  rt_var_names :: "string list"

record BackendGroup =
  bg_ips :: "string list"
  bg_ports :: "int list"
  bg_node_count :: nat
  bg_ext :: string
  bg_lb_strategy :: string
  bg_memory_budget :: int

record VHostEntry =
  vh_host :: string
  vh_root :: string
  vh_php :: BackendGroup
  vh_rust :: BackendGroup
  vh_python :: BackendGroup
  vh_routes :: "RouteTable list"
  vh_last_route_mtime :: int
  vh_request_count :: u64

record Config =
  cf_server_name :: string
  cf_server_port :: int
  cf_document_root :: string
  cf_default_page :: string
  cf_max_body_size :: nat
  cf_tls_enabled :: bool
  cf_e2ee_enabled :: bool
  cf_ssl_certificate_file :: string
  cf_ssl_private_key_file :: string
  cf_rate_limit_enabled :: bool
  cf_anti_slow_loris_enabled :: bool
  cf_max_requests_per_sec :: int
  cf_keep_alive_timeout :: int
  cf_trust_proxy :: bool
  cf_php :: BackendGroup
  cf_rust :: BackendGroup
  cf_python :: BackendGroup
  cf_php_fpm_config_path :: string
  cf_request_buffer_size :: int
  cf_vhosts :: "VHostEntry list"
  cf_telemetry_enabled :: bool

definition MAX_BACKEND_NODES :: nat where "MAX_BACKEND_NODES = 8"
definition MAX_VHOSTS :: nat where "MAX_VHOSTS = 32"
definition MAX_ROUTES :: nat where "MAX_ROUTES = 100"

definition empty_group :: BackendGroup where
  "empty_group = \<lparr> bg_ips = replicate MAX_BACKEND_NODES [], bg_ports = replicate MAX_BACKEND_NODES 0,
     bg_node_count = 0, bg_ext = [], bg_lb_strategy = [], bg_memory_budget = 0 \<rparr>"

definition empty_vhost :: VHostEntry where
  "empty_vhost = \<lparr> vh_host = [], vh_root = [], vh_php = empty_group, vh_rust = empty_group,
     vh_python = empty_group, vh_routes = [], vh_last_route_mtime = 0, vh_request_count = 0 \<rparr>"

definition empty_config :: Config where
  "empty_config = \<lparr> cf_server_name = [], cf_server_port = 0, cf_document_root = [], cf_default_page = [],
     cf_max_body_size = 0, cf_tls_enabled = False, cf_e2ee_enabled = False, cf_ssl_certificate_file = [],
     cf_ssl_private_key_file = [], cf_rate_limit_enabled = False, cf_anti_slow_loris_enabled = False,
     cf_max_requests_per_sec = 0, cf_keep_alive_timeout = 0, cf_trust_proxy = False,
     cf_php = empty_group, cf_rust = empty_group, cf_python = empty_group, cf_php_fpm_config_path = [],
     cf_request_buffer_size = 0, cf_vhosts = [], cf_telemetry_enabled = False \<rparr>"

section \<open>Values\<close>

text \<open>\<open>trim\<close>: white space off both ends.\<close>

definition config_trim :: "string \<Rightarrow> string" where
  "config_trim s = rev (dropWhile c_isspace (rev (dropWhile c_isspace s)))"

text \<open>\<open>strtoul\<close> on the digits (a minus sign negates modulo \<open>2 ^ 64\<close>), then the unit; 64-bit products wrap.\<close>

definition c_strtoul10 :: "string \<Rightarrow> nat \<times> string" where
  "c_strtoul10 s =
     (let t = dropWhile c_isspace s;
          neg = (t \<noteq> [] \<and> hd t = CHR ''-'');
          u = (if t \<noteq> [] \<and> (hd t = CHR ''-'' \<or> hd t = CHR ''+'') then tl t else t);
          ds = takeWhile c_isdigit u;
          v = digits_val ds
      in if ds = [] then (0, s)
         else ((if v \<ge> 2 ^ 64 then 2 ^ 64 - 1 else if neg then (2 ^ 64 - v) mod 2 ^ 64 else v),
               dropWhile c_isdigit u))"

definition parse_size :: "string \<Rightarrow> nat" where
  "parse_size str =
     (let (v, rest) = c_strtoul10 str;
          unit_part = dropWhile c_isspace rest;
          u = (if unit_part = [] then CHR 0x00 else c_tolower (hd unit_part))
      in (if u = CHR ''g'' then v * (1024 * 1024 * 1024)
          else if u = CHR ''m'' then v * (1024 * 1024)
          else if u = CHR ''k'' then v * 1024
          else v) mod 2 ^ 64)"

text \<open>\<open>atoi\<close>.\<close>

definition c_atoi :: "string \<Rightarrow> int" where
  "c_atoi s = c_int (c_strtol10 s)"

text \<open>\<open>strcasecmp (value, "true") == 0\<close>.\<close>

definition parse_bool :: "string \<Rightarrow> bool" where
  "parse_bool v \<longleftrightarrow> c_strcasecmp_eq v ''true''"

text \<open>A comma-separated list into the nodes of a group, from the first on, eight at most.\<close>

definition overlay :: "'a list \<Rightarrow> 'a list \<Rightarrow> 'a list" where
  "overlay new old = new @ drop (length new) old"

definition parse_csv_to_group :: "string \<Rightarrow> BackendGroup \<Rightarrow> bool \<Rightarrow> BackendGroup" where
  "parse_csv_to_group value g is_port =
     (let ts = take MAX_BACKEND_NODES (map config_trim (c_tokens (\<lambda>c. c = CHR '','') value))
      in if is_port then g\<lparr> bg_ports := overlay (map c_atoi ts) (bg_ports g) \<rparr>
         else g\<lparr> bg_ips := overlay (map (c_copy 64) ts) (bg_ips g), bg_node_count := length ts \<rparr>)"

definition memory_mb :: "string \<Rightarrow> int" where
  "memory_mb v = c_int (int (parse_size v div (1024 * 1024)))"

section \<open>One setting\<close>

definition set_network :: "string \<Rightarrow> string \<Rightarrow> Config \<Rightarrow> Config option" where
  "set_network key v c =
     (if key = ''server_name'' then Some (c\<lparr> cf_server_name := c_copy 256 v \<rparr>)
      else if key = ''server_port'' then Some (c\<lparr> cf_server_port := c_atoi v \<rparr>)
      else if key = ''document_root'' then Some (c\<lparr> cf_document_root := c_copy 256 v \<rparr>)
      else if key = ''default_page'' then Some (c\<lparr> cf_default_page := c_copy 256 v \<rparr>)
      else if key = ''request_buffer_size'' then Some (c\<lparr> cf_request_buffer_size := c_atoi v \<rparr>)
      else if key = ''max_body_size'' then Some (c\<lparr> cf_max_body_size := parse_size v \<rparr>)
      else None)"

definition set_security :: "string \<Rightarrow> string \<Rightarrow> Config \<Rightarrow> Config option" where
  "set_security key v c =
     (if key = ''tls_enabled'' then Some (c\<lparr> cf_tls_enabled := parse_bool v \<rparr>)
      else if key = ''e2ee_enabled'' then Some (c\<lparr> cf_e2ee_enabled := parse_bool v \<rparr>)
      else if key = ''ssl_certificate_file'' then Some (c\<lparr> cf_ssl_certificate_file := c_copy 512 v \<rparr>)
      else if key = ''ssl_private_key_file'' then Some (c\<lparr> cf_ssl_private_key_file := c_copy 512 v \<rparr>)
      else if key = ''rate_limit_enabled'' then Some (c\<lparr> cf_rate_limit_enabled := parse_bool v \<rparr>)
      else if key = ''anti_slow_loris_enabled'' then Some (c\<lparr> cf_anti_slow_loris_enabled := parse_bool v \<rparr>)
      else if key = ''max_requests_per_sec'' then Some (c\<lparr> cf_max_requests_per_sec := c_atoi v \<rparr>)
      else if key = ''keep_alive_timeout'' then Some (c\<lparr> cf_keep_alive_timeout := c_atoi v \<rparr>)
      else if key = ''trust_proxy'' then Some (c\<lparr> cf_trust_proxy := parse_bool v \<rparr>)
      else None)"

definition set_backends :: "string \<Rightarrow> string \<Rightarrow> Config \<Rightarrow> Config option" where
  "set_backends key v c =
     (if key = ''php_server'' then Some (c\<lparr> cf_php := parse_csv_to_group v (cf_php c) False \<rparr>)
      else if key = ''php_port'' then Some (c\<lparr> cf_php := parse_csv_to_group v (cf_php c) True \<rparr>)
      else if key = ''php_fpm_config_path'' then Some (c\<lparr> cf_php_fpm_config_path := c_copy 512 v \<rparr>)
      else if key = ''php_lb_strategy'' then Some (c\<lparr> cf_php := (cf_php c)\<lparr> bg_lb_strategy := c_copy 32 v \<rparr> \<rparr>)
      else if key = ''php_memory_budget'' then Some (c\<lparr> cf_php := (cf_php c)\<lparr> bg_memory_budget := memory_mb v \<rparr> \<rparr>)
      else if key = ''rust_ext'' then Some (c\<lparr> cf_rust := (cf_rust c)\<lparr> bg_ext := c_copy 16 v \<rparr> \<rparr>)
      else if key = ''rust_server'' then Some (c\<lparr> cf_rust := parse_csv_to_group v (cf_rust c) False \<rparr>)
      else if key = ''rust_port'' then Some (c\<lparr> cf_rust := parse_csv_to_group v (cf_rust c) True \<rparr>)
      else if key = ''rust_lb_strategy'' then Some (c\<lparr> cf_rust := (cf_rust c)\<lparr> bg_lb_strategy := c_copy 32 v \<rparr> \<rparr>)
      else if key = ''rust_memory_budget'' then Some (c\<lparr> cf_rust := (cf_rust c)\<lparr> bg_memory_budget := memory_mb v \<rparr> \<rparr>)
      else if key = ''python_ext'' then Some (c\<lparr> cf_python := (cf_python c)\<lparr> bg_ext := c_copy 16 v \<rparr> \<rparr>)
      else if key = ''python_server'' then Some (c\<lparr> cf_python := parse_csv_to_group v (cf_python c) False \<rparr>)
      else if key = ''python_port'' then Some (c\<lparr> cf_python := parse_csv_to_group v (cf_python c) True \<rparr>)
      else if key = ''python_lb_strategy'' then Some (c\<lparr> cf_python := (cf_python c)\<lparr> bg_lb_strategy := c_copy 32 v \<rparr> \<rparr>)
      else if key = ''python_memory_budget'' then Some (c\<lparr> cf_python := (cf_python c)\<lparr> bg_memory_budget := memory_mb v \<rparr> \<rparr>)
      else if key = ''telemetry_enabled'' then Some (c\<lparr> cf_telemetry_enabled := parse_bool v \<rparr>)
      else None)"

definition set_global :: "string \<Rightarrow> string \<Rightarrow> Config \<Rightarrow> Config" where
  "set_global key v c =
     (case set_network key v c of Some c' \<Rightarrow> c'
      | None \<Rightarrow> (case set_security key v c of Some c' \<Rightarrow> c'
      | None \<Rightarrow> (case set_backends key v c of Some c' \<Rightarrow> c' | None \<Rightarrow> c)))"

section \<open>One line\<close>

text \<open>
  The state of the loop: the section seen last, the virtual host it opened (\<open>None\<close> outside), and
  the configuration.  A header is read by \<open>sscanf (line, "[%255[^]]]", section)\<close>; it does not count
  when the brackets are empty.  When 32 hosts exist already, a further host's settings go on to the
  section before.
\<close>

definition section_header :: "string \<Rightarrow> string option" where
  "section_header line =
     (let s = take 255 (takeWhile (\<lambda>c. c \<noteq> CHR '']'') (tl line)) in if s = [] then None else Some s)"

definition config_section :: "string \<Rightarrow> nat option \<times> Config \<Rightarrow> nat option \<times> Config" where
  "config_section sec st =
     (let (cur, c) = st in
      if take 6 sec = ''VHost:'' then
        if length (cf_vhosts c) < MAX_VHOSTS then
          (Some (length (cf_vhosts c)),
           c\<lparr> cf_vhosts := cf_vhosts c @ [empty_vhost\<lparr> vh_host := c_copy 256 (config_trim (drop 6 sec)) \<rparr>] \<rparr>)
        else (cur, c)
      else (None, c))"

definition config_setting :: "string \<Rightarrow> string \<Rightarrow> nat option \<times> Config \<Rightarrow> nat option \<times> Config" where
  "config_setting key v st =
     (let (cur, c) = st in
      case cur of
        Some i \<Rightarrow> (cur, if key = ''root''
                         then c\<lparr> cf_vhosts := (cf_vhosts c)[i := (cf_vhosts c ! i)\<lparr> vh_root := c_copy 1024 v \<rparr>] \<rparr>
                         else c)
      | None \<Rightarrow> (cur, set_global key v c))"

definition config_line :: "nat option \<times> Config \<Rightarrow> string \<Rightarrow> nat option \<times> Config" where
  "config_line st line =
     (let l = config_trim (takeWhile (\<lambda>c. c \<noteq> CHR 0x0A) line)
      in if l = [] \<or> hd l = CHR ''#'' then st
         else
           let l = takeWhile (\<lambda>c. c \<noteq> CHR ''#'') l
           in if hd l = CHR ''['' then
                (case section_header l of Some sec \<Rightarrow> config_section sec st | None \<Rightarrow> st)
              else (case c_tokens (\<lambda>c. c = CHR ''='') l of
                      key # v # _ \<Rightarrow> config_setting (config_trim key) (config_trim v) st
                    | _ \<Rightarrow> st))"

definition core_config_load :: "string list option \<Rightarrow> Config \<Rightarrow> int \<times> Config" where
  "core_config_load conf c =
     (case conf of None \<Rightarrow> (-1, c) | Some ls \<Rightarrow> (0, snd (foldl config_line (None, c) ls)))"

section \<open>Everything fits\<close>

text \<open>The type of a configuration in memory: the sizes of its arrays, and an open section that exists.\<close>

definition group_ok :: "BackendGroup \<Rightarrow> bool" where
  "group_ok g \<longleftrightarrow> length (bg_ips g) = MAX_BACKEND_NODES \<and> length (bg_ports g) = MAX_BACKEND_NODES
     \<and> bg_node_count g \<le> MAX_BACKEND_NODES \<and> (\<forall>ip \<in> set (bg_ips g). length ip < 64)
     \<and> length (bg_ext g) < 16 \<and> length (bg_lb_strategy g) < 32"

definition vhost_ok :: "VHostEntry \<Rightarrow> bool" where
  "vhost_ok h \<longleftrightarrow> length (vh_host h) < 256 \<and> length (vh_root h) < 1024
     \<and> group_ok (vh_php h) \<and> group_ok (vh_rust h) \<and> group_ok (vh_python h) \<and> length (vh_routes h) \<le> MAX_ROUTES"

definition config_ok :: "Config \<Rightarrow> bool" where
  "config_ok c \<longleftrightarrow> length (cf_server_name c) < 256 \<and> length (cf_document_root c) < 256 \<and> length (cf_default_page c) < 256
     \<and> length (cf_ssl_certificate_file c) < 512 \<and> length (cf_ssl_private_key_file c) < 512
     \<and> length (cf_php_fpm_config_path c) < 512
     \<and> group_ok (cf_php c) \<and> group_ok (cf_rust c) \<and> group_ok (cf_python c)
     \<and> length (cf_vhosts c) \<le> MAX_VHOSTS \<and> (\<forall>h \<in> set (cf_vhosts c). vhost_ok h)"

lemma group_ok_empty: "group_ok empty_group"
  by (simp add: group_ok_def empty_group_def MAX_BACKEND_NODES_def)

lemma config_ok_empty: "config_ok empty_config"
  by (simp add: config_ok_def empty_config_def group_ok_empty)

lemma overlay_set: "x \<in> set (overlay new old) \<Longrightarrow> x \<in> set new \<or> x \<in> set old"
  by (auto simp: overlay_def dest: in_set_dropD)

lemma group_ok_csv: "group_ok g \<Longrightarrow> group_ok (parse_csv_to_group v g port)"
  by (auto simp: group_ok_def parse_csv_to_group_def overlay_def Let_def length_c_copy min_def dest: in_set_dropD)

lemma group_ok_texts:
  "group_ok g \<Longrightarrow> group_ok (g\<lparr> bg_ext := c_copy 16 v \<rparr>)" "group_ok g \<Longrightarrow> group_ok (g\<lparr> bg_lb_strategy := c_copy 32 v \<rparr>)"
  "group_ok g \<Longrightarrow> group_ok (g\<lparr> bg_memory_budget := n \<rparr>)"
  by (simp_all add: group_ok_def length_c_copy)

lemma config_ok_network: "set_network key v c = Some c' \<Longrightarrow> config_ok c \<Longrightarrow> config_ok c'"
  by (auto simp: set_network_def config_ok_def length_c_copy split: if_splits)

lemma config_ok_security: "set_security key v c = Some c' \<Longrightarrow> config_ok c \<Longrightarrow> config_ok c'"
  by (auto simp: set_security_def config_ok_def length_c_copy split: if_splits)

lemma config_ok_backends: "set_backends key v c = Some c' \<Longrightarrow> config_ok c \<Longrightarrow> config_ok c'"
  by (auto simp: set_backends_def config_ok_def length_c_copy group_ok_csv group_ok_texts split: if_splits)

lemma config_ok_global: "config_ok c \<Longrightarrow> config_ok (set_global key v c)"
  by (auto simp: set_global_def intro: config_ok_network config_ok_security config_ok_backends split: option.split)

definition section_ok :: "nat option \<times> Config \<Rightarrow> bool" where
  "section_ok st \<longleftrightarrow> config_ok (snd st) \<and> (case fst st of Some i \<Rightarrow> i < length (cf_vhosts (snd st)) | None \<Rightarrow> True)"

lemma section_ok_section: "section_ok st \<Longrightarrow> section_ok (config_section sec st)"
  by (auto simp: section_ok_def config_section_def config_ok_def vhost_ok_def empty_vhost_def group_ok_empty length_c_copy Let_def
      split: prod.splits option.splits)

lemma config_ok_vhost: "config_ok c \<Longrightarrow> vhost_ok h \<Longrightarrow> config_ok (c\<lparr> cf_vhosts := (cf_vhosts c)[i := h] \<rparr>)"
  by (auto simp: config_ok_def dest: set_update_subset_insert [THEN subsetD])

lemma config_ok_root: "config_ok c \<Longrightarrow> i < length (cf_vhosts c) \<Longrightarrow> vhost_ok ((cf_vhosts c ! i)\<lparr> vh_root := c_copy 1024 v \<rparr>)"
  by (auto simp: config_ok_def vhost_ok_def length_c_copy)

lemma section_ok_setting: "section_ok st \<Longrightarrow> section_ok (config_setting key v st)"
  by (auto simp: section_ok_def config_setting_def config_ok_global config_ok_vhost config_ok_root Let_def
      split: prod.splits option.splits)

lemma section_ok_line: "section_ok st \<Longrightarrow> section_ok (config_line st l)"
  by (auto simp: config_line_def section_ok_section section_ok_setting Let_def split: option.split list.split)

lemma section_ok_lines: "section_ok st \<Longrightarrow> section_ok (foldl config_line st ls)"
  by (induction ls arbitrary: st) (simp_all add: section_ok_line)

lemma config_load_ok: "config_ok c \<Longrightarrow> config_ok (snd (core_config_load conf c))"
proof (cases conf)
  case (Some ls)
  assume "config_ok c"
  then have "section_ok (None, c)" by (simp add: section_ok_def)
  then have "section_ok (foldl config_line (None, c) ls)" by (rule section_ok_lines)
  then show ?thesis using Some by (simp add: core_config_load_def section_ok_def)
qed (simp add: core_config_load_def)

end
