(* ===== verification/Http_Route.thy ===== *)
theory Http_Route
  imports Http_Config
begin

text \<open>
  Virtual hosts and routes: src/protocol/halmos_http_vhost.c and src/protocol/halmos_http_route.c.

  A request's \<open>Host\<close> selects a virtual host, the longest route source that starts its path selects a
  route, and the route rewrites the path, the query and the path info.  The \<open>.htroute\<close> files are
  read through an argument that stands for the file system (modification time and lines).  The
  watching of directories (inotify) is left out but for the reload it triggers.
\<close>

section \<open>The virtual host\<close>

definition clean_host :: "string \<Rightarrow> string" where
  "clean_host incoming = takeWhile (\<lambda>c. c \<noteq> CHR '':'') (take 127 incoming)"

definition skip_www :: "string \<Rightarrow> string" where
  "skip_www h = (if c_strcasecmp_eq (take 4 h) ''www.'' then drop 4 h else h)"

fun vhost_index :: "VHostEntry list \<Rightarrow> string \<Rightarrow> string \<Rightarrow> nat \<Rightarrow> nat option" where
  "vhost_index [] h p i = None"
| "vhost_index (v # vs) h p i =
     (if c_strcasecmp_eq (vh_host v) h \<or> c_strcasecmp_eq (vh_host v) p then Some i
      else vhost_index vs h p (i + 1))"

definition http_vhost_get_context :: "string option \<Rightarrow> VHostEntry list \<Rightarrow> nat option \<times> VHostEntry list" where
  "http_vhost_get_context incoming vhosts =
     (case incoming of
        None \<Rightarrow> (None, vhosts)
      | Some h \<Rightarrow>
          (case vhost_index vhosts (clean_host h) (skip_www (clean_host h)) 0 of
             None \<Rightarrow> (None, vhosts)
           | Some i \<Rightarrow> (Some i, vhosts[i := (vhosts ! i)\<lparr> vh_request_count := vh_request_count (vhosts ! i) + 1 \<rparr>])))"

section \<open>The route of a path\<close>

fun route_scan :: "string \<Rightarrow> RouteTable list \<Rightarrow> RouteTable option \<Rightarrow> nat \<Rightarrow> RouteTable option" where
  "route_scan uri [] best max_len = best"
| "route_scan uri (r # rs) best max_len =
     (let source_len = length (rt_source r)
      in if take source_len uri = rt_source r \<and> source_len > max_len
         then route_scan uri rs (Some r) source_len
         else route_scan uri rs best max_len)"

definition http_route_match :: "VHostEntry option \<Rightarrow> string \<Rightarrow> RouteTable option" where
  "http_route_match vh uri =
     (case vh of None \<Rightarrow> None | Some v \<Rightarrow> if vh_routes v = [] then None else route_scan uri (vh_routes v) None 0)"

text \<open>
  The rewriting: target, query and path info.  The pairs of a \<open>QUERY\<close> route are cut to 127
  characters each.  The texts are what is written; the sizes of the caller's buffers are theirs.
\<close>

definition query_pairs :: "string list \<Rightarrow> string list \<Rightarrow> string" where
  "query_pairs names tokens =
     concat (map2 (\<lambda>i (n, t). c_copy 128 ((if i > 0 then ''&'' else []) @ n @ ''='' @ t))
       [0..<length (zip names tokens)] (zip names tokens))"

definition http_route_apply_logic :: "RouteTable \<Rightarrow> string \<Rightarrow> string \<times> string \<times> string" where
  "http_route_apply_logic r uri =
     (let remainder = drop (length (rt_source r)) uri
      in case rt_type r of
           RT_NONE \<Rightarrow> (rt_target r, [], [])
         | RT_PATH \<Rightarrow> (rt_target r, [], remainder)
         | RT_QUERY \<Rightarrow>
             let temp = take 255 remainder;
                 p = (if temp \<noteq> [] \<and> hd temp = CHR ''/'' then tl temp else temp)
             in (rt_target r, query_pairs (rt_var_names r) (c_tokens (\<lambda>c. c = CHR ''/'') p), []))"

section \<open>Loading routes\<close>

definition parse_route_type :: "string \<Rightarrow> RouteType" where
  "parse_route_type s = (if s = ''QUERY'' then RT_QUERY else if s = ''PATH'' then RT_PATH else RT_NONE)"

definition parse_fcgi_type :: "string \<Rightarrow> FcgiBackend" where
  "parse_fcgi_type s = (if s = ''FCGI_PY'' then FCGI_PY else if s = ''FCGI_RS'' then FCGI_RS else FCGI_PHP)"

text \<open>
  The columns \<open>sscanf\<close> finds with \<open>"%[^|]|%[^|]|%[^|]|%[^|]|%[^\n]"\<close>: each must have a character, and
  the last one goes to the end of the line.
\<close>

fun scan_columns :: "nat \<Rightarrow> string \<Rightarrow> string list" where
  "scan_columns 0 s = (let v = takeWhile (\<lambda>c. c \<noteq> CHR 0x0A) s in if v = [] then [] else [v])"
| "scan_columns (Suc n) s =
     (let f = takeWhile (\<lambda>c. c \<noteq> CHR ''|'') s; rest = dropWhile (\<lambda>c. c \<noteq> CHR ''|'') s
      in if f = [] then [] else f # (case rest of [] \<Rightarrow> [] | _ # t \<Rightarrow> scan_columns n t))"

text \<open>The names in brackets; the first \<open>']'\<close> ends them only where it stands behind the \<open>'['\<close>.\<close>

definition route_vars :: "string \<Rightarrow> string list" where
  "route_vars vars =
     (if CHR ''['' \<in> set vars \<and> CHR '']'' \<in> set vars then
        let s = tl (dropWhile (\<lambda>c. c \<noteq> CHR ''['') vars);
            body = (if CHR '']'' \<in> set (takeWhile (\<lambda>c. c \<noteq> CHR ''['') vars) then s
                    else takeWhile (\<lambda>c. c \<noteq> CHR '']'') s)
        in take 10 (map (\<lambda>t. take 31 (trim_whitespace t)) (c_tokens (\<lambda>c. c = CHR '','') body))
      else [])"

definition route_line :: "string \<Rightarrow> RouteTable option" where
  "route_line line =
     (let cols = scan_columns 4 line
      in if length cols < 4 then None
         else let type = parse_route_type (trim_whitespace (cols ! 0))
              in Some \<lparr> rt_type = type, rt_source = trim_whitespace (cols ! 1),
                        rt_target = trim_whitespace (cols ! 2),
                        rt_fcgi_type = parse_fcgi_type (trim_whitespace (cols ! 3)),
                        rt_var_names = (if length cols = 5 \<and> type = RT_QUERY then route_vars (cols ! 4) else []) \<rparr>)"

fun vhost_load_routes :: "string list \<Rightarrow> RouteTable list \<Rightarrow> RouteTable list" where
  "vhost_load_routes [] rs = rs"
| "vhost_load_routes (l # ls) rs =
     (if length rs \<ge> MAX_ROUTES then rs
      else if l = [] \<or> hd l \<in> {CHR ''#'', CHR 0x0A, CHR 0x0D, CHR '' ''} then vhost_load_routes ls rs
      else case route_line l of
             None \<Rightarrow> vhost_load_routes ls rs
           | Some r \<Rightarrow> vhost_load_routes ls (rs @ [r]))"

definition route_path :: "string \<Rightarrow> string" where
  "route_path root =
     (let root_clean = trim_whitespace (take 255 root)
      in c_copy 512 (if root_clean \<noteq> [] \<and> last root_clean = CHR ''/'' then root_clean @ ''.htroute''
                     else root_clean @ ''/.htroute''))"

text \<open>The file system: for a path, its modification time and, when it opens, its lines.\<close>

type_synonym route_files = "string \<Rightarrow> (int \<times> string list option) option"

definition reload_vhost :: "route_files \<Rightarrow> VHostEntry \<Rightarrow> VHostEntry" where
  "reload_vhost files vh =
     (if vh_root vh = [] then vh
      else case files (route_path (vh_root vh)) of
             Some (mtime, content) \<Rightarrow>
               if mtime > vh_last_route_mtime vh then
                 (case content of
                    Some ls \<Rightarrow> vh\<lparr> vh_routes := vhost_load_routes ls [], vh_last_route_mtime := mtime \<rparr>
                  | None \<Rightarrow> vh\<lparr> vh_last_route_mtime := mtime \<rparr>)
               else vh
           | None \<Rightarrow> if vh_routes vh \<noteq> [] then vh\<lparr> vh_routes := [], vh_last_route_mtime := 0 \<rparr> else vh)"

definition http_vhost_reload_routes :: "route_files \<Rightarrow> VHostEntry list \<Rightarrow> VHostEntry list" where
  "http_vhost_reload_routes files vhosts = map (reload_vhost files) vhosts"

definition http_vhost_init_all :: "route_files \<Rightarrow> VHostEntry list \<Rightarrow> VHostEntry list" where
  "http_vhost_init_all files vhosts =
     http_vhost_reload_routes files
       (map (\<lambda>v. v\<lparr> vh_routes := [], vh_last_route_mtime := 0, vh_request_count := 0 \<rparr>) vhosts)"

text \<open>The tables of routes stay within their arrays, too.\<close>

lemma vhost_load_routes_length: "length rs \<le> MAX_ROUTES \<Longrightarrow> length (vhost_load_routes ls rs) \<le> MAX_ROUTES"
  by (induction ls rs rule: vhost_load_routes.induct) (auto split: option.split)

lemma reload_vhost_ok: "vhost_ok h \<Longrightarrow> vhost_ok (reload_vhost files h)"
  by (auto simp: reload_vhost_def vhost_ok_def vhost_load_routes_length split: option.split prod.split)



section \<open>The backend of a path\<close>

text \<open>The choice that HTTP/1 and HTTP/2 make in the same way.\<close>

text \<open>\<open>path_info\<close> points into the URI: where it starts there.\<close>

definition path_info_at :: "RequestHeader \<Rightarrow> nat option" where
  "path_info_at req =
     (case (rh_uri req, rh_path_info req) of (Some u, Some p) \<Rightarrow> Some (length u - length p) | _ \<Rightarrow> None)"

definition backend_type_of :: "Config \<Rightarrow> RequestHeader \<Rightarrow> nat option" where
  "backend_type_of cfg req =
     (let ext = (\<lambda>e. has_extension (rh_uri req) (path_info_at req) (Some e))
      in if ext ''.php'' then Some 0
         else if ext (bg_ext (cf_rust cfg)) then Some 1
         else if ext (bg_ext (cf_python cfg)) then Some 2
         else None)"

section \<open>Lemmas\<close>

lemma find_filter_cong:
  "(\<And>x. P x \<Longrightarrow> Q x = Q' x) \<Longrightarrow> find P (filter Q xs) = find P (filter Q' xs)"
  by (induction xs) auto

text \<open>The scan keeps the first of the longest sources, above what it was given.\<close>

lemma route_scan_spec:
  "route_scan uri rs best m =
     (let good = filter (\<lambda>r. take (length (rt_source r)) uri = rt_source r \<and> m < length (rt_source r)) rs;
          longest = Max (length ` rt_source ` set good)
      in if good = [] then best else find (\<lambda>r. length (rt_source r) = longest) good)"
proof (induction rs arbitrary: best m)
  case Nil
  then show ?case by simp
next
  case (Cons r rs)
  let ?ok = "\<lambda>m r. take (length (rt_source r)) uri = rt_source r \<and> m < length (rt_source r)"
  let ?L = "\<lambda>rs. Max (length ` rt_source ` set rs)"
  show ?case
  proof (cases "?ok m r")
    case False
    then show ?thesis using Cons.IH [of best m] by (auto simp: Let_def)
  next
    case True
    define good where "good = filter (?ok m) rs"
    define more where "more = filter (?ok (length (rt_source r))) rs"
    have more: "set more = {x \<in> set good. length (rt_source r) < length (rt_source x)}"
      using True by (auto simp: good_def more_def)
    have scan: "route_scan uri (r # rs) best m =
        (if more = [] then Some r else find (\<lambda>x. length (rt_source x) = ?L more) more)"
      using True Cons.IH [of "Some r" "length (rt_source r)"] by (simp add: more_def Let_def)
    have all: "filter (?ok m) (r # rs) = r # good" using True by (simp add: good_def)
    show ?thesis
    proof (cases "more = []")
      case True
      then have "\<forall>x \<in> set good. length (rt_source x) \<le> length (rt_source r)" using more by auto
      then have "?L (r # good) = length (rt_source r)" by (auto intro!: Max_eqI)
      then show ?thesis using scan all True by (simp add: Let_def)
    next
      case False
      then have ex: "\<exists>x \<in> set good. length (rt_source r) < length (rt_source x)" using more by (cases more) auto
      have max: "?L (r # good) = ?L more"
      proof (rule Max_eqI)
        show "finite (length ` rt_source ` set (r # good))" by simp
        have "?L more \<in> length ` rt_source ` set more" using False by (intro Max_in) auto
        then show "?L more \<in> length ` rt_source ` set (r # good)" using more by auto
        fix y assume "y \<in> length ` rt_source ` set (r # good)"
        then obtain x where x: "x \<in> set (r # good)" "y = length (rt_source x)" by auto
        obtain z where z: "z \<in> set more" using False by (cases more) auto
        show "y \<le> ?L more"
        proof (cases "x \<in> set more")
          case True
          then show ?thesis using x by (intro Max_ge) auto
        next
          case False
          then have "\<not> length (rt_source r) < length (rt_source x)"
            using x(1) unfolding more by (cases "x = r") simp_all
          then have "y \<le> length (rt_source r)" using x(2) by simp
          also have "\<dots> \<le> length (rt_source z)" using z more by auto
          also have "\<dots> \<le> ?L more" using z by (intro Max_ge) auto
          finally show ?thesis .
        qed
      qed
      have gt: "length (rt_source r) < ?L more"
      proof -
        obtain z where z: "z \<in> set more" using False by (cases more) auto
        then have "length (rt_source r) < length (rt_source z)" using more by auto
        also have "\<dots> \<le> ?L more" using z by (intro Max_ge) auto
        finally show ?thesis .
      qed
      have "find (\<lambda>x. length (rt_source x) = ?L more) good = find (\<lambda>x. length (rt_source x) = ?L more) more"
        unfolding good_def
      proof (subst (2) more_def, rule find_filter_cong)
        fix x assume "length (rt_source x) = ?L more"
        with gt True have "m < length (rt_source x)" "length (rt_source r) < length (rt_source x)" by linarith+
        then show "?ok m x = ?ok (length (rt_source r)) x" by blast
      qed
      then show ?thesis using scan all max gt False by (simp add: Let_def)
    qed
  qed
qed

section \<open>Properties\<close>

text \<open>C21: a path is routed by the longest route: of the routes of the virtual host whose source, not
  empty, starts the path, the one with the longest source is taken, the first of them on a tie; a
  request is left alone exactly when there is no such route.\<close>

theorem route_longest_prefix:
  "http_route_match (Some vh) uri =
     (let good = filter (\<lambda>r. take (length (rt_source r)) uri = rt_source r \<and> rt_source r \<noteq> []) (vh_routes vh);
          longest = Max (length ` rt_source ` set good)
      in if good = [] then None else find (\<lambda>r. length (rt_source r) = longest) good)"
  by (cases "vh_routes vh = []") (simp_all add: http_route_match_def route_scan_spec Let_def)

end
