(* ===== verification/Multipart.thy ===== *)
theory Multipart
  imports Http_Utils
begin

text \<open>
  \<open>multipart/form-data\<close> bodies: src/protocol/halmos_http_multipart.c, the parser of HTTP/1 and the
  one of HTTP/2.

  A position in the body is the bytes from it to the end.  A search whose length was computed as a
  negative number, which in \<open>size_t\<close> is a search through the memory behind the body, is \<open>None\<close>; so is
  a boundary longer than the array it is copied to, which the search then reads past.  Allocation
  succeeds.
\<close>

section \<open>One part\<close>

text \<open>The value in double quotes after a key, in the header of a part.\<close>

definition quoted :: "string \<Rightarrow> string \<Rightarrow> string option" where
  "quoted header key =
     (case c_strstr header key of
        None \<Rightarrow> None
      | Some s \<Rightarrow>
          let v = drop (length key) s
          in if CHR 0x22 \<in> set v then Some (takeWhile (\<lambda>c. c \<noteq> CHR 0x22) v) else None)"

definition name_key :: string where "name_key = ''name='' @ [CHR 0x22]"
definition filename_key :: string where "filename_key = ''filename='' @ [CHR 0x22]"

definition crlf2 :: bytes where "crlf2 = [0x0D, 0x0A, 0x0D, 0x0A]"

definition upto :: "'a list \<Rightarrow> 'a list \<Rightarrow> 'a list" where
  "upto s t = take (length s - length t) s"

section \<open>HTTP/1\<close>

text \<open>
  The loop, from a position: the parts from there.  The length of a part's data is two bytes short
  of the next boundary, for the line end before it, unless there is no room for it.
\<close>

function http1_parts :: "bytes \<Rightarrow> bytes \<Rightarrow> MultipartPart list option" where
  "http1_parts boundary cur =
     (if length cur \<le> length boundary then Some []
      else case memmem cur boundary of
        None \<Rightarrow> Some []
      | Some part_start \<Rightarrow>
          if length part_start < length boundary + 2 then None
          else
            let header_start = drop (length boundary + 2) part_start
            in case memmem header_start crlf2 of
              None \<Rightarrow> Some []
            | Some header_end \<Rightarrow>
                let header = cstr (text_of (upto header_start header_end));
                    data = drop 4 header_end
                in case memmem data boundary of
                  None \<Rightarrow> Some []
                | Some next_boundary \<Rightarrow>
                    let n = length data - length next_boundary;
                        part = \<lparr> mp_name = quoted header name_key, mp_filename = quoted header filename_key,
                                 mp_data = take (if n \<ge> 2 then n - 2 else n) data \<rparr>
                    in map_option ((#) part) (http1_parts boundary next_boundary))"
  by pat_completeness auto
termination
proof (relation "measure (\<lambda>(_, cur). length cur)", goal_cases)
  case (2 boundary cur part_start header_start header_end header data next_boundary n part)
  then have "length next_boundary \<le> length data" "length header_end \<le> length header_start"
    "length part_start \<le> length cur"
    by (auto dest: memmem_length)
  with 2 show ?case by simp
qed simp

declare http1_parts.simps [simp del]

definition boundary_of :: "string \<Rightarrow> string option" where
  "boundary_of content_type =
     map_option (\<lambda>s. ''--'' @ drop (length ''boundary='') s) (c_strstr content_type ''boundary='')"

definition http_multipart_parse_body :: "RequestHeader \<Rightarrow> RequestHeader option" where
  "http_multipart_parse_body req =
     (case rh_content_type req of
        None \<Rightarrow> Some req
      | Some ct \<Rightarrow>
          if rh_body req = [] then Some req
          else case boundary_of ct of
            None \<Rightarrow> Some req
          | Some b \<Rightarrow>
              if length b \<ge> 256 then None
              else map_option (\<lambda>ps. req\<lparr> rh_parts := ps \<rparr>) (http1_parts (bytes_of b) (rh_body req)))"

section \<open>HTTP/2\<close>

text \<open>
  The tolerant variant: the boundary ends at a blank, a semicolon or a carriage return, and at 248
  characters; any line ends after it are skipped; the two bytes before the next boundary are taken
  off when the first of them is a carriage return.  The texts searched for the names run to the end
  of the body, and count when they start before the end of the header.
\<close>

definition boundary2_of :: "string \<Rightarrow> string option" where
  "boundary2_of content_type =
     map_option (\<lambda>s. ''--'' @ take 248 (takeWhile (\<lambda>c. c \<notin> {CHR '' '', CHR '';'', CHR 0x0D})
        (drop (length ''boundary='') s))) (c_strstr content_type ''boundary='')"

definition quoted_before :: "string \<Rightarrow> string \<Rightarrow> nat \<Rightarrow> string option" where
  "quoted_before s key header_len =
     (case c_strstr s key of
        None \<Rightarrow> None
      | Some t \<Rightarrow> if length s - length t < header_len then quoted t key else None)"

function http2_parts :: "bytes \<Rightarrow> bytes \<Rightarrow> MultipartPart list" where
  "http2_parts boundary cur =
     (if length cur \<le> length boundary then []
      else case memmem cur boundary of
        None \<Rightarrow> []
      | Some part_start \<Rightarrow>
          let header_start = dropWhile (\<lambda>b. b = 0x0D \<or> b = 0x0A) (drop (length boundary) part_start)
          in case memmem header_start crlf2 of
            None \<Rightarrow> []
          | Some header_end \<Rightarrow>
              let hl = length header_start - length header_end;
                  str = cstr (text_of header_start);
                  data = drop 4 header_end
              in case memmem data boundary of
                None \<Rightarrow> []
              | Some next_boundary \<Rightarrow>
                  let n = length data - length next_boundary;
                      part = \<lparr> mp_name = quoted_before str name_key hl,
                               mp_filename = quoted_before str filename_key hl,
                               mp_data = take (if n \<ge> 2 \<and> data ! (n - 2) = 0x0D then n - 2 else n) data \<rparr>
                  in part # http2_parts boundary next_boundary)"
  by pat_completeness auto
termination
proof (relation "measure (\<lambda>(_, cur). length cur)", goal_cases)
  case (2 boundary cur part_start header_start header_end hl str data next_boundary n part)
  then have "length next_boundary \<le> length data" "length header_end \<le> length header_start"
    "length part_start \<le> length cur"
    by (auto dest: memmem_length)
  moreover have "4 \<le> length header_end" using 2 memmem_long [of header_start crlf2 header_end] by (simp add: crlf2_def)
  moreover have "length header_start \<le> length part_start"
    using 2 length_dropWhile_le [of "\<lambda>b. b = 0x0D \<or> b = 0x0A" "drop (length boundary) part_start"] by simp
  ultimately show ?case using 2 by simp
qed simp

declare http2_parts.simps [simp del]

definition http2_multipart_parse :: "RequestHeader \<Rightarrow> RequestHeader" where
  "http2_multipart_parse req =
     (case rh_content_type req of
        None \<Rightarrow> req
      | Some ct \<Rightarrow>
          if rh_body req = [] then req
          else case boundary2_of ct of
            None \<Rightarrow> req
          | Some b \<Rightarrow> req\<lparr> rh_parts := http2_parts (bytes_of b) (rh_body req) \<rparr>)"

section \<open>Bodies as clients send them\<close>

text \<open>A part is its header (without the blank line) and its data; a body is the parts, each behind the
  delimiter, and the closing delimiter.\<close>

definition enc_part :: "bytes \<Rightarrow> bytes \<times> bytes \<Rightarrow> bytes" where
  "enc_part b p = b @ [0x0D, 0x0A] @ fst p @ crlf2 @ snd p @ [0x0D, 0x0A]"

definition enc_body :: "bytes \<Rightarrow> (bytes \<times> bytes) list \<Rightarrow> bytes" where
  "enc_body b ps = concat (map (enc_part b) ps) @ b @ [0x2D, 0x2D, 0x0D, 0x0A]"

definition part_ok :: "bytes \<Rightarrow> bytes \<times> bytes \<Rightarrow> bool" where
  "part_ok b p \<longleftrightarrow> 0x0D \<notin> set (fst p) \<and> memmem (snd p @ [0x0D, 0x0A] @ b) b = Some b"

definition part_of :: "bytes \<times> bytes \<Rightarrow> MultipartPart" where
  "part_of p = \<lparr> mp_name = quoted (cstr (text_of (fst p))) name_key,
     mp_filename = quoted (cstr (text_of (fst p))) filename_key, mp_data = snd p \<rparr>"

lemma memmem_crlf2: "0x0D \<notin> set h \<Longrightarrow> memmem (h @ crlf2 @ t) crlf2 = Some (crlf2 @ t)"
proof (induction h)
  case (Cons x h)
  then show ?case
    by (subst append_Cons, subst memmem.simps) (auto simp: crlf2_def take_Cons')
qed simp

lemma upto_append [simp]: "upto (h @ t) t = h"
  by (simp add: upto_def)

lemma http1_parts_step:
  assumes "part_ok b p" and "take (length b) rest = b"
  shows "http1_parts b (enc_part b p @ rest) = map_option ((#) (part_of p)) (http1_parts b rest)"
proof -
  obtain v where rest: "rest = b @ v" using assms(2) by (metis append_take_drop_id)
  have data: "memmem (snd p @ 0x0D # 0x0A # rest) b = Some rest"
    using memmem_extend [of "snd p @ [0x0D, 0x0A]" b v] assms(1) by (simp add: part_ok_def rest)
  have head: "memmem (fst p @ crlf2 @ snd p @ 0x0D # 0x0A # rest) crlf2 = Some (crlf2 @ snd p @ 0x0D # 0x0A # rest)"
    using memmem_crlf2 assms(1) by (simp add: part_ok_def)
  have crlf: "drop 4 (crlf2 @ t) = t" "length crlf2 = 4" for t by (simp_all add: crlf2_def)
  have "enc_part b p @ rest = b @ 0x0D # 0x0A # fst p @ crlf2 @ snd p @ 0x0D # 0x0A # rest"
    by (simp add: enc_part_def)
  then show ?thesis
    by (subst http1_parts.simps) (simp add: head crlf data part_of_def Let_def)
qed

lemma http1_parts_end:
  "memmem [0x0D, 0x0A] crlf2 = None \<Longrightarrow> http1_parts b (b @ [0x2D, 0x2D, 0x0D, 0x0A]) = Some []"
  by (subst http1_parts.simps) simp

lemma http1_parts_body:
  "\<forall>p \<in> set ps. part_ok b p \<Longrightarrow> http1_parts b (enc_body b ps) = Some (map part_of ps)"
proof (induction ps)
  case Nil
  have "memmem [0x0D, 0x0A] crlf2 = None" by code_simp
  then show ?case by (simp add: enc_body_def http1_parts_end)
next
  case (Cons p ps)
  have "take (length b) (enc_body b ps) = b"
    by (cases ps) (simp_all add: enc_body_def enc_part_def)
  moreover have "enc_body b (p # ps) = enc_part b p @ enc_body b ps" by (simp add: enc_body_def)
  ultimately show ?case using http1_parts_step [of b p] Cons by simp
qed

section \<open>Properties\<close>


definition upload :: "(bytes \<times> bytes) list" where
  "upload = [(bytes_of (''name='' @ [CHR 0x22] @ ''a'' @ [CHR 0x22]), [1, 0x0D, 0x0A, 2]),
             (bytes_of (''name='' @ [CHR 0x22] @ ''f'' @ [CHR 0x22] @ ''; filename='' @ [CHR 0x22] @ ''x'' @ [CHR 0x22]), [])]"

definition upload_request :: RequestHeader where
  "upload_request = \<lparr> rh_client_ip = [], rh_method = ''POST'', rh_uri = Some ''/'', rh_host = None,
     rh_content_type = Some ''multipart/form-data; boundary=XY'', rh_cookie_buf = [], rh_cookie_data = None,
     rh_content_length = 0, rh_error_code = 0, rh_is_tls = False, rh_is_keep_alive = False,
     rh_is_upgrade = False, rh_is_valid = True, rh_body = enc_body (bytes_of ''--XY'') upload,
     rh_http_version = [], rh_directory = None, rh_query_string = None, rh_path_info = None,
     rh_vhost = None, rh_backend_type = FCGI_PHP, rh_ws_key = None, rh_parts = [] \<rparr>"


text \<open>
  A body that ends right behind a delimiter makes the length of the next search negative.
\<close>

lemma multipart_overread:
  "http1_parts b (x # b) = None" if "memmem (x # b) b = Some b"
  using that by (subst http1_parts.simps) simp

end
