(* ===== verification/Ws_Frame.thy ===== *)
theory Ws_Frame
  imports Http_Types
begin

text \<open>
  WebSocket frames: the receiver of src/protocol/websocket/halmos_ws_system.c, a state machine that
  is resumed whenever the socket has data, the frames the server builds, and the handshake key.

  The socket is what arrives on it: pieces of the byte stream, moments at which nothing is there
  yet, and its end.  Reading takes no more than was asked for and leaves the rest of a piece.
\<close>

section \<open>The socket\<close>

datatype net_event = Arrived bytes | NotYet | Hangup

datatype ws_rd = WrData bytes | WrAgain | WrFail

fun ws_low_level_recv :: "net_event list \<Rightarrow> nat \<Rightarrow> ws_rd \<times> net_event list" where
  "ws_low_level_recv [] n = (WrAgain, [])"
| "ws_low_level_recv (NotYet # es) n = (WrAgain, es)"
| "ws_low_level_recv (Hangup # es) n = (WrFail, es)"
| "ws_low_level_recv (Arrived b # es) n =
     (WrData (take n b), if length b \<le> n then es else Arrived (drop n b) # es)"

section \<open>The receiver\<close>

datatype ws_state_t =
  WS_STATE_HEADER | WS_STATE_EXT_LEN | WS_STATE_MASK | WS_STATE_PAYLOAD | WS_STATE_COMPLETE

datatype ws_recv_status_t = WS_RECV_OK | WS_RECV_AGAIN | WS_RECV_FATAL

text \<open>A buffer with its count of bytes read is the list of the bytes read.\<close>

record ws_recv_state_t =
  wr_state :: ws_state_t
  wr_header :: bytes
  wr_ext_len_buf :: bytes
  wr_ext_len_expected :: nat
  wr_mask :: bytes
  wr_fin :: bool
  wr_opcode :: nat
  wr_masked :: bool
  wr_payload_len :: nat
  wr_payload :: bytes

definition ws_recv_init :: ws_recv_state_t where
  "ws_recv_init = \<lparr> wr_state = WS_STATE_HEADER, wr_header = [], wr_ext_len_buf = [],
     wr_ext_len_expected = 0, wr_mask = [], wr_fin = False, wr_opcode = 0, wr_masked = False,
     wr_payload_len = 0, wr_payload = [] \<rparr>"

definition MAX_WS_PAYLOAD :: nat where "MAX_WS_PAYLOAD = 10 * 1024 * 1024"

fun ws_needed :: "ws_recv_state_t \<Rightarrow> nat" where
  "ws_needed st = (case wr_state st of
       WS_STATE_HEADER \<Rightarrow> 2 - length (wr_header st)
     | WS_STATE_EXT_LEN \<Rightarrow> wr_ext_len_expected st - length (wr_ext_len_buf st)
     | WS_STATE_MASK \<Rightarrow> 4 - length (wr_mask st)
     | WS_STATE_PAYLOAD \<Rightarrow> wr_payload_len st - length (wr_payload st)
     | WS_STATE_COMPLETE \<Rightarrow> 0)"

text \<open>
  Each state's work once its bytes are in.  \<open>None\<close> goes on with the loop, \<open>Some\<close> returns.
\<close>

definition ws_header_read :: "ws_recv_state_t \<Rightarrow> ws_recv_status_t option \<times> ws_recv_state_t" where
  "ws_header_read st =
     (let h0 = wr_header st ! 0; h1 = wr_header st ! 1;
          st = st\<lparr> wr_fin := bit h0 7, wr_opcode := unat (h0 AND 0x0F), wr_masked := bit h1 7,
                   wr_payload_len := unat (h1 AND 0x7F) \<rparr>
      in if \<not> wr_fin st then (Some WS_RECV_FATAL, st)
         else if 0x8 \<le> wr_opcode st \<and> wr_opcode st \<le> 0xA \<and> wr_payload_len st > 125 then (Some WS_RECV_FATAL, st)
         else if \<not> wr_masked st then (Some WS_RECV_FATAL, st)
         else if wr_payload_len st = 126 then (None, st\<lparr> wr_ext_len_expected := 2, wr_state := WS_STATE_EXT_LEN \<rparr>)
         else if wr_payload_len st = 127 then (None, st\<lparr> wr_ext_len_expected := 8, wr_state := WS_STATE_EXT_LEN \<rparr>)
         else (None, st\<lparr> wr_state := WS_STATE_MASK \<rparr>))"

definition ws_ext_len_read :: "ws_recv_state_t \<Rightarrow> ws_recv_status_t option \<times> ws_recv_state_t" where
  "ws_ext_len_read st =
     (let b = wr_ext_len_buf st;
          st = st\<lparr> wr_payload_len := (if wr_ext_len_expected st = 2 then be16 (b ! 0) (b ! 1) else be64 b) \<rparr>
      in if wr_payload_len st > MAX_WS_PAYLOAD then (Some WS_RECV_FATAL, st)
         else (None, st\<lparr> wr_state := WS_STATE_MASK \<rparr>))"

definition ws_mask_read :: "bool \<Rightarrow> ws_recv_state_t \<Rightarrow> ws_recv_status_t option \<times> ws_recv_state_t" where
  "ws_mask_read malloc_ok st =
     (if wr_payload_len st > 0 then
        (if \<not> malloc_ok then (Some WS_RECV_FATAL, st) else (None, st\<lparr> wr_state := WS_STATE_PAYLOAD \<rparr>))
      else (None, st\<lparr> wr_state := WS_STATE_COMPLETE \<rparr>))"

definition ws_read_data :: "bool \<Rightarrow> bytes \<Rightarrow> ws_recv_state_t \<Rightarrow> ws_recv_status_t option \<times> ws_recv_state_t" where
  "ws_read_data malloc_ok d st =
     (case wr_state st of
        WS_STATE_HEADER \<Rightarrow>
          let st = st\<lparr> wr_header := wr_header st @ d \<rparr>
          in if length (wr_header st) < 2 then (Some WS_RECV_AGAIN, st) else ws_header_read st
      | WS_STATE_EXT_LEN \<Rightarrow>
          let st = st\<lparr> wr_ext_len_buf := wr_ext_len_buf st @ d \<rparr>
          in if length (wr_ext_len_buf st) < wr_ext_len_expected st then (Some WS_RECV_AGAIN, st) else ws_ext_len_read st
      | WS_STATE_MASK \<Rightarrow>
          let st = st\<lparr> wr_mask := wr_mask st @ d \<rparr>
          in if length (wr_mask st) < 4 then (Some WS_RECV_AGAIN, st) else ws_mask_read malloc_ok st
      | WS_STATE_PAYLOAD \<Rightarrow>
          let st = st\<lparr> wr_payload := wr_payload st @ d \<rparr>
          in if length (wr_payload st) < wr_payload_len st then (Some WS_RECV_AGAIN, st)
             else (None, st\<lparr> wr_state := WS_STATE_COMPLETE \<rparr>)
      | WS_STATE_COMPLETE \<Rightarrow> (None, st))"

fun ws_recv_step :: "bool \<Rightarrow> ws_rd \<Rightarrow> ws_recv_state_t \<Rightarrow> ws_recv_status_t option \<times> ws_recv_state_t" where
  "ws_recv_step malloc_ok WrAgain st = (Some WS_RECV_AGAIN, st)"
| "ws_recv_step malloc_ok WrFail st = (Some WS_RECV_FATAL, st)"
| "ws_recv_step malloc_ok (WrData d) st = (if d = [] then (Some WS_RECV_FATAL, st) else ws_read_data malloc_ok d st)"

fun ws_rank :: "ws_state_t \<Rightarrow> nat" where
  "ws_rank WS_STATE_HEADER = 4"
| "ws_rank WS_STATE_EXT_LEN = 3"
| "ws_rank WS_STATE_MASK = 2"
| "ws_rank WS_STATE_PAYLOAD = 1"
| "ws_rank WS_STATE_COMPLETE = 0"

lemmas ws_read_defs = ws_read_data_def ws_header_read_def ws_ext_len_read_def ws_mask_read_def

lemma ws_recv_step_rank:
  "ws_recv_step m rd st = (None, st') \<Longrightarrow> wr_state st \<noteq> WS_STATE_COMPLETE \<Longrightarrow>
     ws_rank (wr_state st') < ws_rank (wr_state st)"
  by (cases rd)
    (auto simp: ws_read_defs Let_def split: ws_state_t.splits if_splits)

text \<open>The loop of \<open>halmos_ws_recv_frame\<close>; the statuses it returns are those of the steps.\<close>

function ws_recv_loop ::
  "bool \<Rightarrow> ws_recv_state_t \<Rightarrow> net_event list \<Rightarrow> ws_recv_status_t \<times> ws_recv_state_t \<times> net_event list" where
  "ws_recv_loop malloc_ok st net =
     (if wr_state st = WS_STATE_COMPLETE then (WS_RECV_OK, st, net)
      else
        let r = ws_low_level_recv net (ws_needed st); s = ws_recv_step malloc_ok (fst r) st
        in case fst s of
             Some status \<Rightarrow> (status, snd s, snd r)
           | None \<Rightarrow> ws_recv_loop malloc_ok (snd s) (snd r))"
  by pat_completeness auto
termination
proof (relation "measure (\<lambda>(_, st, _). ws_rank (wr_state st))", goal_cases)
  case (2 malloc_ok st net r s)
  then show ?case
    using ws_recv_step_rank [of malloc_ok "fst r" st "snd s"] by (simp add: prod_eq_iff)
qed simp

declare ws_recv_loop.simps [simp del]

text \<open>The payload without its mask; \<open>NULL\<close> is the empty payload.\<close>

definition ws_unmask :: "bytes \<Rightarrow> bytes \<Rightarrow> bytes" where
  "ws_unmask key payload = map (\<lambda>i. payload ! i XOR key ! (i mod 4)) [0..<length payload]"

record ws_frame =
  wf_opcode :: nat
  wf_payload :: bytes

text \<open>
  One call: the status, the frame when there is one, the state kept for the next call and what is
  left on the socket.
\<close>

definition halmos_ws_recv_frame ::
  "bool \<Rightarrow> ws_recv_state_t \<Rightarrow> net_event list
     \<Rightarrow> ws_recv_status_t \<times> ws_frame option \<times> ws_recv_state_t \<times> net_event list" where
  "halmos_ws_recv_frame malloc_ok st net =
     (case ws_recv_loop malloc_ok st net of
        (WS_RECV_OK, st', net') \<Rightarrow>
          (WS_RECV_OK, Some \<lparr> wf_opcode = wr_opcode st', wf_payload = ws_unmask (wr_mask st') (wr_payload st') \<rparr>,
           ws_recv_init, net')
      | (status, st', net') \<Rightarrow> (status, None, st', net'))"

section \<open>Frames on the wire\<close>

text \<open>
  The length field of a frame: seven bits, or 126 and two bytes, or 127 and eight
  (\<open>ws_system_send_text\<close>).  A client's frame has the mask bit, a key and the payload under the key.
\<close>

definition ws_length_field :: "nat \<Rightarrow> u8 \<times> bytes" where
  "ws_length_field len =
     (if len \<le> 125 then (word_of_nat len, [])
      else if len \<le> 65535 then (126, [byte_of 1 len, byte_of 0 len])
      else (127, be64_bytes len))"

record client_frame =
  cl_opcode :: nat
  cl_key :: bytes
  cl_payload :: bytes

definition client_ok :: "client_frame \<Rightarrow> bool" where
  "client_ok c \<longleftrightarrow> cl_opcode c < 16 \<and> length (cl_key c) = 4 \<and> length (cl_payload c) \<le> MAX_WS_PAYLOAD
     \<and> (0x8 \<le> cl_opcode c \<and> cl_opcode c \<le> 0xA \<longrightarrow> length (cl_payload c) \<le> 125)"

definition cl_head :: "client_frame \<Rightarrow> bytes" where
  "cl_head c = [0x80 OR word_of_nat (cl_opcode c), 0x80 OR fst (ws_length_field (length (cl_payload c)))]"

definition cl_ext :: "client_frame \<Rightarrow> bytes" where
  "cl_ext c = snd (ws_length_field (length (cl_payload c)))"

definition client_bytes :: "client_frame \<Rightarrow> bytes" where
  "client_bytes c = cl_head c @ cl_ext c @ cl_key c @ ws_unmask (cl_key c) (cl_payload c)"

lemma length_ws_unmask [simp]: "length (ws_unmask k p) = length p"
  by (simp add: ws_unmask_def)

lemma ws_unmask_Nil [simp]: "ws_unmask k [] = []"
  by (simp add: ws_unmask_def)

lemma ws_unmask_unmask [simp]: "ws_unmask k (ws_unmask k p) = p"
  by (rule nth_equalityI) (simp_all add: ws_unmask_def xor.assoc)

lemma head_bits_all:
  "list_all (\<lambda>n. unat ((0x80 OR word_of_nat n :: u8) AND 0x7F) = n \<and> bit (0x80 OR word_of_nat n :: u8) 7) [0..<128]"
  "list_all (\<lambda>n. unat ((0x80 OR word_of_nat n :: u8) AND 0x0F) = n) [0..<16]"
  by code_simp+

lemma head_bits:
  "n < 128 \<Longrightarrow> unat ((0x80 OR word_of_nat n :: u8) AND 0x7F) = n"
  "n < 128 \<Longrightarrow> bit (0x80 OR word_of_nat n :: u8) 7"
  "n < 16 \<Longrightarrow> unat ((0x80 OR word_of_nat n :: u8) AND 0x0F) = n"
  using head_bits_all by (simp_all add: list_all_iff)

definition len7 :: "nat \<Rightarrow> nat" where
  "len7 n = (if n \<le> 125 then n else if n \<le> 65535 then 126 else 127)"

lemma length_field:
  "fst (ws_length_field n) = word_of_nat (len7 n)" "len7 n < 128"
  "length (snd (ws_length_field n)) = (if len7 n = 126 then 2 else if len7 n = 127 then 8 else 0)"
  by (auto simp: ws_length_field_def len7_def)

lemma ext_value:
  "len7 n = 126 \<Longrightarrow> be16 (snd (ws_length_field n) ! 0) (snd (ws_length_field n) ! Suc 0) = n"
  "len7 n = 127 \<Longrightarrow> n \<le> MAX_WS_PAYLOAD \<Longrightarrow> be64 (snd (ws_length_field n)) = n"
  "len7 n < 126 \<Longrightarrow> len7 n = n"
  using be64_be64_bytes [of n "[]"]
  by (auto simp: ws_length_field_def len7_def be16_byte_of MAX_WS_PAYLOAD_def split: if_splits)

text \<open>The receiver after the first \<open>n\<close> bytes of a frame.\<close>

definition st_head :: "client_frame \<Rightarrow> ws_recv_state_t" where
  "st_head c = ws_recv_init\<lparr> wr_header := cl_head c, wr_fin := True, wr_opcode := cl_opcode c,
     wr_masked := True, wr_payload_len := len7 (length (cl_payload c)), wr_ext_len_expected := length (cl_ext c) \<rparr>"

definition st_len :: "client_frame \<Rightarrow> ws_recv_state_t" where
  "st_len c = (st_head c)\<lparr> wr_ext_len_buf := cl_ext c, wr_payload_len := length (cl_payload c) \<rparr>"

definition st_done :: "client_frame \<Rightarrow> ws_recv_state_t" where
  "st_done c = (st_len c)\<lparr> wr_mask := cl_key c, wr_payload := ws_unmask (cl_key c) (cl_payload c),
     wr_state := WS_STATE_COMPLETE \<rparr>"

definition st_at :: "client_frame \<Rightarrow> nat \<Rightarrow> ws_recv_state_t" where
  "st_at c n =
     (let e = length (cl_ext c) in
      if n < 2 then ws_recv_init\<lparr> wr_header := take n (client_bytes c) \<rparr>
      else if n < 2 + e then
        (st_head c)\<lparr> wr_state := WS_STATE_EXT_LEN, wr_ext_len_buf := take (n - 2) (drop 2 (client_bytes c)) \<rparr>
      else if n < 6 + e then
        (st_len c)\<lparr> wr_state := WS_STATE_MASK, wr_mask := take (n - (2 + e)) (drop (2 + e) (client_bytes c)) \<rparr>
      else (st_len c)\<lparr> wr_state := WS_STATE_PAYLOAD, wr_mask := cl_key c,
                       wr_payload := take (n - (6 + e)) (drop (6 + e) (client_bytes c)) \<rparr>)"

lemma client_bytes_parts:
  assumes "client_ok c"
  shows "length (client_bytes c) = 6 + length (cl_ext c) + length (cl_payload c)"
    and "take 2 (client_bytes c) = cl_head c"
    and "take (length (cl_ext c)) (drop 2 (client_bytes c)) = cl_ext c"
    and "take 4 (drop (2 + length (cl_ext c)) (client_bytes c)) = cl_key c"
    and "drop (6 + length (cl_ext c)) (client_bytes c) = ws_unmask (cl_key c) (cl_payload c)"
proof -
  have "6 + length (cl_ext c) = length (cl_head c @ cl_ext c @ cl_key c)"
    using assms by (simp add: cl_head_def client_ok_def)
  then show "drop (6 + length (cl_ext c)) (client_bytes c) = ws_unmask (cl_key c) (cl_payload c)"
    unfolding client_bytes_def by (metis append.assoc append_eq_conv_conj)
qed (use assms in \<open>simp_all add: client_bytes_def cl_head_def client_ok_def\<close>)

text \<open>Bytes read at one position extend what was read there.\<close>

lemma take_drop_extend:
  "take (length d) (drop n f) = d \<Longrightarrow> a \<le> n \<Longrightarrow>
     take (n - a) (drop a f) @ d = take (n + length d - a) (drop a f)"
  using take_add [of "n - a" "length d" "drop a f"] by simp

lemma ws_read_head:
  assumes "client_ok c"
  shows "ws_header_read (ws_recv_init\<lparr> wr_header := cl_head c \<rparr>)
       = (None, if cl_ext c = [] then (st_len c)\<lparr> wr_state := WS_STATE_MASK \<rparr>
                else (st_head c)\<lparr> wr_state := WS_STATE_EXT_LEN \<rparr>)"
proof -
  let ?n = "length (cl_payload c)"
  have op: "cl_opcode c < 16" "0x8 \<le> cl_opcode c \<Longrightarrow> cl_opcode c \<le> 0xA \<Longrightarrow> len7 ?n \<le> 125"
    using assms by (auto simp: client_ok_def len7_def)
  have e: "length (cl_ext c) = (if len7 ?n = 126 then 2 else if len7 ?n = 127 then 8 else 0)"
    by (simp add: cl_ext_def length_field)
  then have "cl_ext c = [] \<longleftrightarrow> len7 ?n < 126"
    using length_field(2) [of ?n] by (auto simp: length_0_conv [symmetric] simp del: length_0_conv)
  then show ?thesis
    using op e head_bits(3) [OF op(1)] head_bits(2) [of "cl_opcode c"] head_bits(1,2) [OF length_field(2) [of ?n]]
      ext_value(3) [of ?n] length_field(2) [of ?n]
    by (auto simp: ws_header_read_def ws_recv_init_def st_head_def st_len_def cl_head_def length_field(1) Let_def)
qed

lemma ext_read:
  "client_ok c \<Longrightarrow> cl_ext c \<noteq> [] \<Longrightarrow>
     ws_ext_len_read ((st_head c)\<lparr> wr_state := WS_STATE_EXT_LEN, wr_ext_len_buf := cl_ext c \<rparr>)
       = (None, (st_len c)\<lparr> wr_state := WS_STATE_MASK \<rparr>)"
  using ext_value [of "length (cl_payload c)"] length_field(3) [of "length (cl_payload c)"]
  by (auto simp: ws_ext_len_read_def st_head_def st_len_def ws_recv_init_def Let_def client_ok_def cl_ext_def
      split: if_splits)

lemma ws_read_data_at:
  assumes c: "client_ok c" and n: "n < length (client_bytes c)" and d: "d \<noteq> []" "length d \<le> ws_needed (st_at c n)"
    and "take (length d) (drop n (client_bytes c)) = d"
  shows "if n + length d = length (client_bytes c)
         then ws_read_data True d (st_at c n) = (None, st_done c)
         else fst (ws_read_data True d (st_at c n)) \<in> {None, Some WS_RECV_AGAIN}
            \<and> snd (ws_read_data True d (st_at c n)) = st_at c (n + length d)"
proof -
  let ?f = "client_bytes c" and ?e = "length (cl_ext c)" and ?p = "length (cl_payload c)"
  note parts = client_bytes_parts [OF c]
  note more = take_drop_extend [OF assms(5)]
  consider (head) "n < 2" | (mid) "2 \<le> n" "n < 2 + ?e" | (key) "2 + ?e \<le> n" "n < 6 + ?e" | (payload) "6 + ?e \<le> n"
    by linarith
  then show ?thesis
  proof cases
    case head
    have need: "n + length d \<le> 2" using d head by (simp add: st_at_def ws_recv_init_def parts(1))
    have buf: "take n ?f @ d = take (n + length d) ?f" using more [of 0] by simp
    show ?thesis
    proof (cases "n + length d = 2")
      case True
      then have "take n ?f @ d = cl_head c" using buf parts(2) by simp
      then show ?thesis
        using head True ws_read_head [OF c] parts(1) d(1)
        by (simp add: st_at_def ws_read_data_def ws_recv_init_def cl_head_def Let_def st_len_def st_head_def)
    next
      case False
      then show ?thesis
        using head need buf parts(1) by (simp add: st_at_def ws_read_data_def ws_recv_init_def Let_def)
    qed
  next
    case mid
    then have st: "st_at c n = (st_head c)\<lparr> wr_state := WS_STATE_EXT_LEN, wr_ext_len_buf := take (n - 2) (drop 2 ?f) \<rparr>"
      by (simp add: st_at_def Let_def)
    have need: "n + length d \<le> 2 + ?e"
      using d(2) mid parts(1) by (simp add: st st_head_def)
    have buf: "take (n - 2) (drop 2 ?f) @ d = take (n + length d - 2) (drop 2 ?f)" using more mid by simp
    show ?thesis
    proof (cases "n + length d = 2 + ?e")
      case True
      then have "take (n - 2) (drop 2 ?f) @ d = cl_ext c" using buf parts(3) by simp
      moreover have "cl_ext c \<noteq> []" using mid by auto
      moreover have "(st_len c)\<lparr> wr_state := WS_STATE_MASK, wr_mask := [] \<rparr> = (st_len c)\<lparr> wr_state := WS_STATE_MASK \<rparr>"
        by (simp add: st_len_def st_head_def ws_recv_init_def)
      ultimately show ?thesis
        using True mid parts(1) ext_read [OF c] by (simp add: st ws_read_data_def st_head_def st_at_def Let_def)
    next
      case False
      then have "length (take (n - 2) (drop 2 ?f) @ d) < ?e" using need mid parts(1) by simp
      then show ?thesis
        using False mid need parts(1) buf by (simp add: st ws_read_data_def st_head_def st_at_def Let_def)
    qed
  next
    case key
    then have st: "st_at c n = (st_len c)\<lparr> wr_state := WS_STATE_MASK, wr_mask := take (n - (2 + ?e)) (drop (2 + ?e) ?f) \<rparr>"
      by (simp add: st_at_def Let_def)
    have k4: "length (cl_key c) = 4" using c by (simp add: client_ok_def)
    have need: "n + length d \<le> 6 + ?e"
      using d(2) key parts(1) by (simp add: st st_len_def)
    have buf: "take (n - (2 + ?e)) (drop (2 + ?e) ?f) @ d = take (n + length d - (2 + ?e)) (drop (2 + ?e) ?f)"
      using more key by simp
    show ?thesis
    proof (cases "n + length d = 6 + ?e")
      case True
      then have "take (n - (2 + ?e)) (drop (2 + ?e) ?f) @ d = cl_key c" using buf parts(4) by simp
      then show ?thesis
        using True key parts(1) k4
        by (simp add: st ws_read_data_def ws_mask_read_def st_len_def st_done_def st_head_def ws_recv_init_def st_at_def Let_def)
    next
      case False
      then have "length (take (n - (2 + ?e)) (drop (2 + ?e) ?f) @ d) < 4" using need key parts(1) by simp
      then show ?thesis
        using False key need parts(1) buf by (simp add: st ws_read_data_def st_len_def st_at_def Let_def)
    qed
  next
    case payload
    then have st: "st_at c n = (st_len c)\<lparr> wr_state := WS_STATE_PAYLOAD, wr_mask := cl_key c,
        wr_payload := take (n - (6 + ?e)) (drop (6 + ?e) ?f) \<rparr>"
      by (simp add: st_at_def Let_def)
    have buf: "take (n - (6 + ?e)) (drop (6 + ?e) ?f) @ d = take (n + length d - (6 + ?e)) (drop (6 + ?e) ?f)"
      using more payload by simp
    have len: "length (take (n - (6 + ?e)) (drop (6 + ?e) ?f) @ d) = n + length d - (6 + ?e)"
      using payload n parts(1) by simp
    show ?thesis
      using payload n len d(2) parts(1,5) buf
      by (auto simp: st ws_read_data_def st_len_def st_done_def st_head_def st_at_def Let_def)
  qed
qed

section \<open>A connection\<close>

text \<open>Calls of the receiver as long as there is something on the socket: the frames and the end state.\<close>

fun net_bytes :: "net_event list \<Rightarrow> bytes" where
  "net_bytes [] = []"
| "net_bytes (Arrived b # es) = b @ net_bytes es"
| "net_bytes (e # es) = net_bytes es"

fun net_size :: "net_event list \<Rightarrow> nat" where
  "net_size [] = 0"
| "net_size (Arrived b # es) = 1 + length b + net_size es"
| "net_size (e # es) = 1 + net_size es"

definition net_ok :: "net_event list \<Rightarrow> bool" where
  "net_ok net \<longleftrightarrow> Hangup \<notin> set net \<and> Arrived [] \<notin> set net"

lemma recv_shrinks:
  "net_size (snd (ws_low_level_recv net n)) \<le> net_size net"
  "net \<noteq> [] \<Longrightarrow> 0 < n \<Longrightarrow> net_size (snd (ws_low_level_recv net n)) < net_size net"
  by (induction net n rule: ws_low_level_recv.induct) auto

lemma loop_shrinks: "net_size (snd (snd (ws_recv_loop m st net))) \<le> net_size net"
proof (induction m st net rule: ws_recv_loop.induct)
  case (1 m st net)
  show ?case
  proof (cases "wr_state st = WS_STATE_COMPLETE")
    case False
    then show ?thesis
      using 1 recv_shrinks(1) [of net "ws_needed st"]
      by (subst ws_recv_loop.simps) (fastforce simp: Let_def split: option.splits)
  qed (simp add: ws_recv_loop.simps)
qed

lemma loop_consumes:
  assumes "net \<noteq> []" and "0 < ws_needed st" and "wr_state st \<noteq> WS_STATE_COMPLETE"
  shows "net_size (snd (snd (ws_recv_loop m st net))) < net_size net"
  using assms loop_shrinks recv_shrinks(2) [OF assms(1,2)]
  by (subst ws_recv_loop.simps) (fastforce simp: Let_def split: option.splits intro: le_less_trans)

lemma needed_state: "0 < ws_needed st \<Longrightarrow> wr_state st \<noteq> WS_STATE_COMPLETE"
  by auto

declare ws_needed.simps [simp del]

lemma recv_frame_consumes:
  "(status, f, st', net') = halmos_ws_recv_frame m st net \<Longrightarrow> net \<noteq> [] \<Longrightarrow> 0 < ws_needed st \<Longrightarrow>
     net_size net' < net_size net"
  using loop_consumes [of net st m] needed_state [of st]
  by (cases "ws_recv_loop m st net") (auto simp: halmos_ws_recv_frame_def split: ws_recv_status_t.splits)

text \<open>A call on a state that waits for bytes consumes something, so the calls end.\<close>

function ws_serve :: "ws_recv_state_t \<Rightarrow> net_event list \<Rightarrow> ws_frame list \<times> ws_recv_state_t option" where
  "ws_serve st net =
     (if net = [] \<or> ws_needed st = 0 then ([], Some st)
      else
        case halmos_ws_recv_frame True st net of
          (status, f, st', net') \<Rightarrow>
            if status = WS_RECV_FATAL then ([], None)
            else apfst ((@) (case f of None \<Rightarrow> [] | Some x \<Rightarrow> [x])) (ws_serve st' net'))"
  by pat_completeness auto
termination
  by (relation "measure (\<lambda>(_, net). net_size net)") (auto intro: recv_frame_consumes)

declare ws_serve.simps [simp del]

text \<open>One call on a connection on which the rest of a frame, and more, is still to come.\<close>

lemma needed_at: "client_ok c \<Longrightarrow> n < length (client_bytes c) \<Longrightarrow> 0 < ws_needed (st_at c n)"
  by (auto simp: ws_needed.simps st_at_def Let_def ws_recv_init_def st_len_def client_bytes_parts(1) st_head_def)

lemma state_at: "wr_state (st_at c n) \<noteq> WS_STATE_COMPLETE"
  by (auto simp: st_at_def Let_def ws_recv_init_def)

lemma recv_data:
  assumes "net_ok net" and "0 < k" and "ws_low_level_recv net k = (rd, net')"
  shows "net_ok net' \<and> (rd = WrAgain \<and> net_bytes net' = net_bytes net
         \<or> (\<exists>d. rd = WrData d \<and> d \<noteq> [] \<and> length d \<le> k \<and> net_bytes net = d @ net_bytes net'))"
  using assms by (cases "(net, k)" rule: ws_low_level_recv.cases) (auto simp: net_ok_def split: if_splits)

lemma loop_at:
  assumes "client_ok c" and "n < length (client_bytes c)" and "net_ok net"
    and "net_bytes net = drop n (client_bytes c) @ rest"
  shows "\<exists>net'. net_ok net' \<and>
     (ws_recv_loop True (st_at c n) net = (WS_RECV_OK, st_done c, net') \<and> net_bytes net' = rest
      \<or> (\<exists>n'. n' < length (client_bytes c) \<and> ws_recv_loop True (st_at c n) net = (WS_RECV_AGAIN, st_at c n', net')
              \<and> net_bytes net' = drop n' (client_bytes c) @ rest))"
  using assms(2-)
proof (induction "length (client_bytes c) - n" arbitrary: n net rule: less_induct)
  case less
  let ?f = "client_bytes c"
  obtain rd net1 where r: "ws_low_level_recv net (ws_needed (st_at c n)) = (rd, net1)" by fastforce
  note got = recv_data [OF less.prems(2) needed_at [OF assms(1) less.prems(1)] r]
  show ?case
  proof (cases rd)
    case (WrData d)
    with got have d: "net_ok net1" "d \<noteq> []" "length d \<le> ws_needed (st_at c n)" "net_bytes net = d @ net_bytes net1"
      by auto
    have need: "ws_needed (st_at c n) \<le> length ?f - n"
      using less.prems(1) client_bytes_parts(1) [OF assms(1)]
      by (auto simp: ws_needed.simps st_at_def Let_def ws_recv_init_def st_len_def st_head_def)
    have le: "length d \<le> length ?f - n" using need d(3) by simp
    have all: "d @ net_bytes net1 = drop n ?f @ rest" using less.prems(3) d(4) by simp
    have pre: "take (length d) (drop n ?f) = d" using arg_cong [OF all, of "take (length d)"] le by simp
    have rest1: "net_bytes net1 = drop (n + length d) ?f @ rest"
      using arg_cong [OF all, of "drop (length d)"] le by (simp add: add.commute)
    note step = ws_read_data_at [OF assms(1) less.prems(1) d(2,3) pre]
    let ?s = "ws_read_data True d (st_at c n)"
    have loop: "ws_recv_loop True (st_at c n) net =
        (case fst ?s of Some status \<Rightarrow> (status, snd ?s, net1) | None \<Rightarrow> ws_recv_loop True (snd ?s) net1)"
      using WrData r d(2) state_at [of c n] by (subst ws_recv_loop.simps) (simp add: Let_def split: option.splits)
    show ?thesis
    proof (cases "n + length d = length ?f")
      case True
      then have "ws_recv_loop True (st_at c n) net = (WS_RECV_OK, st_done c, net1)"
        using step loop by (simp add: ws_recv_loop.simps st_done_def)
      then show ?thesis using d(1) rest1 True by auto
    next
      case False
      then have n1: "n + length d < length ?f" using le less.prems(1) by simp
      have "length ?f - (n + length d) < length ?f - n" using n1 d(2) by (simp add: length_greater_0_conv [symmetric] del: length_greater_0_conv)
      note ih = less.hyps [OF this n1 d(1) rest1]
      have snd: "snd ?s = st_at c (n + length d)" and "fst ?s = None \<or> fst ?s = Some WS_RECV_AGAIN"
        using step False by auto
      then show ?thesis
      proof (elim disjE)
        assume "fst ?s = None"
        then have "ws_recv_loop True (st_at c n) net = ws_recv_loop True (st_at c (n + length d)) net1"
          using loop snd by simp
        then show ?thesis using ih by simp
      next
        assume "fst ?s = Some WS_RECV_AGAIN"
        then have "ws_recv_loop True (st_at c n) net = (WS_RECV_AGAIN, st_at c (n + length d), net1)"
          using loop snd by simp
        then show ?thesis using d(1) rest1 n1 by blast
      qed
    qed
  next
    case WrAgain
    then show ?thesis
      using got less.prems r state_at [of c n] by (subst ws_recv_loop.simps) auto
  next
    case WrFail
    then show ?thesis using got by auto
  qed
qed

definition frame_of :: "client_frame \<Rightarrow> ws_frame" where
  "frame_of c = \<lparr> wf_opcode = cl_opcode c, wf_payload = cl_payload c \<rparr>"

lemma st_at_0: "st_at c 0 = ws_recv_init"
  by (simp add: st_at_def ws_recv_init_def)

lemma frame_done: "wr_opcode (st_done c) = cl_opcode c"
    "ws_unmask (wr_mask (st_done c)) (wr_payload (st_done c)) = cl_payload c"
  by (simp_all add: st_done_def st_len_def st_head_def)

lemma idle_recv:
  "net_bytes net = [] \<Longrightarrow> net_ok net \<Longrightarrow> 0 < ws_needed st \<Longrightarrow>
     \<exists>net'. ws_recv_loop True st net = (WS_RECV_AGAIN, st, net') \<and> net_bytes net' = [] \<and> net_ok net'"
  by (subst ws_recv_loop.simps, cases "(net, ws_needed st)" rule: ws_low_level_recv.cases)
    (auto simp: Let_def net_ok_def dest: needed_state)

lemma idle_serve: "net_bytes net = [] \<Longrightarrow> net_ok net \<Longrightarrow> ws_serve ws_recv_init net = ([], Some ws_recv_init)"
proof (induction "net_size net" arbitrary: net rule: less_induct)
  case less
  show ?case
  proof (cases "net = []")
    case False
    have need: "0 < ws_needed ws_recv_init" by (simp add: ws_needed.simps ws_recv_init_def)
    obtain net' where net': "ws_recv_loop True ws_recv_init net = (WS_RECV_AGAIN, ws_recv_init, net')"
        "net_bytes net' = []" "net_ok net'"
      using idle_recv [OF less.prems need] by blast
    then have "net_size net' < net_size net"
      using loop_consumes [OF False need needed_state [OF need], of True] by simp
    from less.hyps [OF this net'(2,3)] show ?thesis
      using net'(1) False need by (subst ws_serve.simps) (simp add: halmos_ws_recv_frame_def)
  qed (simp add: ws_serve.simps)
qed

lemma serve_at:
  assumes "\<forall>c \<in> set (c # cs). client_ok c" and "n < length (client_bytes c)" and "net_ok net"
    and "net_bytes net = drop n (client_bytes c) @ concat (map client_bytes cs)"
  shows "ws_serve (st_at c n) net = (map frame_of (c # cs), Some ws_recv_init)"
  using assms
proof (induction "net_size net" arbitrary: net c cs n rule: less_induct)
  case less
  have ok: "client_ok c" using less.prems(1) by simp
  have ne: "net \<noteq> []" using less.prems(2,4) by auto
  note need = needed_at [OF ok less.prems(2)]
  obtain net' where net': "net_ok net'"
    "ws_recv_loop True (st_at c n) net = (WS_RECV_OK, st_done c, net') \<and> net_bytes net' = concat (map client_bytes cs)
      \<or> (\<exists>n'. n' < length (client_bytes c) \<and> ws_recv_loop True (st_at c n) net = (WS_RECV_AGAIN, st_at c n', net')
              \<and> net_bytes net' = drop n' (client_bytes c) @ concat (map client_bytes cs))"
    using loop_at [OF ok less.prems(2,3,4)] by blast
  then have small: "net_size net' < net_size net"
    using loop_consumes [OF ne need state_at, of True] by auto
  from net'(2) show ?case
  proof (elim disjE conjE exE)
    assume l: "ws_recv_loop True (st_at c n) net = (WS_RECV_OK, st_done c, net')"
      and b: "net_bytes net' = concat (map client_bytes cs)"
    have "ws_serve ws_recv_init net' = (map frame_of cs, Some ws_recv_init)"
    proof (cases cs)
      case Nil
      then show ?thesis using idle_serve [OF _ net'(1)] b by simp
    next
      case (Cons c1 cs1)
      then have "0 < length (client_bytes c1)" by (simp add: client_bytes_def cl_head_def)
      then show ?thesis
        using less.hyps [OF small, where c = c1 and cs = cs1 and n = 0] less.prems(1) net'(1) b Cons by (simp add: st_at_0)
    qed
    then show ?thesis
      using l ne need by (subst ws_serve.simps) (simp add: halmos_ws_recv_frame_def frame_done frame_of_def)
  next
    fix n'
    assume n': "n' < length (client_bytes c)" and l: "ws_recv_loop True (st_at c n) net = (WS_RECV_AGAIN, st_at c n', net')"
      and b: "net_bytes net' = drop n' (client_bytes c) @ concat (map client_bytes cs)"
    from less.hyps [OF small less.prems(1) n' net'(1) b] show ?thesis
      using l ne need by (subst ws_serve.simps) (simp add: halmos_ws_recv_frame_def)
  qed
qed

section \<open>Properties\<close>

text \<open>C24: frames arrive whole however the network cuts them: whatever frames a client sends (with any
  key, of any length the server takes, control frames up to 125 bytes), and however its bytes arrive in
  pieces with pauses between, even inside a header, the calls of the receiver return exactly those
  frames, unmasked and in order, and leave the receiver in its initial state.\<close>

theorem ws_frames_chunk_independent:
  assumes "\<forall>c \<in> set cs. client_ok c" and "net_ok net" and "net_bytes net = concat (map client_bytes cs)"
  shows "ws_serve ws_recv_init net = (map (\<lambda>c. \<lparr> wf_opcode = cl_opcode c, wf_payload = cl_payload c \<rparr>) cs, Some ws_recv_init)"
proof (cases cs)
  case Nil
  then show ?thesis using idle_serve assms by simp
next
  case (Cons c cs')
  then have "0 < length (client_bytes c)" by (simp add: client_bytes_def cl_head_def)
  then show ?thesis
    using serve_at [of c cs' 0 net] assms Cons by (simp add: st_at_0 frame_of_def)
qed

theorem ws_frames_chunk_independent_witness:
  "ws_serve ws_recv_init
     [Arrived [0x81], NotYet, Arrived [0x82, 1, 2, 3], NotYet, Arrived [4, 0x69, 0x6B, 0x89, 0x80, 0], Arrived [0, 0, 0]]
   = ([\<lparr> wf_opcode = 1, wf_payload = [0x68, 0x69] \<rparr>, \<lparr> wf_opcode = 9, wf_payload = [] \<rparr>], Some ws_recv_init)"
proof -
  let ?net = "[Arrived [0x81], NotYet, Arrived [0x82, 1, 2, 3], NotYet, Arrived [4, 0x69, 0x6B, 0x89, 0x80, 0], Arrived [0, 0, 0]]"
  let ?cs = "[\<lparr> cl_opcode = 1, cl_key = [1, 2, 3, 4], cl_payload = [0x68, 0x69] \<rparr>,
              \<lparr> cl_opcode = 9, cl_key = [0, 0, 0, 0], cl_payload = [] \<rparr>]"
  have "\<forall>c \<in> set ?cs. client_ok c" by (simp add: client_ok_def MAX_WS_PAYLOAD_def)
  moreover have "net_ok ?net" by (simp add: net_ok_def)
  moreover have "net_bytes ?net = concat (map client_bytes ?cs)" by code_simp
  ultimately show ?thesis using ws_frames_chunk_independent [of ?cs ?net] by simp
qed

end
