(* ===== verification/Ws_Send.thy ===== *)
theory Ws_Send
  imports Ws_Frame H2_Socket Http_Utils
begin

text \<open>
  What the WebSocket module of src/protocol/websocket/halmos_ws_system.c sends: text frames on an
  HTTP/1 connection and inside the DATA frames of an HTTP/2 stream, the resumption of a frame that
  went out in part, pongs, and the answer to the handshake with its Base64 key.

  SHA-1 and the calls to \<open>send\<close> and \<open>SSL_write\<close> are arguments, the latter by their results.
\<close>

section \<open>Outgoing frames\<close>

datatype ws_send_status_t = WS_SEND_OK | WS_SEND_RETRY | WS_SEND_FATAL

record ws_outgoing_frame_t =
  wo_data :: bytes
  wo_offset :: nat

definition ws_frame_create_raw :: "bool \<Rightarrow> bytes \<Rightarrow> ws_outgoing_frame_t option" where
  "ws_frame_create_raw malloc_ok data = (if malloc_ok then Some \<lparr> wo_data = data, wo_offset = 0 \<rparr> else None)"

text \<open>One attempt: the status, the frame and the bytes that went out.\<close>

fun ws_low_level_send_frame ::
  "send_result \<Rightarrow> ws_outgoing_frame_t \<Rightarrow> ws_send_status_t \<times> ws_outgoing_frame_t \<times> bytes" where
  "ws_low_level_send_frame (Sent n) f =
     (if n = 0 then (WS_SEND_FATAL, f, [])
      else
        let f' = f\<lparr> wo_offset := wo_offset f + n \<rparr>
        in (if wo_offset f' < length (wo_data f') then WS_SEND_RETRY else WS_SEND_OK, f',
            take n (drop (wo_offset f) (wo_data f))))"
| "ws_low_level_send_frame SendAgain f = (WS_SEND_RETRY, f, [])"
| "ws_low_level_send_frame SendFail f = (WS_SEND_FATAL, f, [])"

text \<open>The frame is handed to the caller for a retry when the caller has a place for it.\<close>

definition ws_send_first ::
  "bool \<Rightarrow> bool \<Rightarrow> send_result \<Rightarrow> bytes \<Rightarrow> ws_send_status_t \<times> ws_outgoing_frame_t option \<times> bytes" where
  "ws_send_first malloc_ok wants_frame r data =
     (case ws_frame_create_raw malloc_ok data of
        None \<Rightarrow> (WS_SEND_FATAL, None, [])
      | Some f \<Rightarrow>
          (case ws_low_level_send_frame r f of
             (status, f', out) \<Rightarrow> (status, if status = WS_SEND_RETRY \<and> wants_frame then Some f' else None, out)))"

definition ws_text_frame :: "bytes \<Rightarrow> bytes" where
  "ws_text_frame t = 0x81 # fst (ws_length_field (length t)) # snd (ws_length_field (length t)) @ t"

definition ws_system_send_text ::
  "bool \<Rightarrow> bool \<Rightarrow> send_result \<Rightarrow> bytes option \<Rightarrow> nat \<Rightarrow> ws_send_status_t \<times> ws_outgoing_frame_t option \<times> bytes" where
  "ws_system_send_text malloc_ok wants_frame r t len =
     (if t = None \<and> len \<noteq> 0 then (WS_SEND_FATAL, None, [])
      else ws_send_first malloc_ok wants_frame r (ws_text_frame (case t of None \<Rightarrow> [] | Some b \<Rightarrow> take len b)))"

text \<open>Inside a DATA frame without flags, whose length field keeps 24 bits.  The text is a C string.\<close>

definition h2_data_header :: "nat \<Rightarrow> u32 \<Rightarrow> bytes" where
  "h2_data_header len stream_id =
     (let sid = unat (stream_id AND 0x7FFFFFFF)
      in [byte_of 2 len, byte_of 1 len, byte_of 0 len, 0, 0, byte_of 3 sid, byte_of 2 sid, byte_of 1 sid, byte_of 0 sid])"

definition ws_text_frame_h2 :: "u32 \<Rightarrow> bytes \<Rightarrow> bytes" where
  "ws_text_frame_h2 stream_id t =
     h2_data_header (length (ws_text_frame t)) stream_id @ ws_text_frame t"

definition ws_system_send_text_h2 ::
  "bool \<Rightarrow> bool \<Rightarrow> send_result \<Rightarrow> u32 \<Rightarrow> string option \<Rightarrow> ws_send_status_t \<times> ws_outgoing_frame_t option \<times> bytes" where
  "ws_system_send_text_h2 malloc_ok wants_frame r stream_id t =
     (case t of
        None \<Rightarrow> (WS_SEND_FATAL, None, [])
      | Some s \<Rightarrow> ws_send_first malloc_ok wants_frame r (ws_text_frame_h2 stream_id (bytes_of (cstr s))))"

definition ws_system_send_retry ::
  "send_result \<Rightarrow> ws_outgoing_frame_t option \<Rightarrow> ws_send_status_t \<times> ws_outgoing_frame_t option \<times> bytes" where
  "ws_system_send_retry r f =
     (case f of
        None \<Rightarrow> (WS_SEND_FATAL, None, [])
      | Some f \<Rightarrow>
          (case ws_low_level_send_frame r f of
             (status, f', out) \<Rightarrow> (status, if status = WS_SEND_RETRY then Some f' else None, out)))"

definition pong_frame :: bytes where "pong_frame = [0x8A, 0x00]"

definition pong_frame_h2 :: "u32 \<Rightarrow> bytes" where
  "pong_frame_h2 stream_id = h2_data_header 2 stream_id @ pong_frame"

section \<open>The handshake\<close>

definition b64_table :: string where
  "b64_table = ''ABCDEFGHIJKLMNOPQRSTUVWXYZabcdefghijklmnopqrstuvwxyz0123456789+/''"

definition b64_char :: "u8 \<Rightarrow> char" where
  "b64_char w = b64_table ! unat w"

fun ws_base64_encode :: "bytes \<Rightarrow> string" where
  "ws_base64_encode (a # b # c # rest) =
     [b64_char (drop_bit 2 a AND 0x3F), b64_char (push_bit 4 (a AND 0x3) OR drop_bit 4 b),
      b64_char (push_bit 2 (b AND 0xF) OR drop_bit 6 c), b64_char (c AND 0x3F)] @ ws_base64_encode rest"
| "ws_base64_encode [a, b] =
     [b64_char (drop_bit 2 a AND 0x3F), b64_char (push_bit 4 (a AND 0x3) OR drop_bit 4 b),
      b64_char (push_bit 2 (b AND 0xF)), CHR ''='']"
| "ws_base64_encode [a] =
     [b64_char (drop_bit 2 a AND 0x3F), b64_char (push_bit 4 (a AND 0x3)), CHR ''='', CHR ''='']"
| "ws_base64_encode [] = []"

definition WS_GUID :: string where "WS_GUID = ''258EAFA5-E914-47DA-95CA-C5AB0DC85B11''"

definition ws_create_accept_key :: "(bytes \<Rightarrow> bytes) \<Rightarrow> string \<Rightarrow> string" where
  "ws_create_accept_key sha1 client_key = ws_base64_encode (sha1 (bytes_of (c_copy 256 (client_key @ WS_GUID))))"

definition ws_is_upgrade_request :: "RequestHeader \<Rightarrow> bool" where
  "ws_is_upgrade_request req \<longleftrightarrow>
     c_strcasecmp_eq (rh_method req) ''GET'' \<and> rh_is_upgrade req \<and> rh_ws_key req \<notin> {None, Some []}"

definition crlf :: string where "crlf = [CHR 0x0D, CHR 0x0A]"

definition upgrade_response :: "string \<Rightarrow> string" where
  "upgrade_response accept_key = c_copy 512
     (''HTTP/1.1 101 Switching Protocols'' @ crlf @ ''Upgrade: websocket'' @ crlf @ ''Connection: Upgrade'' @ crlf
      @ ''Sec-WebSocket-Accept: '' @ accept_key @ crlf @ ''Server: Halmos-Savage/2.1'' @ crlf @ crlf)"

section \<open>Sending resumed\<close>

text \<open>A first attempt and then retries as long as the frame is kept.\<close>

fun ws_send_retries ::
  "ws_send_status_t \<times> ws_outgoing_frame_t option \<times> bytes \<Rightarrow> send_result list
     \<Rightarrow> ws_send_status_t \<times> ws_outgoing_frame_t option \<times> bytes" where
  "ws_send_retries (status, Some f, out) (r # rs) =
     (case ws_system_send_retry r (Some f) of (status', f', out') \<Rightarrow> ws_send_retries (status', f', out @ out') rs)"
| "ws_send_retries (status, f, out) rs = (status, f, out)"

text \<open>What has gone out is a prefix of the frame, and the frame kept knows how long it is.\<close>

definition send_state_ok :: "bytes \<Rightarrow> ws_send_status_t \<times> ws_outgoing_frame_t option \<times> bytes \<Rightarrow> bool" where
  "send_state_ok data s =
     (case s of (status, f, out) \<Rightarrow>
        out = take (length out) data \<and> (status = WS_SEND_OK \<longleftrightarrow> length out = length data)
        \<and> (f = (if status = WS_SEND_RETRY then Some \<lparr> wo_data = data, wo_offset = length out \<rparr> else None)))"

lemma low_level_send_ok:
  assumes "length out < length data" and "out = take (length out) data"
    and "ws_low_level_send_frame r \<lparr> wo_data = data, wo_offset = length out \<rparr> = (status, f, out')"
    and "\<forall>n. r = Sent n \<longrightarrow> n \<le> length data - length out"
  shows "send_state_ok data (status, if status = WS_SEND_RETRY then Some f else None, out @ out')"
proof (cases r)
  case (Sent n)
  have "out @ take n (drop (length out) data) = take (length out + n) data"
    using assms(2) take_add [of "length out" n data] by simp
  then show ?thesis
    using assms Sent by (auto simp: send_state_ok_def Let_def split: if_splits)
qed (use assms in \<open>auto simp: send_state_ok_def\<close>)

text \<open>The operating system never takes more than it is given.\<close>

definition results_ok :: "nat \<Rightarrow> send_result list \<Rightarrow> bool" where
  "results_ok len rs \<longleftrightarrow> sum_list (map (\<lambda>r. case r of Sent n \<Rightarrow> n | _ \<Rightarrow> 0) rs) \<le> len"

definition result_size :: "send_result \<Rightarrow> nat" where
  "result_size r = (case r of Sent n \<Rightarrow> n | _ \<Rightarrow> 0)"

lemma results_ok_Cons:
  assumes "results_ok len (r # rs)" and "ws_low_level_send_frame r f = (status, f', out)"
  shows "results_ok (len - length out) rs"
proof -
  have "length out \<le> result_size r"
    using assms(2) by (cases r) (auto simp: result_size_def Let_def split: if_splits)
  then show ?thesis
    using assms(1) unfolding results_ok_def result_size_def [symmetric] by simp
qed

lemma retries_ok:
  "send_state_ok data (status, f, out) \<Longrightarrow> results_ok (length data - length out) rs \<Longrightarrow>
     send_state_ok data (ws_send_retries (status, f, out) rs)"
proof (induction rs arbitrary: status f out)
  case (Cons r rs)
  show ?case
  proof (cases f)
    case (Some g)
    with Cons.prems(1) have g: "g = \<lparr> wo_data = data, wo_offset = length out \<rparr>" "out = take (length out) data"
        "length out < length data"
      by (auto simp: send_state_ok_def split: if_splits dest: arg_cong [of _ _ length])
    obtain status' g' out' where low: "ws_low_level_send_frame r g = (status', g', out')"
      by (metis prod_cases3)
    have fit: "\<forall>n. r = Sent n \<longrightarrow> n \<le> length data - length out"
      using Cons.prems(2) by (auto simp: results_ok_def)
    have "results_ok (length data - length (out @ out')) rs"
      using results_ok_Cons [OF Cons.prems(2) low] by simp
    with Cons.IH [OF low_level_send_ok [OF g(3,2) low [unfolded g(1)] fit]] show ?thesis
      using Some low by (simp add: ws_system_send_retry_def)
  qed (use Cons.prems in simp)
qed simp

section \<open>Base64\<close>

definition b64_val :: "char \<Rightarrow> u8" where
  "b64_val c = (case find (\<lambda>i. b64_table ! i = c) [0..<64] of Some i \<Rightarrow> word_of_nat i | None \<Rightarrow> 0)"

fun b64_decode :: "string \<Rightarrow> bytes" where
  "b64_decode (w # x # y # z # rest) =
     (let a = push_bit 2 (b64_val w) OR drop_bit 4 (b64_val x)
      in if y = CHR ''='' then [a]
         else
           let b = push_bit 4 (b64_val x) OR drop_bit 2 (b64_val y)
           in if z = CHR ''='' then [a, b]
              else a # b # (push_bit 6 (b64_val y) OR b64_val z) # b64_decode rest)"
| "b64_decode _ = []"

lemma b64_table_all:
  "list_all (\<lambda>i. b64_val (b64_table ! i) = word_of_nat i \<and> b64_table ! i \<noteq> CHR ''='') [0..<64]"
  by code_simp

lemma b64_char: "w < 64 \<Longrightarrow> b64_val (b64_char w) = w" "w < 64 \<Longrightarrow> b64_char w \<noteq> CHR ''=''"
proof -
  assume "w < (64 :: u8)"
  then have "unat w \<in> set [0..<64]" by (simp add: word_less_nat_alt)
  with b64_table_all show "b64_val (b64_char w) = w" "b64_char w \<noteq> CHR ''=''"
    by (auto simp: list_all_iff b64_char_def)
qed

lemma sextet: "take_bit 6 w = w \<Longrightarrow> w < (64 :: u8)"
proof -
  assume "take_bit 6 w = w"
  then have "unat w = take_bit 6 (unat w)" using unsigned_take_bit_eq [of 6 w, where ?'a = nat] by simp
  also have "\<dots> < 2 ^ 6" by (rule take_bit_nat_less_exp)
  finally show ?thesis by (simp add: word_less_nat_alt)
qed

lemma bit8: "n < 8 \<Longrightarrow> n = 0 \<or> n = 1 \<or> n = 2 \<or> n = 3 \<or> n = 4 \<or> n = 5 \<or> n = 6 \<or> n = (7 :: nat)"
  by linarith

lemma bit8': "n < LENGTH(8) \<Longrightarrow> n = 0 \<or> n = 1 \<or> n = 2 \<or> n = 3 \<or> n = 4 \<or> n = 5 \<or> n = 6 \<or> n = (7 :: nat)"
  using bit8 [of n] by simp

lemma bit_u8_beyond: "8 \<le> n \<Longrightarrow> \<not> bit (w :: u8) n"
  using bit_imp_le_length [of w n] by auto

lemma sextet_a: "drop_bit 2 a AND 0x3F < 64" for a b c :: u8
  by (rule sextet, rule bit_word_eqI, drule bit8'; elim disjE; simp add: bit_simps bit_u8_beyond)

lemma sextet_b: "push_bit 4 (a AND 0x3) OR drop_bit 4 b < 64" for a b c :: u8
  by (rule sextet, rule bit_word_eqI, drule bit8'; elim disjE; simp add: bit_simps bit_u8_beyond)

lemma sextet_c: "push_bit 2 (b AND 0xF) OR drop_bit 6 c < 64" for a b c :: u8
  by (rule sextet, rule bit_word_eqI, drule bit8'; elim disjE; simp add: bit_simps bit_u8_beyond)

lemma sextet_d: "c AND 0x3F < 64" for a b c :: u8
  by (rule sextet, rule bit_word_eqI, drule bit8'; elim disjE; simp add: bit_simps bit_u8_beyond)

lemma sextet_e: "push_bit 4 (a AND 0x3) < 64" for a b c :: u8
  by (rule sextet, rule bit_word_eqI, drule bit8'; elim disjE; simp add: bit_simps bit_u8_beyond)

lemma sextet_f: "push_bit 2 (b AND 0xF) < 64" for a b c :: u8
  by (rule sextet, rule bit_word_eqI, drule bit8'; elim disjE; simp add: bit_simps bit_u8_beyond)

lemmas sextets = sextet_a sextet_b sextet_c sextet_d sextet_e sextet_f

lemma octet_a: "push_bit 2 (drop_bit 2 a AND 0x3F) OR drop_bit 4 (push_bit 4 (a AND 0x3) OR drop_bit 4 b) = a" for a b c :: u8
  by (rule bit_word_eqI, drule bit8'; elim disjE; simp add: bit_simps numeral_2_eq_2 [symmetric] numeral_3_eq_3 [symmetric])

lemma octet_a1: "push_bit 2 (drop_bit 2 a AND 0x3F) OR drop_bit 4 (push_bit 4 (a AND 0x3)) = a" for a b c :: u8
  by (rule bit_word_eqI, drule bit8'; elim disjE; simp add: bit_simps numeral_2_eq_2 [symmetric] numeral_3_eq_3 [symmetric])

lemma octet_b: "push_bit 4 (push_bit 4 (a AND 0x3) OR drop_bit 4 b) OR drop_bit 2 (push_bit 2 (b AND 0xF) OR drop_bit 6 c) = b" for a b c :: u8
  by (rule bit_word_eqI, drule bit8'; elim disjE; simp add: bit_simps numeral_2_eq_2 [symmetric] numeral_3_eq_3 [symmetric])

lemma octet_b1: "push_bit 4 (push_bit 4 (a AND 0x3) OR drop_bit 4 b) OR drop_bit 2 (push_bit 2 (b AND 0xF)) = b" for a b c :: u8
  by (rule bit_word_eqI, drule bit8'; elim disjE; simp add: bit_simps numeral_2_eq_2 [symmetric] numeral_3_eq_3 [symmetric])

lemma octet_c: "push_bit 6 (push_bit 2 (b AND 0xF) OR drop_bit 6 c) OR (c AND 0x3F) = c" for a b c :: u8
  by (rule bit_word_eqI, drule bit8'; elim disjE; simp add: bit_simps numeral_2_eq_2 [symmetric] numeral_3_eq_3 [symmetric])

lemmas octets = octet_a octet_a1 octet_b octet_b1 octet_c

section \<open>Properties\<close>

text \<open>C25: a text that goes out in parts is resumed where it stopped: over the first attempt and any number
  of retries, whatever each call takes, the bytes that went out are a prefix of the frame of the text;
  the status is OK exactly when the whole frame is out, and the frame kept for the next retry
  remembers how much is.\<close>

theorem ws_send_resumes:
  assumes "results_ok (length (ws_text_frame t)) (r # rs)"
  shows "case ws_send_retries (ws_system_send_text True True r (Some t) (length t)) rs of (status, f, out) \<Rightarrow>
     out = take (length out) (ws_text_frame t)
   \<and> (status = WS_SEND_OK \<longleftrightarrow> length out = length (ws_text_frame t))
   \<and> f = (if status = WS_SEND_RETRY then Some \<lparr> wo_data = ws_text_frame t, wo_offset = length out \<rparr> else None)"
proof -
  let ?d = "ws_text_frame t"
  obtain status f out where low: "ws_low_level_send_frame r \<lparr> wo_data = ?d, wo_offset = 0 \<rparr> = (status, f, out)"
    by (metis prod_cases3)
  have "0 < length ?d" by (simp add: ws_text_frame_def)
  moreover have "\<forall>n. r = Sent n \<longrightarrow> n \<le> length ?d" using assms by (auto simp: results_ok_def)
  ultimately have "send_state_ok ?d (status, if status = WS_SEND_RETRY then Some f else None, out)"
    using low_level_send_ok [of "[]" ?d r status f out] low by simp
  moreover have "results_ok (length ?d - length out) rs"
    using results_ok_Cons [OF assms low] .
  ultimately show ?thesis
    using retries_ok low
    by (simp add: ws_system_send_text_def ws_send_first_def ws_frame_create_raw_def send_state_ok_def)
qed

theorem ws_send_resumes_witness:
  "ws_send_retries (ws_system_send_text True True (Sent 3) (Some [0x68, 0x69]) 2) [SendAgain, Sent 1]
     = (WS_SEND_OK, None, [0x81, 2, 0x68, 0x69])
 \<and> [0x81, 2, 0x68, 0x69] = take 4 (ws_text_frame [0x68, 0x69])"
proof -
  have "results_ok (length (ws_text_frame [0x68, 0x69])) [Sent 3, SendAgain, Sent 1]" by code_simp
  moreover have "ws_send_retries (ws_system_send_text True True (Sent 3) (Some [0x68, 0x69]) 2) [SendAgain, Sent 1]
     = (WS_SEND_OK, None, [0x81, 2, 0x68, 0x69])"
    by code_simp
  ultimately show ?thesis using ws_send_resumes [of "[0x68, 0x69]" "Sent 3" "[SendAgain, Sent 1]"] by (simp add: numeral_2_eq_2)
qed

text \<open>The Base64 of the handshake is Base64: decoding an encoded text gives the bytes back, for every
  number of bytes.\<close>

theorem ws_base64_roundtrip: "b64_decode (ws_base64_encode x) = x"
  by (induction x rule: ws_base64_encode.induct)
    (simp_all only: ws_base64_encode.simps b64_decode.simps append_Cons append_Nil Let_def simp_thms if_True if_False
      sextets [THEN b64_char(1)] sextets [THEN b64_char(2)] octets)

end
