(* ===== verification/Ws_Registry.thy ===== *)
theory Ws_Registry
  imports Ws_Send
begin

text \<open>
  The registry of WebSocket clients: src/protocol/websocket/halmos_ws_registry.c.  Up to 1024 clients
  in slots, found by descriptor; user names and topics in hash tables of chains of pointers to clients.

  Clients are objects of a heap with numbers that are never used twice, so that a pointer to a freed
  client is a number that is not in the heap any more, and following it is \<open>UseAfterFree\<close>.  A
  buffer on the stack that is too small is \<open>StackOverflow\<close>.  What goes to the sockets is a list of
  outputs.  The clock and the results of \<open>calloc\<close> and \<open>pthread_mutex_trylock\<close> are arguments; every
  operation is one step of its locks, except for subscribing, which takes them twice.
\<close>

section \<open>Data\<close>

record HalmosWSClient =
  wc_fd :: int
  wc_ssl :: "nat option"
  wc_last_seen :: int
  wc_is_active :: bool
  wc_is_http2 :: bool
  wc_stream_id :: u32
  wc_session_id :: u64
  wc_user_id :: string
  wc_topics :: "string list"

record HalmosWSRegistry =
  wg_heap :: "nat \<rightharpoonup> HalmosWSClient"
  wg_next :: nat
  wg_clients :: "nat option list"
  wg_fd_map :: "int \<rightharpoonup> nat"
  wg_current_count :: int
  wg_buckets :: "nat \<Rightarrow> (string \<times> nat list) option"
  wg_user_map :: "nat \<Rightarrow> nat list"
  wg_session_counter :: u64

datatype ws_output = RawSend int "nat option" bytes | TextH2 int u32 string | CloseFd int

datatype 'a ws_result = Done 'a | StackOverflow | UseAfterFree

definition MAX_WS_CLIENTS :: nat where "MAX_WS_CLIENTS = 1024"
definition MAX_FDS :: int where "MAX_FDS = 65536"
definition HASH_SIZE :: nat where "HASH_SIZE = 256"
definition USER_HASH_SIZE :: nat where "USER_HASH_SIZE = 256"
definition MAX_TOPICS_PER_USER :: nat where "MAX_TOPICS_PER_USER = 16"

definition ws_fd_is_valid :: "int \<Rightarrow> bool" where
  "ws_fd_is_valid fd \<longleftrightarrow> 0 \<le> fd \<and> fd < MAX_FDS"

definition hash_topic :: "string \<Rightarrow> nat" where
  "hash_topic str = unat (djb2 str) mod HASH_SIZE"

definition ws_registry_init :: HalmosWSRegistry where
  "ws_registry_init = \<lparr> wg_heap = Map.empty, wg_next = 0, wg_clients = replicate MAX_WS_CLIENTS None,
     wg_fd_map = Map.empty, wg_current_count = 0, wg_buckets = (\<lambda>_. None), wg_user_map = (\<lambda>_. []),
     wg_session_counter = 1 \<rparr>"

text \<open>The client of a descriptor, with its number.\<close>

definition ws_registry_find_by_fd_unlocked :: "HalmosWSRegistry \<Rightarrow> int \<Rightarrow> (nat \<times> HalmosWSClient) option" where
  "ws_registry_find_by_fd_unlocked r fd =
     (if ws_fd_is_valid fd then
        (case wg_fd_map r fd of None \<Rightarrow> None | Some p \<Rightarrow> map_option (Pair p) (wg_heap r p))
      else None)"

definition set_client :: "nat \<Rightarrow> HalmosWSClient \<Rightarrow> HalmosWSRegistry \<Rightarrow> HalmosWSRegistry" where
  "set_client p c r = r\<lparr> wg_heap := (wg_heap r)(p \<mapsto> c) \<rparr>"

section \<open>Coming and going\<close>

fun free_slot :: "'a option list \<Rightarrow> nat option" where
  "free_slot [] = None"
| "free_slot (None # cs) = Some 0"
| "free_slot (Some p # cs) = map_option Suc (free_slot cs)"

text \<open>The two registrations differ in the protocol fields only.\<close>

definition register_client ::
  "bool \<Rightarrow> u32 \<Rightarrow> bool \<Rightarrow> int \<Rightarrow> int \<Rightarrow> nat option \<Rightarrow> HalmosWSRegistry \<Rightarrow> int \<times> HalmosWSRegistry" where
  "register_client is_http2 stream_id calloc_ok now fd ssl r =
     (if \<not> ws_fd_is_valid fd then (-1, r)
      else case free_slot (wg_clients r) of
        None \<Rightarrow> (-1, r)
      | Some i \<Rightarrow>
          if \<not> calloc_ok then (-1, r)
          else
            let p = wg_next r;
                c = \<lparr> wc_fd = fd, wc_ssl = ssl, wc_last_seen = now, wc_is_active = True, wc_is_http2 = is_http2,
                      wc_stream_id = stream_id,
                      wc_session_id = push_bit 32 (word_of_int now) OR wg_session_counter r,
                      wc_user_id = [], wc_topics = [] \<rparr>
            in (int i,
                r\<lparr> wg_heap := (wg_heap r)(p \<mapsto> c), wg_next := p + 1, wg_clients := (wg_clients r)[i := Some p],
                   wg_fd_map := (wg_fd_map r)(fd \<mapsto> p), wg_current_count := wg_current_count r + 1,
                   wg_session_counter := wg_session_counter r + 1 \<rparr>))"

definition ws_registry_add :: "bool \<Rightarrow> int \<Rightarrow> int \<Rightarrow> nat option \<Rightarrow> HalmosWSRegistry \<Rightarrow> int \<times> HalmosWSRegistry" where
  "ws_registry_add = register_client False 0"

definition ws_registry_add_h2 ::
  "bool \<Rightarrow> int \<Rightarrow> int \<Rightarrow> nat option \<Rightarrow> u32 \<Rightarrow> HalmosWSRegistry \<Rightarrow> int \<times> HalmosWSRegistry" where
  "ws_registry_add_h2 calloc_ok now fd ssl stream_id = register_client True stream_id calloc_ok now fd ssl"

definition ws_registry_get_h2_status :: "HalmosWSRegistry \<Rightarrow> int \<Rightarrow> bool \<times> u32" where
  "ws_registry_get_h2_status r fd =
     (case ws_registry_find_by_fd_unlocked r fd of
        Some (p, c) \<Rightarrow> if wc_is_active c then (wc_is_http2 c, wc_stream_id c) else (False, 0)
      | None \<Rightarrow> (False, 0))"

text \<open>The first node of a chain that points to the client is taken out.\<close>

definition unlink_user :: "nat \<Rightarrow> HalmosWSClient \<Rightarrow> HalmosWSRegistry \<Rightarrow> HalmosWSRegistry" where
  "unlink_user p c r =
     (if wc_user_id c = [] then r
      else let i = hash_topic (wc_user_id c) mod USER_HASH_SIZE
           in r\<lparr> wg_user_map := (wg_user_map r)(i := remove1 p (wg_user_map r i)) \<rparr>)"

fun unlink_topics :: "nat \<Rightarrow> string list \<Rightarrow> HalmosWSRegistry \<Rightarrow> HalmosWSRegistry" where
  "unlink_topics p [] r = r"
| "unlink_topics p (t # ts) r =
     unlink_topics p ts
       (case wg_buckets r (hash_topic t) of
          None \<Rightarrow> r
        | Some (name, subs) \<Rightarrow> r\<lparr> wg_buckets := (wg_buckets r)(hash_topic t \<mapsto> (name, remove1 p subs)) \<rparr>)"

fun clear_slot :: "nat \<Rightarrow> nat option list \<Rightarrow> nat option list" where
  "clear_slot p [] = []"
| "clear_slot p (x # xs) = (if x = Some p then None # xs else x # clear_slot p xs)"

definition ws_registry_remove :: "int \<Rightarrow> HalmosWSRegistry \<Rightarrow> HalmosWSRegistry" where
  "ws_registry_remove fd r =
     (case ws_registry_find_by_fd_unlocked r fd of
        None \<Rightarrow> r
      | Some (p, c) \<Rightarrow>
          let r1 = unlink_topics p (wc_topics c) (unlink_user p c r)
          in r1\<lparr> wg_clients := clear_slot p (wg_clients r1), wg_fd_map := (wg_fd_map r1)(fd := None),
                 wg_current_count := wg_current_count r1 - 1, wg_heap := (wg_heap r1)(p := None) \<rparr>)"

definition ws_registry_destroy :: "HalmosWSRegistry \<Rightarrow> HalmosWSRegistry" where
  "ws_registry_destroy r = r\<lparr> wg_buckets := (\<lambda>_. None), wg_user_map := (\<lambda>_. []),
     wg_heap := (wg_heap r) |` (- (\<Union>x \<in> set (wg_clients r). set_option x)),
     wg_clients := replicate MAX_WS_CLIENTS None, wg_fd_map := Map.empty \<rparr>"

section \<open>Upkeep\<close>

definition ws_registry_update_activity :: "int \<Rightarrow> int \<Rightarrow> HalmosWSRegistry \<Rightarrow> HalmosWSRegistry" where
  "ws_registry_update_activity now fd r =
     (case ws_registry_find_by_fd_unlocked r fd of
        None \<Rightarrow> r | Some (p, c) \<Rightarrow> set_client p (c\<lparr> wc_last_seen := now \<rparr>) r)"

text \<open>The clients in the order of their slots.\<close>

definition slot_clients :: "HalmosWSRegistry \<Rightarrow> (nat \<times> HalmosWSClient) list" where
  "slot_clients r =
     concat (map (\<lambda>x. case x of None \<Rightarrow> [] | Some p \<Rightarrow> (case wg_heap r p of None \<Rightarrow> [] | Some c \<Rightarrow> [(p, c)]))
       (wg_clients r))"

definition ping_frame :: bytes where "ping_frame = [0x89, 0x00]"

definition ws_registry_heartbeat :: "HalmosWSRegistry \<Rightarrow> ws_output list" where
  "ws_registry_heartbeat r =
     map (\<lambda>(p, c). RawSend (wc_fd c) (wc_ssl c) ping_frame)
       (filter (\<lambda>(p, c). wc_is_active c \<and> \<not> wc_is_http2 c) (slot_clients r))"

text \<open>The reaper collects the descriptors first, and closes and removes them one by one afterwards.\<close>

definition dead_fds :: "int \<Rightarrow> HalmosWSRegistry \<Rightarrow> int list" where
  "dead_fds now r =
     map (wc_fd \<circ> snd) (filter (\<lambda>(p, c). wc_is_active c \<and> now - wc_last_seen c > 90) (slot_clients r))"

definition ws_registry_reaper :: "int \<Rightarrow> HalmosWSRegistry \<Rightarrow> ws_output list \<times> HalmosWSRegistry" where
  "ws_registry_reaper now r =
     (map CloseFd (dead_fds now r), foldl (\<lambda>r fd. ws_registry_remove fd r) r (dead_fds now r))"

section \<open>Messages\<close>

text \<open>The frame of a message in a buffer of the caller; nothing above 65535 characters.\<close>

definition ws_system_build_frame :: "nat \<Rightarrow> string \<Rightarrow> bytes ws_result" where
  "ws_system_build_frame cap message =
     (if length message > 65535 then Done []
      else if length (ws_text_frame (bytes_of message)) > cap then StackOverflow
      else Done (ws_text_frame (bytes_of message)))"

definition client_output :: "bytes \<Rightarrow> string \<Rightarrow> HalmosWSClient \<Rightarrow> ws_output" where
  "client_output frame message c =
     (if wc_is_http2 c then TextH2 (wc_fd c) (wc_stream_id c) message else RawSend (wc_fd c) (wc_ssl c) frame)"

text \<open>A client whose lock another thread holds is passed over.\<close>

definition ws_registry_broadcast :: "(nat \<Rightarrow> bool) \<Rightarrow> string \<Rightarrow> HalmosWSRegistry \<Rightarrow> ws_output list ws_result" where
  "ws_registry_broadcast trylock_ok message r =
     (case ws_system_build_frame 65535 message of
        Done frame \<Rightarrow>
          Done (map (\<lambda>(p, c). client_output frame message c)
            (filter (\<lambda>(p, c). wc_is_active c \<and> trylock_ok p) (slot_clients r)))
      | _ \<Rightarrow> StackOverflow)"

text \<open>\<open>ws_registry_send_text\<close> builds the same frame in 4096 bytes and sends nothing above 65535 characters.\<close>

definition ws_registry_send_text :: "HalmosWSClient \<Rightarrow> string \<Rightarrow> ws_output list ws_result" where
  "ws_registry_send_text c message =
     (if length message > 65535 then Done []
      else case ws_system_build_frame 4096 message of
        Done frame \<Rightarrow> Done [RawSend (wc_fd c) (wc_ssl c) frame]
      | _ \<Rightarrow> StackOverflow)"

fun publish_to :: "HalmosWSRegistry \<Rightarrow> string \<Rightarrow> nat list \<Rightarrow> ws_output list ws_result" where
  "publish_to r message [] = Done []"
| "publish_to r message (p # ps) =
     (case wg_heap r p of
        None \<Rightarrow> UseAfterFree
      | Some c \<Rightarrow>
          (case (if \<not> wc_is_active c then Done []
                 else if wc_is_http2 c then Done [TextH2 (wc_fd c) (wc_stream_id c) message]
                 else ws_registry_send_text c message) of
             Done out \<Rightarrow> (case publish_to r message ps of Done outs \<Rightarrow> Done (out @ outs) | e \<Rightarrow> e)
           | e \<Rightarrow> e))"

definition publish_key :: "string \<Rightarrow> string \<Rightarrow> string" where
  "publish_key app_id topic = c_copy 128 (app_id @ '':'' @ topic)"

definition ws_registry_publish :: "string \<Rightarrow> string \<Rightarrow> string \<Rightarrow> HalmosWSRegistry \<Rightarrow> ws_output list ws_result" where
  "ws_registry_publish app_id topic message r =
     (case wg_buckets r (hash_topic (publish_key app_id topic)) of
        None \<Rightarrow> Done []
      | Some (name, subs) \<Rightarrow> publish_to r message subs)"

section \<open>Topics\<close>

definition subscribe_key :: "string \<Rightarrow> string \<Rightarrow> string" where
  "subscribe_key app_id topic = c_copy 64 (take 30 app_id @ '':'' @ take 32 topic)"

text \<open>
  Subscribing looks the client up under the lock of the registry, gives that lock back, and works on
  the client afterwards.  A topic over the sixteenth is not recorded in the client.
\<close>

definition topic_client :: "int \<Rightarrow> HalmosWSRegistry \<Rightarrow> nat option" where
  "topic_client fd r =
     (case ws_registry_find_by_fd_unlocked r fd of
        Some (p, c) \<Rightarrow> if wc_is_active c then Some p else None
      | None \<Rightarrow> None)"

definition topic_subscribe :: "nat \<Rightarrow> string \<Rightarrow> HalmosWSRegistry \<Rightarrow> HalmosWSRegistry ws_result" where
  "topic_subscribe p key r =
     (let (name, subs) = (case wg_buckets r (hash_topic key) of Some b \<Rightarrow> b | None \<Rightarrow> (key, []))
      in if p \<in> set subs then Done (r\<lparr> wg_buckets := (wg_buckets r)(hash_topic key \<mapsto> (name, subs)) \<rparr>)
         else
           let r1 = r\<lparr> wg_buckets := (wg_buckets r)(hash_topic key \<mapsto> (name, p # subs)) \<rparr>
           in case wg_heap r p of
                None \<Rightarrow> UseAfterFree
              | Some c \<Rightarrow>
                  Done (if length (wc_topics c) < MAX_TOPICS_PER_USER
                        then set_client p (c\<lparr> wc_topics := wc_topics c @ [key] \<rparr>) r1 else r1))"

definition ws_registry_add_to_topic :: "int \<Rightarrow> string \<Rightarrow> string \<Rightarrow> HalmosWSRegistry \<Rightarrow> HalmosWSRegistry ws_result" where
  "ws_registry_add_to_topic fd app_id topic r =
     (case topic_client fd r of None \<Rightarrow> Done r | Some p \<Rightarrow> topic_subscribe p (subscribe_key app_id topic) r)"

section \<open>Users\<close>

definition ws_registry_set_user_id :: "int \<Rightarrow> string option \<Rightarrow> HalmosWSRegistry \<Rightarrow> HalmosWSRegistry" where
  "ws_registry_set_user_id fd user_id r =
     (if \<not> ws_fd_is_valid fd \<or> user_id \<in> {None, Some []} then r
      else case ws_registry_find_by_fd_unlocked r fd of
        None \<Rightarrow> r
      | Some (p, c) \<Rightarrow>
          if \<not> wc_is_active c then r
          else
            let r1 = set_client p (c\<lparr> wc_user_id := take 63 (the user_id) \<rparr>) (unlink_user p c r);
                i = hash_topic (the user_id) mod USER_HASH_SIZE
            in r1\<lparr> wg_user_map := (wg_user_map r1)(i := p # wg_user_map r1 i) \<rparr>)"

definition ws_registry_get_user_id :: "HalmosWSRegistry \<Rightarrow> int \<Rightarrow> string option" where
  "ws_registry_get_user_id r fd =
     (case ws_registry_find_by_fd_unlocked r fd of
        Some (p, c) \<Rightarrow> if wc_is_active c then Some (wc_user_id c) else None
      | None \<Rightarrow> None)"

fun find_user :: "HalmosWSRegistry \<Rightarrow> string \<Rightarrow> nat list \<Rightarrow> (int \<times> u64 \<times> nat option) option ws_result" where
  "find_user r name [] = Done None"
| "find_user r name (p # ps) =
     (case wg_heap r p of
        None \<Rightarrow> UseAfterFree
      | Some c \<Rightarrow>
          if wc_is_active c \<and> wc_user_id c = name then Done (Some (wc_fd c, wc_session_id c, wc_ssl c))
          else find_user r name ps)"

definition ws_registry_get_session_info ::
  "HalmosWSRegistry \<Rightarrow> string option \<Rightarrow> (int \<times> u64 \<times> nat option) option ws_result" where
  "ws_registry_get_session_info r name =
     (case name of None \<Rightarrow> Done None
      | Some n \<Rightarrow> find_user r n (wg_user_map r (hash_topic n mod USER_HASH_SIZE)))"

definition ws_registry_get_fd_by_name :: "HalmosWSRegistry \<Rightarrow> string option \<Rightarrow> int ws_result" where
  "ws_registry_get_fd_by_name r name =
     (case ws_registry_get_session_info r name of
        Done (Some (fd, _)) \<Rightarrow> Done fd | Done None \<Rightarrow> Done (-1)
      | StackOverflow \<Rightarrow> StackOverflow | UseAfterFree \<Rightarrow> UseAfterFree)"

definition ws_registry_validate_session :: "HalmosWSRegistry \<Rightarrow> int \<Rightarrow> u64 \<Rightarrow> bool" where
  "ws_registry_validate_session r fd session_id =
     (case ws_registry_find_by_fd_unlocked r fd of
        Some (p, c) \<Rightarrow> wc_session_id c = session_id \<and> wc_is_active c
      | None \<Rightarrow> False)"

section \<open>No pointer to a freed client\<close>

text \<open>
  A node of a topic's chain points to a live client that remembers a topic of that bucket; a node of
  the user table points to a live client whose name is of that chain.
\<close>

definition node_ok :: "(nat \<rightharpoonup> HalmosWSClient) \<Rightarrow> nat \<Rightarrow> nat \<Rightarrow> bool" where
  "node_ok h b p \<longleftrightarrow> (\<exists>c. h p = Some c \<and> b \<in> hash_topic ` set (wc_topics c))"

definition user_ok :: "(nat \<rightharpoonup> HalmosWSClient) \<Rightarrow> nat \<Rightarrow> nat \<Rightarrow> bool" where
  "user_ok h i p \<longleftrightarrow> (\<exists>c. h p = Some c \<and> wc_user_id c \<noteq> [] \<and> i = hash_topic (wc_user_id c) mod USER_HASH_SIZE)"

definition no_dangling :: "HalmosWSRegistry \<Rightarrow> bool" where
  "no_dangling r \<longleftrightarrow>
     (\<forall>p. wg_heap r p \<noteq> None \<longrightarrow> p < wg_next r)
   \<and> (\<forall>b name subs. wg_buckets r b = Some (name, subs) \<longrightarrow> distinct subs \<and> (\<forall>p \<in> set subs. node_ok (wg_heap r) b p))
   \<and> (\<forall>i. distinct (wg_user_map r i) \<and> (\<forall>p \<in> set (wg_user_map r i). user_ok (wg_heap r) i p))"

lemma no_danglingD:
  assumes "no_dangling r"
  shows "wg_heap r p = Some c \<Longrightarrow> p < wg_next r"
    and "wg_buckets r b = Some (name, subs) \<Longrightarrow> distinct subs"
    and "wg_buckets r b = Some (name, subs) \<Longrightarrow> q \<in> set subs \<Longrightarrow> node_ok (wg_heap r) b q"
    and "distinct (wg_user_map r i)"
    and "q \<in> set (wg_user_map r i) \<Longrightarrow> user_ok (wg_heap r) i q"
  using assms unfolding no_dangling_def by blast+

lemma no_dangling_init: "no_dangling ws_registry_init"
  by (simp add: no_dangling_def ws_registry_init_def)

lemma find_by_fd_heap:
  "ws_registry_find_by_fd_unlocked r fd = Some (p, c) \<Longrightarrow> wg_heap r p = Some c \<and> wg_fd_map r fd = Some p"
  by (auto simp: ws_registry_find_by_fd_unlocked_def split: if_splits option.splits)

lemma node_ok_upd: "node_ok h b q \<Longrightarrow> (\<And>c. h p = Some c \<Longrightarrow> set (wc_topics c) \<subseteq> set (wc_topics c')) \<Longrightarrow>
    node_ok (h(p \<mapsto> c')) b q"
  by (auto simp: node_ok_def)

lemma user_ok_upd: "user_ok h i q \<Longrightarrow> (\<And>c. h p = Some c \<Longrightarrow> wc_user_id c' = wc_user_id c) \<Longrightarrow> user_ok (h(p \<mapsto> c')) i q"
  by (auto simp: user_ok_def)

lemma no_dangling_set_client:
  assumes "no_dangling r" and "wg_heap r p = Some c" and "set (wc_topics c) \<subseteq> set (wc_topics c')"
    and "wc_user_id c' = wc_user_id c"
  shows "no_dangling (set_client p c' r)"
  unfolding no_dangling_def set_client_def
  using assms by (auto simp: no_dangling_def intro!: node_ok_upd user_ok_upd)

lemma no_dangling_register: "no_dangling r \<Longrightarrow> no_dangling (snd (register_client h2 sid m now fd ssl r))"
  by (auto simp: no_dangling_def register_client_def Let_def less_SucI split: option.splits
      intro!: node_ok_upd user_ok_upd)

lemma no_dangling_activity: "no_dangling r \<Longrightarrow> no_dangling (ws_registry_update_activity now fd r)"
  by (auto simp: ws_registry_update_activity_def dest!: find_by_fd_heap intro: no_dangling_set_client
      split: option.splits)

text \<open>Removal takes the client out of every chain it is in.\<close>

lemma unlink_user_map:
  assumes "no_dangling r" and "wg_heap r p = Some c"
  shows "wg_user_map (unlink_user p c r) i = removeAll p (wg_user_map r i)"
proof -
  have "p \<notin> set (wg_user_map r j)" if "wc_user_id c = [] \<or> j \<noteq> hash_topic (wc_user_id c) mod USER_HASH_SIZE" for j
    using no_danglingD(5) [OF assms(1), of p j] assms(2) that by (auto simp: user_ok_def)
  then show ?thesis
    using no_danglingD(4) [OF assms(1)] by (auto simp: unlink_user_def Let_def distinct_remove1_removeAll removeAll_id)
qed

lemma unlink_topics_buckets:
  assumes "\<And>b name subs. wg_buckets r b = Some (name, subs) \<Longrightarrow> distinct subs"
  shows "wg_buckets (unlink_topics p ts r) b =
     map_option (map_prod id (if b \<in> hash_topic ` set ts then removeAll p else id)) (wg_buckets r b)"
  using assms
proof (induction ts arbitrary: r)
  case (Cons t ts)
  let ?r = "case wg_buckets r (hash_topic t) of None \<Rightarrow> r
    | Some (name, subs) \<Rightarrow> r\<lparr> wg_buckets := (wg_buckets r)(hash_topic t \<mapsto> (name, remove1 p subs)) \<rparr>"
  have "\<And>b name subs. wg_buckets ?r b = Some (name, subs) \<Longrightarrow> distinct subs"
    using Cons.prems by (auto split: option.splits if_splits)
  from Cons.IH [OF this] show ?case
    using Cons.prems
    by (cases "wg_buckets r (hash_topic t)"; cases "wg_buckets r b")
      (auto simp: distinct_remove1_removeAll removeAll_id)
qed (simp add: map_prod.id option.map_id)

lemma unlink_fields [simp]:
  "wg_heap (unlink_user p c r) = wg_heap r" "wg_next (unlink_user p c r) = wg_next r"
  "wg_buckets (unlink_user p c r) = wg_buckets r" "wg_clients (unlink_user p c r) = wg_clients r"
  "wg_fd_map (unlink_user p c r) = wg_fd_map r"
  by (simp_all add: unlink_user_def Let_def)

lemma unlink_topics_fields [simp]:
  "wg_heap (unlink_topics p ts r) = wg_heap r" "wg_next (unlink_topics p ts r) = wg_next r"
  "wg_user_map (unlink_topics p ts r) = wg_user_map r" "wg_clients (unlink_topics p ts r) = wg_clients r"
  "wg_fd_map (unlink_topics p ts r) = wg_fd_map r"
  by (induction ts arbitrary: r) (auto split: option.splits)

lemma no_dangling_remove:
  assumes "no_dangling r"
  shows "no_dangling (ws_registry_remove fd r)"
proof (cases "ws_registry_find_by_fd_unlocked r fd")
  case (Some pc)
  obtain p c where pc: "pc = (p, c)" by (cases pc)
  note heap = conjunct1 [OF find_by_fd_heap [OF Some [unfolded pc]]]
  have chain: "distinct subs \<and> p \<notin> set subs \<and> (\<forall>q \<in> set subs. node_ok (wg_heap r) b q)"
    if "wg_buckets (unlink_topics p (wc_topics c) (unlink_user p c r)) b = Some (name, subs)" for b name subs
  proof -
    have "wg_buckets (unlink_topics p (wc_topics c) (unlink_user p c r)) b =
        map_option (map_prod id (if b \<in> hash_topic ` set (wc_topics c) then removeAll p else id)) (wg_buckets r b)"
      using unlink_topics_buckets [of "unlink_user p c r" p "wc_topics c" b] no_danglingD(2) [OF assms] by simp
    with that obtain subs0 where "wg_buckets r b = Some (name, subs0)"
        "subs = (if b \<in> hash_topic ` set (wc_topics c) then removeAll p else id) subs0"
      by auto
    moreover have "distinct subs0" "\<forall>q \<in> set subs0. node_ok (wg_heap r) b q"
      using no_danglingD(2,3) [OF assms \<open>wg_buckets r b = Some (name, subs0)\<close>] by auto
    moreover have "b \<notin> hash_topic ` set (wc_topics c) \<Longrightarrow> \<not> node_ok (wg_heap r) b p"
      using heap by (simp add: node_ok_def)
    ultimately show ?thesis by (auto simp: distinct_removeAll split: if_splits)
  qed
  have "\<And>b q. q \<noteq> p \<Longrightarrow> node_ok (wg_heap r) b q \<Longrightarrow> node_ok ((wg_heap r)(p := None)) b q"
    "\<And>b q. q \<noteq> p \<Longrightarrow> user_ok (wg_heap r) b q \<Longrightarrow> user_ok ((wg_heap r)(p := None)) b q"
    by (auto simp: node_ok_def user_ok_def)
  moreover have "ws_registry_remove fd r = (let r1 = unlink_topics p (wc_topics c) (unlink_user p c r)
      in r1\<lparr> wg_clients := clear_slot p (wg_clients r1), wg_fd_map := (wg_fd_map r1)(fd := None),
             wg_current_count := wg_current_count r1 - 1, wg_heap := (wg_heap r1)(p := None) \<rparr>)"
    using Some pc by (simp add: ws_registry_remove_def)
  ultimately show ?thesis
    using chain no_danglingD(1,4,5) [OF assms]
    by (auto simp: Let_def no_dangling_def unlink_user_map [OF assms heap] distinct_removeAll) metis+
qed (use assms in \<open>simp add: ws_registry_remove_def\<close>)

lemma no_dangling_reap: "no_dangling r \<Longrightarrow> no_dangling (foldl (\<lambda>r fd. ws_registry_remove fd r) r fds)"
  by (induction fds arbitrary: r) (auto intro: no_dangling_remove)

text \<open>
  The limits under which the chains stay sound: a client is subscribed to a topic beyond its sixteenth
  only where it is in the bucket already, and a user name fits in the client.
\<close>

definition topic_fits :: "HalmosWSRegistry \<Rightarrow> nat \<Rightarrow> string \<Rightarrow> bool" where
  "topic_fits r p key \<longleftrightarrow>
     (\<forall>c. wg_heap r p = Some c \<longrightarrow> length (wc_topics c) < MAX_TOPICS_PER_USER)
   \<or> (\<exists>name subs. wg_buckets r (hash_topic key) = Some (name, subs) \<and> p \<in> set subs)"

lemma no_dangling_subscribe:
  assumes "no_dangling r" and "wg_heap r p = Some c" and "topic_fits r p key"
  shows "\<exists>r'. topic_subscribe p key r = Done r' \<and> no_dangling r'"
proof (cases "\<exists>name subs. wg_buckets r (hash_topic key) = Some (name, subs) \<and> p \<in> set subs")
  case True
  then obtain name subs where b: "wg_buckets r (hash_topic key) = Some (name, subs)" "p \<in> set subs" by blast
  then have "(wg_buckets r)(hash_topic key \<mapsto> (name, subs)) = wg_buckets r" by (simp add: map_upd_triv)
  then show ?thesis
    using assms(1) b by (simp add: topic_subscribe_def)
next
  case False
  then have room: "length (wc_topics c) < MAX_TOPICS_PER_USER"
    using assms(2,3) by (auto simp: topic_fits_def)
  obtain name subs where b: "(case wg_buckets r (hash_topic key) of Some b \<Rightarrow> b | None \<Rightarrow> (key, [])) = (name, subs)"
    by fastforce
  have subs: "p \<notin> set subs" "distinct subs" "\<forall>q \<in> set subs. node_ok (wg_heap r) (hash_topic key) q"
    using b False no_danglingD(2,3) [OF assms(1)] by (auto split: option.splits)
  let ?c = "c\<lparr> wc_topics := wc_topics c @ [key] \<rparr>"
  have up: "node_ok (wg_heap r) i q \<Longrightarrow> node_ok ((wg_heap r)(p \<mapsto> ?c)) i q"
      "user_ok (wg_heap r) i q \<Longrightarrow> user_ok ((wg_heap r)(p \<mapsto> ?c)) i q" for i q
    using assms(2) by (auto intro!: node_ok_upd user_ok_upd)
  have self: "node_ok ((wg_heap r)(p \<mapsto> ?c)) (hash_topic key) p" by (simp add: node_ok_def)
  have nxt: "((wg_heap r)(p \<mapsto> ?c)) q = Some d \<Longrightarrow> q < wg_next r" for q d
    using no_danglingD(1) [OF assms(1)] assms(2) by (auto split: if_splits)
  have "no_dangling (set_client p ?c (r\<lparr> wg_buckets := (wg_buckets r)(hash_topic key \<mapsto> (name, p # subs)) \<rparr>))"
    unfolding no_dangling_def set_client_def
    using no_danglingD(2-5) [OF assms(1)] subs up self nxt by (auto simp del: fun_upd_apply simp: fun_upd_def [of "wg_buckets r"])
  then show ?thesis
    using b subs(1) assms(2) room by (simp add: topic_subscribe_def)
qed

lemma no_dangling_set_user:
  assumes "no_dangling r" and "length (the user_id) \<le> 63"
  shows "no_dangling (ws_registry_set_user_id fd user_id r)"
proof (cases "ws_fd_is_valid fd \<and> user_id \<notin> {None, Some []}")
  case True
  show ?thesis
  proof (cases "ws_registry_find_by_fd_unlocked r fd")
    case (Some pc)
    obtain p c where pc: "pc = (p, c)" by (cases pc)
    note heap = conjunct1 [OF find_by_fd_heap [OF Some [unfolded pc]]]
    let ?u = "the user_id" and ?c = "c\<lparr> wc_user_id := take 63 (the user_id) \<rparr>"
    have u: "take 63 ?u = ?u" "?u \<noteq> []" using assms(2) True by auto
    have node: "node_ok (wg_heap r) i q \<Longrightarrow> node_ok ((wg_heap r)(p \<mapsto> ?c)) i q" for i q
      using heap by (auto intro!: node_ok_upd)
    have self: "user_ok ((wg_heap r)(p \<mapsto> ?c)) (hash_topic ?u mod USER_HASH_SIZE) p"
      using u by (simp add: user_ok_def)
    have self': "p \<notin> set (removeAll p ps)" for ps by simp
    have user: "q \<in> set (removeAll p (wg_user_map r i)) \<Longrightarrow> user_ok ((wg_heap r)(p \<mapsto> ?c)) i q" for i q
      using no_danglingD(5) [OF assms(1), of q i] by (auto simp: user_ok_def)
    have nxt: "((wg_heap r)(p \<mapsto> ?c)) q = Some d \<Longrightarrow> q < wg_next r" for q d
      using no_danglingD(1) [OF assms(1)] heap by (auto split: if_splits)
    show ?thesis
      using True Some pc assms(1) no_danglingD(2-4) [OF assms(1)] node user self self' nxt
      by (auto simp: ws_registry_set_user_id_def set_client_def no_dangling_def Let_def
          unlink_user_map [OF assms(1) heap] distinct_removeAll simp del: fun_upd_apply set_removeAll
          simp: fun_upd_def [of "wg_user_map _"])
  qed (use assms in \<open>simp add: ws_registry_set_user_id_def\<close>)
qed (use assms in \<open>auto simp: ws_registry_set_user_id_def\<close>)

section \<open>Histories\<close>

datatype reg_op =
    AddClient bool u32 bool int int "nat option"
  | RemoveClient int
  | Activity int int
  | Subscribe int string string
  | SetUser int "string option"
  | Reap int

fun reg_step :: "reg_op \<Rightarrow> HalmosWSRegistry \<Rightarrow> HalmosWSRegistry ws_result" where
  "reg_step (AddClient h2 sid calloc_ok now fd ssl) r = Done (snd (register_client h2 sid calloc_ok now fd ssl r))"
| "reg_step (RemoveClient fd) r = Done (ws_registry_remove fd r)"
| "reg_step (Activity now fd) r = Done (ws_registry_update_activity now fd r)"
| "reg_step (Subscribe fd app_id topic) r = ws_registry_add_to_topic fd app_id topic r"
| "reg_step (SetUser fd user_id) r = Done (ws_registry_set_user_id fd user_id r)"
| "reg_step (Reap now) r = Done (snd (ws_registry_reaper now r))"

fun reg_run :: "reg_op list \<Rightarrow> HalmosWSRegistry \<Rightarrow> HalmosWSRegistry ws_result" where
  "reg_run [] r = Done r"
| "reg_run (x # xs) r = (case reg_step x r of Done r' \<Rightarrow> reg_run xs r' | e \<Rightarrow> e)"

fun op_fits :: "reg_op \<Rightarrow> HalmosWSRegistry \<Rightarrow> bool" where
  "op_fits (Subscribe fd app_id topic) r =
     (case topic_client fd r of None \<Rightarrow> True | Some p \<Rightarrow> topic_fits r p (subscribe_key app_id topic))"
| "op_fits (SetUser fd user_id) r = (length (the user_id) \<le> 63)"
| "op_fits _ r = True"

fun run_fits :: "reg_op list \<Rightarrow> HalmosWSRegistry \<Rightarrow> bool" where
  "run_fits [] r = True"
| "run_fits (x # xs) r = (op_fits x r \<and> (case reg_step x r of Done r' \<Rightarrow> run_fits xs r' | _ \<Rightarrow> True))"

lemma reg_step_sound: "no_dangling r \<Longrightarrow> op_fits x r \<Longrightarrow> \<exists>r'. reg_step x r = Done r' \<and> no_dangling r'"
  by (cases x)
    (auto simp: ws_registry_add_to_topic_def topic_client_def ws_registry_reaper_def
      intro: no_dangling_register no_dangling_remove no_dangling_activity no_dangling_set_user no_dangling_reap
      dest!: find_by_fd_heap intro!: no_dangling_subscribe split: option.splits if_splits)

lemma reg_run_sound: "no_dangling r \<Longrightarrow> run_fits xs r \<Longrightarrow> \<exists>r'. reg_run xs r = Done r' \<and> no_dangling r'"
proof (induction xs arbitrary: r)
  case (Cons x xs)
  then show ?case using reg_step_sound [of r x] by auto
qed simp

lemma publish_to_live: "\<forall>p \<in> set ps. wg_heap r p \<noteq> None \<Longrightarrow> publish_to r m ps \<noteq> UseAfterFree"
  by (induction ps) (auto simp: ws_registry_send_text_def split: ws_result.splits if_splits)

lemma find_user_live: "\<forall>p \<in> set ps. wg_heap r p \<noteq> None \<Longrightarrow> find_user r n ps \<noteq> UseAfterFree"
  by (induction ps) (auto split: if_splits)

lemma sound_publish: "no_dangling r \<Longrightarrow> ws_registry_publish app_id topic m r \<noteq> UseAfterFree"
proof -
  assume "no_dangling r"
  then have "\<forall>p \<in> set subs. wg_heap r p \<noteq> None"
    if "wg_buckets r (hash_topic (publish_key app_id topic)) = Some (name, subs)" for name subs
    using no_danglingD(3) [OF _ that] by (auto simp: node_ok_def)
  then show ?thesis
    using publish_to_live by (auto simp: ws_registry_publish_def split: option.splits)
qed

lemma sound_lookup: "no_dangling r \<Longrightarrow> ws_registry_get_session_info r n \<noteq> UseAfterFree"
proof -
  assume "no_dangling r"
  then have "\<forall>p \<in> set (wg_user_map r i). wg_heap r p \<noteq> None" for i
    using no_danglingD(5) by (fastforce simp: user_ok_def)
  then show ?thesis
    using find_user_live by (auto simp: ws_registry_get_session_info_def split: option.splits)
qed

lemma free_slot_replicate: "0 < n \<Longrightarrow> free_slot (replicate n None) = Some 0"
  by (cases n) auto

lemma free_slot_init: "free_slot (wg_clients ws_registry_init) = Some 0"
  by (simp add: ws_registry_init_def MAX_WS_CLIENTS_def free_slot_replicate)

lemma valid_fd_5: "ws_fd_is_valid 5"
  by (simp add: ws_fd_is_valid_def MAX_FDS_def)

section \<open>Properties\<close>



text \<open>The seventeenth topic leaves a pointer behind: a client that has sixteen topics recorded
  is still put into the bucket of another one, and is not taken out of it when it goes; the next
  message to that topic follows the pointer to the freed client.\<close>

theorem ws_topic_limit_dangles:
  assumes "no_dangling r" and "ws_registry_find_by_fd_unlocked r fd = Some (p, c)" and "wc_is_active c"
    and "length (wc_topics c) = MAX_TOPICS_PER_USER" and "length app_id \<le> 30" and "length topic \<le> 32"
    and "hash_topic (subscribe_key app_id topic) \<notin> hash_topic ` set (wc_topics c)"
  shows "\<exists>r'. ws_registry_add_to_topic fd app_id topic r = Done r'
     \<and> ws_registry_publish app_id topic m (ws_registry_remove fd r') = UseAfterFree"
proof -
  let ?k = "subscribe_key app_id topic" and ?b = "hash_topic (subscribe_key app_id topic)"
  note heap = find_by_fd_heap [OF assms(2)]
  have key: "publish_key app_id topic = ?k"
    using assms(5,6) by (simp add: publish_key_def subscribe_key_def)
  obtain name subs where b: "(case wg_buckets r ?b of Some b \<Rightarrow> b | None \<Rightarrow> (?k, [])) = (name, subs)" by fastforce
  have "\<not> node_ok (wg_heap r) ?b p" using heap assms(7) by (simp add: node_ok_def)
  then have subs: "p \<notin> set subs" "distinct subs"
    using b no_danglingD(2,3) [OF assms(1)] by (auto split: option.splits)
  let ?r = "r\<lparr> wg_buckets := (wg_buckets r)(?b \<mapsto> (name, p # subs)) \<rparr>"
  have add: "ws_registry_add_to_topic fd app_id topic r = Done ?r"
    using assms(2,3,4) heap b subs(1)
    by (simp add: ws_registry_add_to_topic_def topic_client_def topic_subscribe_def)
  have dist: "distinct s" if "wg_buckets (unlink_user p c ?r) i = Some (n, s)" for i n s
    using that subs no_danglingD(2) [OF assms(1)] by (auto split: if_splits)
  have "ws_registry_find_by_fd_unlocked ?r fd = Some (p, c)"
    using assms(2) by (simp add: ws_registry_find_by_fd_unlocked_def split: if_splits option.splits)
  moreover have "wg_buckets (unlink_topics p (wc_topics c) (unlink_user p c ?r)) ?b = Some (name, p # subs)"
    using unlink_topics_buckets [of "unlink_user p c ?r" p "wc_topics c" ?b] dist assms(7) by simp
  ultimately have "ws_registry_publish app_id topic m (ws_registry_remove fd ?r) = UseAfterFree"
    by (simp add: ws_registry_publish_def ws_registry_remove_def key Let_def)
  with add show ?thesis by blast
qed

definition sixteen_topics :: HalmosWSRegistry where
  "sixteen_topics = ws_registry_init\<lparr> wg_next := 1, wg_fd_map := [5 \<mapsto> 0], wg_current_count := 1,
     wg_heap := [0 \<mapsto> \<lparr> wc_fd = 5, wc_ssl = None, wc_last_seen = 0, wc_is_active = True, wc_is_http2 = False,
       wc_stream_id = 0, wc_session_id = 1, wc_user_id = [],
       wc_topics = map (\<lambda>x. ''GLOBAL:'' @ [x]) ''abcdefghijklmnop'' \<rparr>] \<rparr>"

theorem ws_topic_limit_dangles_witness:
  "\<exists>r'. ws_registry_add_to_topic 5 ''GLOBAL'' ''q'' sixteen_topics = Done r'
     \<and> ws_registry_publish ''GLOBAL'' ''q'' ''hi'' (ws_registry_remove 5 r') = UseAfterFree"
proof -
  have sound: "no_dangling sixteen_topics"
    by (simp add: no_dangling_def sixteen_topics_def ws_registry_init_def)
  have find: "ws_registry_find_by_fd_unlocked sixteen_topics 5 = Some (0, the (wg_heap sixteen_topics 0))"
    using valid_fd_5 by (simp add: sixteen_topics_def ws_registry_find_by_fd_unlocked_def)
  show ?thesis
    by (rule ws_topic_limit_dangles [OF sound find])
      (simp_all add: sixteen_topics_def MAX_TOPICS_PER_USER_def subscribe_key_def hash_topic_def HASH_SIZE_def
        djb2_def schar_def push_bit_eq_mult)
qed

text \<open>A published message between 4093 and 65535 characters overflows the 4096-byte frame on the
  stack of the sender, and no other does.\<close>

theorem ws_send_text_overflow:
  "ws_registry_send_text c m = StackOverflow \<longleftrightarrow> 4092 < length m \<and> length m \<le> 65535"
  by (auto simp: ws_registry_send_text_def ws_system_build_frame_def ws_text_frame_def ws_length_field_def)

text \<open>A name belongs to the last client that claimed it: whatever clients had it before, after a client
  takes a name of at most 63 characters a lookup of the name gives that client's descriptor, session and
  TLS object.\<close>

theorem ws_user_last_claim:
  assumes "ws_registry_find_by_fd_unlocked r fd = Some (p, c)" and "wc_is_active c" and "u \<noteq> []" and "length u \<le> 63"
  shows "ws_registry_get_session_info (ws_registry_set_user_id fd (Some u) r) (Some u)
       = Done (Some (wc_fd c, wc_session_id c, wc_ssl c))"
  using assms find_by_fd_heap [OF assms(1)]
  by (auto simp: ws_registry_get_session_info_def ws_registry_set_user_id_def set_client_def Let_def
      ws_registry_find_by_fd_unlocked_def split: if_splits)

end
