(* ===== verification/Ws_System.thy ===== *)
theory Ws_System
  imports Ws_Registry
begin

text \<open>
  The dispatcher of WebSocket messages: src/protocol/websocket/halmos_ws_system.c, over the receiver
  (\<open>Ws_Frame\<close>), the sender (\<open>Ws_Send\<close>) and the registry.

  json-c is a parser handed in: what its lookups return for a text is a \<open>ws_message\<close>.  TLS objects,
  the clock, allocation and \<open>trylock\<close> are in the environment.  A frame handed to a socket once is an
  output; that a call took only a part of it is not seen by the callers here, who drop the frame
  that \<open>ws_system_send_text\<close> gives them for a retry.
\<close>

section \<open>Messages\<close>

datatype ws_action_ipc_t =
  ACT_UNKNOWN | ACT_AUTH | ACT_PRIVATE | ACT_BROADCAST | ACT_GROUP | ACT_PUB | ACT_SUB | ACT_REQ

definition get_action_code :: "string option \<Rightarrow> ws_action_ipc_t" where
  "get_action_code s =
     (case s of
        None \<Rightarrow> ACT_UNKNOWN
      | Some a \<Rightarrow>
          if a = ''AUTH'' then ACT_AUTH
          else if a = ''PRIVATE'' then ACT_PRIVATE
          else if a = ''BROADCAST'' then ACT_BROADCAST
          else if a = ''GROUP'' then ACT_GROUP
          else if a = ''PUB'' then ACT_PUB
          else if a = ''SUB'' then ACT_SUB
          else if a = ''REQ'' then ACT_REQ
          else ACT_UNKNOWN)"

text \<open>What the lookups in a parsed message give: the fields of its header, if it has one, and the payload.\<close>

record ws_header =
  wh_type :: "string option"
  wh_src :: "string option"
  wh_dst :: "string option"
  wh_app_id :: "string option"
  wh_target_fd :: "int option"
  wh_user_id :: "string option"

record ws_message =
  wm_header :: "ws_header option"
  wm_payload :: "string option"

record ws_env =
  we_parse :: "bytes \<Rightarrow> ws_message option"
  we_ssl :: "int \<Rightarrow> nat option"
  we_now :: int
  we_malloc_ok :: bool
  we_trylock_ok :: "nat \<Rightarrow> bool"

section \<open>The state\<close>

record ws_system =
  wy_recv :: "int \<rightharpoonup> ws_recv_state_t"
  wy_fd_map :: "int \<Rightarrow> bool"
  wy_registry :: HalmosWSRegistry

definition halmos_ws_system_init :: ws_system where
  "halmos_ws_system_init = \<lparr> wy_recv = Map.empty, wy_fd_map = (\<lambda>_. False), wy_registry = ws_registry_init \<rparr>"

definition halmos_is_websocket_fd :: "ws_system \<Rightarrow> int \<Rightarrow> bool" where
  "halmos_is_websocket_fd s fd \<longleftrightarrow> ws_fd_is_valid fd \<and> wy_fd_map s fd"

definition halmos_set_websocket_fd :: "int \<Rightarrow> bool \<Rightarrow> ws_system \<Rightarrow> ws_system" where
  "halmos_set_websocket_fd fd status s =
     (if ws_fd_is_valid fd then s\<lparr> wy_fd_map := (wy_fd_map s)(fd := status) \<rparr> else s)"

definition ws_free_recv_state :: "int \<Rightarrow> ws_system \<Rightarrow> ws_system" where
  "ws_free_recv_state fd s =
     (if ws_fd_is_valid fd then s\<lparr> wy_recv := (wy_recv s)(fd := None) \<rparr> else s)"

definition ws_system_cleanup_fd :: "int \<Rightarrow> ws_system \<Rightarrow> ws_system" where
  "ws_system_cleanup_fd fd s =
     (if halmos_is_websocket_fd s fd then
        let s1 = ws_free_recv_state fd s
        in halmos_set_websocket_fd fd False (s1\<lparr> wy_registry := ws_registry_remove fd (wy_registry s1) \<rparr>)
      else s)"

definition ws_system_destroy :: "ws_system \<Rightarrow> ws_system" where
  "ws_system_destroy s =
     s\<lparr> wy_recv := (\<lambda>fd. if ws_fd_is_valid fd then None else wy_recv s fd),
        wy_registry := ws_registry_destroy (wy_registry s) \<rparr>"

text \<open>One round of the maintenance thread: pings, then the reaper.\<close>

definition ws_system_maintenance_turn :: "int \<Rightarrow> ws_system \<Rightarrow> ws_output list \<times> ws_system" where
  "ws_system_maintenance_turn now s =
     (let pings = ws_registry_heartbeat (wy_registry s);
          (closed, r) = ws_registry_reaper now (wy_registry s)
      in (pings @ closed, s\<lparr> wy_registry := r \<rparr>))"

section \<open>A message of a client\<close>

definition message_text :: "bytes \<Rightarrow> string" where
  "message_text data = cstr (text_of data)"

text \<open>The frame for one client, over the protocol of its connection.\<close>

definition private_output :: "HalmosWSRegistry \<Rightarrow> int \<Rightarrow> nat option \<Rightarrow> bytes \<Rightarrow> ws_output" where
  "private_output r fd ssl data =
     (case ws_registry_get_h2_status r fd of
        (True, sid) \<Rightarrow> TextH2 fd sid (message_text data)
      | (False, _) \<Rightarrow> RawSend fd ssl (ws_text_frame data))"

definition ws_action ::
  "ws_env \<Rightarrow> int \<Rightarrow> bytes \<Rightarrow> ws_message \<Rightarrow> string \<Rightarrow> string \<Rightarrow> string \<Rightarrow> HalmosWSRegistry
     \<Rightarrow> (ws_output list \<times> HalmosWSRegistry) ws_result" where
  "ws_action env sock data msg action target app_id r =
     (case get_action_code (Some action) of
        ACT_AUTH \<Rightarrow>
          Done ([], case wm_payload msg of None \<Rightarrow> r | Some u \<Rightarrow> ws_registry_set_user_id sock (Some u) r)
      | ACT_PRIVATE \<Rightarrow>
          (case ws_registry_get_session_info r (Some target) of
             Done None \<Rightarrow> Done ([], r)
           | Done (Some (fd, session, ssl)) \<Rightarrow> Done ([private_output r fd ssl data], r)
           | StackOverflow \<Rightarrow> StackOverflow | UseAfterFree \<Rightarrow> UseAfterFree)
      | ACT_BROADCAST \<Rightarrow>
          (case ws_registry_broadcast (we_trylock_ok env) (message_text data) r of
             Done out \<Rightarrow> Done (out, r) | StackOverflow \<Rightarrow> StackOverflow | UseAfterFree \<Rightarrow> UseAfterFree)
      | ACT_PUB \<Rightarrow>
          (case ws_registry_publish ''GLOBAL'' target (message_text data) r of
             Done out \<Rightarrow> Done (out, r) | StackOverflow \<Rightarrow> StackOverflow | UseAfterFree \<Rightarrow> UseAfterFree)
      | ACT_SUB \<Rightarrow>
          (case ws_registry_add_to_topic sock app_id target r of
             Done r' \<Rightarrow> Done ([], r') | StackOverflow \<Rightarrow> StackOverflow | UseAfterFree \<Rightarrow> UseAfterFree)
      | _ \<Rightarrow> Done ([], r))"

definition ws_system_on_message ::
  "ws_env \<Rightarrow> int \<Rightarrow> bytes \<Rightarrow> HalmosWSRegistry \<Rightarrow> (ws_output list \<times> HalmosWSRegistry) ws_result" where
  "ws_system_on_message env sock data r =
     (if data = [] then Done ([], r)
      else case we_parse env data of
        None \<Rightarrow> Done ([], r)
      | Some msg \<Rightarrow>
          (case wm_header msg of
             None \<Rightarrow> Done ([], r)
           | Some h \<Rightarrow>
               (case (wh_type h, wh_dst h) of
                  (Some action, Some target) \<Rightarrow>
                    ws_action env sock data msg action target
                      (case wh_app_id h of Some a \<Rightarrow> a | None \<Rightarrow> ''GLOBAL'') r
                | _ \<Rightarrow> Done ([], r))))"

text \<open>A message of a backend over the local socket (\<open>ws_system_internal_dispatch\<close>).\<close>

definition INTERNAL_PREFIX :: string where "INTERNAL_PREFIX = ''HALMOS_''"

definition ws_system_internal_dispatch ::
  "ws_env \<Rightarrow> string option \<Rightarrow> HalmosWSRegistry \<Rightarrow> (ws_output list \<times> HalmosWSRegistry) ws_result" where
  "ws_system_internal_dispatch env json_raw r =
     (case json_raw of
        None \<Rightarrow> Done ([], r)
      | Some raw \<Rightarrow>
          (case we_parse env (bytes_of raw) of
             None \<Rightarrow> Done ([], r)
           | Some msg \<Rightarrow>
               (case wm_header msg of
                  None \<Rightarrow> Done ([], r)
                | Some h \<Rightarrow>
                    if wh_type h = Some ''SET_IDENTITY'' then
                      (case (wh_target_fd h, wh_user_id h) of
                         (Some fd, Some u) \<Rightarrow> Done ([], ws_registry_set_user_id fd (Some u) r)
                       | _ \<Rightarrow> Done ([], r))
                    else
                      (case (wh_src h, wh_dst h) of
                         (Some source, Some target) \<Rightarrow>
                           if take (length INTERNAL_PREFIX) source \<noteq> INTERNAL_PREFIX then Done ([], r)
                           else if target = ''BROADCAST'' then
                             (case ws_registry_broadcast (we_trylock_ok env) raw r of
                                Done out \<Rightarrow> Done (out, r) | StackOverflow \<Rightarrow> StackOverflow | UseAfterFree \<Rightarrow> UseAfterFree)
                           else
                             (case ws_registry_get_session_info r (Some target) of
                                Done (Some (fd, session, ssl)) \<Rightarrow>
                                  Done (if ws_registry_validate_session r fd session
                                        then [RawSend fd ssl (ws_text_frame (bytes_of raw))] else [], r)
                              | Done None \<Rightarrow> Done ([], r)
                              | StackOverflow \<Rightarrow> StackOverflow | UseAfterFree \<Rightarrow> UseAfterFree)
                       | _ \<Rightarrow> Done ([], r)))))"

section \<open>Frames of a connection\<close>

definition WS_OP_TEXT :: nat where "WS_OP_TEXT = 0x1"
definition WS_OP_CLOSE :: nat where "WS_OP_CLOSE = 0x8"
definition WS_OP_PING :: nat where "WS_OP_PING = 0x9"
definition WS_OP_PONG :: nat where "WS_OP_PONG = 0xA"

text \<open>What a frame does: whether the connection stays, what goes out, and the registry.\<close>

definition ws_frame_action ::
  "ws_env \<Rightarrow> int \<Rightarrow> ws_frame \<Rightarrow> HalmosWSRegistry \<Rightarrow> (int \<times> ws_output list \<times> HalmosWSRegistry) ws_result" where
  "ws_frame_action env sock f r =
     (if wf_opcode f = WS_OP_TEXT then
        (case ws_system_on_message env sock (wf_payload f) r of
           Done (out, r') \<Rightarrow> Done (1, out, r') | StackOverflow \<Rightarrow> StackOverflow | UseAfterFree \<Rightarrow> UseAfterFree)
      else if wf_opcode f = WS_OP_PING then Done (1, [RawSend sock (we_ssl env sock) pong_frame], r)
      else if wf_opcode f = WS_OP_PONG then Done (1, [], ws_registry_update_activity (we_now env) sock r)
      else if wf_opcode f = WS_OP_CLOSE then Done (0, [], r)
      else Done (1, [], r))"

definition ws_system_dispatch ::
  "ws_env \<Rightarrow> int \<Rightarrow> net_event list \<Rightarrow> ws_system \<Rightarrow> (int \<times> ws_output list \<times> ws_system \<times> net_event list) ws_result" where
  "ws_system_dispatch env sock net s =
     (if \<not> ws_fd_is_valid sock then Done (0, [], s, net)
      else
        let st = (case wy_recv s sock of Some st \<Rightarrow> st | None \<Rightarrow> ws_recv_init)
        in case halmos_ws_recv_frame (we_malloc_ok env) st net of
             (status, f, st', net') \<Rightarrow>
               let s1 = s\<lparr> wy_recv := (wy_recv s)(sock \<mapsto> st') \<rparr>
               in (case (status, f) of
                     (WS_RECV_AGAIN, _) \<Rightarrow> Done (1, [], s1, net')
                   | (WS_RECV_OK, Some fr) \<Rightarrow>
                       (case ws_frame_action env sock fr (wy_registry s1) of
                          Done (keep, out, r) \<Rightarrow> Done (keep, out, s1\<lparr> wy_registry := r \<rparr>, net')
                        | StackOverflow \<Rightarrow> StackOverflow | UseAfterFree \<Rightarrow> UseAfterFree)
                   | _ \<Rightarrow> Done (0, [], s1, net')))"

text \<open>
  The handshake: the registry may be full, and the descriptor is a WebSocket all the same.  The
  status -2 asks for another attempt.
\<close>

definition new_user_event :: string where
  "new_user_event = [CHR 0x7B, CHR 0x22] @ ''event'' @ [CHR 0x22] @ '': '' @ [CHR 0x22] @ ''new_user'' @ [CHR 0x22]
     @ '', '' @ [CHR 0x22] @ ''msg'' @ [CHR 0x22] @ '': '' @ [CHR 0x22] @ ''Seseorang baru saja bergabung!'' @ [CHR 0x22, CHR 0x7D]"

definition ws_upgrade_handshake ::
  "ws_env \<Rightarrow> int \<Rightarrow> RequestHeader \<Rightarrow> send_result \<Rightarrow> ws_system \<Rightarrow> (int \<times> ws_output list \<times> ws_system) ws_result" where
  "ws_upgrade_handshake env sock req sent s =
     (if rh_ws_key req = None \<or> \<not> we_malloc_ok env then Done (-1, [], s)
      else case sent of
        SendAgain \<Rightarrow> Done (-2, [], s)
      | SendFail \<Rightarrow> Done (-1, [], s)
      | Sent n \<Rightarrow>
          if n = 0 then Done (-1, [], s)
          else
            let (slot, r) = ws_registry_add (we_malloc_ok env) (we_now env) sock (we_ssl env sock) (wy_registry s);
                s1 = s\<lparr> wy_registry := r \<rparr>
            in if slot \<noteq> -1 then
                 (case ws_registry_broadcast (we_trylock_ok env) new_user_event r of
                    Done out \<Rightarrow> Done (0, out, halmos_set_websocket_fd sock True s1)
                  | StackOverflow \<Rightarrow> StackOverflow | UseAfterFree \<Rightarrow> UseAfterFree)
               else Done (0, [], halmos_set_websocket_fd sock True s1))"

section \<open>Frames in a tunnel\<close>

text \<open>
  \<open>ws_system_handle_h2_payload\<close>: a whole frame in the data of an HTTP/2 stream, masked or not.  The sum
  of offset and length is 64-bit.  When it wraps, more is copied than there is: \<open>Overrun\<close>.
\<close>

datatype h2_ws_parse = Ignored | Overrun | WsFrame nat bytes

definition ws_h2_frame :: "(nat \<Rightarrow> bool) \<Rightarrow> bytes \<Rightarrow> h2_ws_parse" where
  "ws_h2_frame malloc_ok d =
     (if length d < 2 then Ignored
      else
        let opcode = unat (d ! 0 AND 0x0F); masked = bit (d ! 1) 7; l7 = unat (d ! 1 AND 0x7F)
        in if l7 = 126 \<and> length d < 4 \<or> l7 = 127 \<and> length d < 10 then Ignored
           else
             let payload_len = (if l7 = 126 then be16 (d ! 2) (d ! 3) else if l7 = 127 then be64 (drop 2 d) else l7);
                 off = (if l7 = 126 then 4 else if l7 = 127 then 10 else 2)
             in if masked \<and> length d < off + 4 then Ignored
                else
                  let key = (if masked then take 4 (drop off d) else [0, 0, 0, 0]);
                      header_offset = (if masked then off + 4 else off)
                  in if (header_offset + payload_len) mod 2 ^ 64 > length d then Ignored
                     else if \<not> malloc_ok ((payload_len + 1) mod 2 ^ 64) then Ignored
                     else if header_offset + payload_len > length d then Overrun
                     else WsFrame opcode
                            (if masked then ws_unmask key (take payload_len (drop header_offset d))
                             else take payload_len (drop header_offset d)))"

definition ws_system_handle_h2_payload ::
  "ws_env \<Rightarrow> (nat \<Rightarrow> bool) \<Rightarrow> int \<Rightarrow> u32 \<Rightarrow> bytes \<Rightarrow> ws_system \<Rightarrow> (bytes list \<times> ws_output list \<times> ws_system) ws_result" where
  "ws_system_handle_h2_payload env malloc_ok sock stream_id d s =
     (case ws_h2_frame malloc_ok d of
        Ignored \<Rightarrow> Done ([], [], s)
      | Overrun \<Rightarrow> StackOverflow
      | WsFrame opcode payload \<Rightarrow>
          if opcode = WS_OP_TEXT then
            (case ws_system_on_message env sock payload (wy_registry s) of
               Done (out, r) \<Rightarrow> Done ([], out, s\<lparr> wy_registry := r \<rparr>)
             | StackOverflow \<Rightarrow> StackOverflow | UseAfterFree \<Rightarrow> UseAfterFree)
          else if opcode = WS_OP_PING then Done ([pong_frame_h2 stream_id], [], s)
          else if opcode = WS_OP_PONG then
            Done ([], [], s\<lparr> wy_registry := ws_registry_update_activity (we_now env) sock (wy_registry s) \<rparr>)
          else if opcode = WS_OP_CLOSE then Done ([], [], ws_system_cleanup_fd sock s)
          else Done ([], [], s))"

section \<open>Lemmas\<close>

lemma server_head_bits:
  "n < 128 \<Longrightarrow> unat (word_of_nat n AND 0x7F :: u8) = n \<and> \<not> bit (word_of_nat n :: u8) 7"
proof -
  have "list_all (\<lambda>n. unat (word_of_nat n AND 0x7F :: u8) = n \<and> \<not> bit (word_of_nat n :: u8) 7) [0..<128]"
    by code_simp
  then show "n < 128 \<Longrightarrow> ?thesis" by (simp add: list_all_iff)
qed

text \<open>The server's own frames are frames to its parser.\<close>

lemma ws_h2_frame_text:
  assumes "length t \<le> MAX_WS_PAYLOAD" and "malloc_ok (length t + 1)"
  shows "ws_h2_frame malloc_ok (ws_text_frame t) = WsFrame WS_OP_TEXT t"
proof -
  let ?n = "length t"
  let ?e = "snd (ws_length_field ?n)"
  have l7: "unat (fst (ws_length_field ?n) AND 0x7F) = len7 ?n" "\<not> bit (fst (ws_length_field ?n)) 7"
    using server_head_bits [OF length_field(2) [of ?n]] by (simp_all add: length_field(1))
  have e: "length ?e = (if len7 ?n = 126 then 2 else if len7 ?n = 127 then 8 else 0)" by (rule length_field(3))
  have big: "?n < 2 ^ 60" using assms(1) by (simp add: MAX_WS_PAYLOAD_def)
  consider "len7 ?n < 126" | "len7 ?n = 126" | "len7 ?n = 127" using length_field(2) [of ?n] by linarith
  then show ?thesis
  proof cases
    case 1
    then have "len7 ?n = ?n" "?e = []" using ext_value(3) e by (auto simp: length_0_conv [symmetric] simp del: length_0_conv)
    then show ?thesis
      using l7 1 assms(2) big by (simp add: ws_h2_frame_def ws_text_frame_def Let_def WS_OP_TEXT_def)
  next
    case 2
    then obtain a b where "?e = [a, b]" using e by (auto simp: length_Suc_conv numeral_2_eq_2)
    then show ?thesis
      using l7 2 assms(2) big ext_value(1) [of ?n]
      by (simp add: ws_h2_frame_def ws_text_frame_def Let_def WS_OP_TEXT_def)
  next
    case 3
    have "be64 (?e @ t) = ?n" using be64_be64_bytes [of ?n t] 3 big
      by (auto simp: ws_length_field_def len7_def split: if_splits)
    then show ?thesis
      using l7 3 e assms(2) big
      by (simp add: ws_h2_frame_def ws_text_frame_def Let_def WS_OP_TEXT_def)
  qed
qed

text \<open>A length of \<open>2 ^ 64 - 1\<close> passes the check of the bounds, because the sum wraps.\<close>

lemma ws_h2_length_wraps:
  "malloc_ok 0 \<Longrightarrow>
     ws_h2_frame malloc_ok [0x81, 0x7F, 0xFF, 0xFF, 0xFF, 0xFF, 0xFF, 0xFF, 0xFF, 0xFF] = Overrun"
  by (simp add: ws_h2_frame_def be64_def Let_def)

lemma http_is_no_frame:
  "ws_recv_loop m ws_recv_init [Arrived (bytes_of ''GET / HTTP/1.1'')]
     = (WS_RECV_FATAL, snd (ws_header_read (ws_recv_init\<lparr> wr_header := [0x47, 0x45] \<rparr>)),
        [Arrived (bytes_of ''T / HTTP/1.1'')])"
  by (subst ws_recv_loop.simps)
    (simp add: ws_needed.simps ws_recv_init_def ws_read_data_def ws_header_read_def bytes_of_def Let_def)

section \<open>Properties\<close>


definition one_client :: "bool \<Rightarrow> HalmosWSRegistry" where
  "one_client h2 = ws_registry_init\<lparr> wg_next := 1, wg_clients := [Some 0], wg_fd_map := [5 \<mapsto> 0], wg_current_count := 1,
     wg_heap := [0 \<mapsto> \<lparr> wc_fd = 5, wc_ssl = None, wc_last_seen = 0, wc_is_active = True, wc_is_http2 = h2,
       wc_stream_id = 0, wc_session_id = 1, wc_user_id = [], wc_topics = [] \<rparr>] \<rparr>"

definition to_ann :: ws_env where
  "to_ann = \<lparr> we_parse = (\<lambda>_. Some \<lparr> wm_header = Some \<lparr> wh_type = Some ''PRIVATE'', wh_src = None, wh_dst = Some ''ann'',
       wh_app_id = None, wh_target_fd = None, wh_user_id = None \<rparr>, wm_payload = None \<rparr>),
     we_ssl = (\<lambda>_. None), we_now = 0, we_malloc_ok = True, we_trylock_ok = (\<lambda>_. True) \<rparr>"


text \<open>The reaper breaks the next connection: it closes the descriptor of an idle client but leaves it
  marked as a WebSocket, so that the next client that is given the descriptor has its HTTP request
  read as a frame and is thrown out.\<close>

theorem ws_reaped_fd_breaks_next:
  assumes "fd \<in> set (dead_fds now (wy_registry s))" and "halmos_is_websocket_fd s fd"
    and "wy_recv s fd \<in> {None, Some ws_recv_init}"
  shows "case ws_system_maintenance_turn now s of (out, s') \<Rightarrow>
     CloseFd fd \<in> set out \<and> halmos_is_websocket_fd s' fd
   \<and> (\<exists>s2. ws_system_dispatch env fd [Arrived (bytes_of ''GET / HTTP/1.1'')] s'
           = Done (0, [], s2, [Arrived (bytes_of ''T / HTTP/1.1'')]))"
proof -
  have "ws_fd_is_valid fd" using assms(2) by (simp add: halmos_is_websocket_fd_def)
  then show ?thesis
    using assms http_is_no_frame [of "we_malloc_ok env"]
    by (auto simp: ws_system_maintenance_turn_def ws_registry_reaper_def halmos_is_websocket_fd_def
        ws_system_dispatch_def halmos_ws_recv_frame_def Let_def split: option.splits)
qed

theorem ws_reaped_fd_breaks_next_witness:
  "case ws_system_maintenance_turn 100 (halmos_set_websocket_fd 5 True (halmos_ws_system_init\<lparr> wy_registry := one_client False \<rparr>))
   of (out, s') \<Rightarrow> CloseFd 5 \<in> set out \<and> halmos_is_websocket_fd s' 5
   \<and> (\<exists>s2. ws_system_dispatch to_ann 5 [Arrived (bytes_of ''GET / HTTP/1.1'')] s'
           = Done (0, [], s2, [Arrived (bytes_of ''T / HTTP/1.1'')]))"
proof (rule ws_reaped_fd_breaks_next)
  show "5 \<in> set (dead_fds 100 (wy_registry (halmos_set_websocket_fd 5 True
      (halmos_ws_system_init\<lparr> wy_registry := one_client False \<rparr>))))"
    using valid_fd_5 by (simp add: dead_fds_def slot_clients_def one_client_def halmos_set_websocket_fd_def)
qed (use valid_fd_5 in \<open>simp_all add: halmos_is_websocket_fd_def halmos_set_websocket_fd_def halmos_ws_system_init_def\<close>)

end
