(* ===== verification/Server.thy ===== *)
theory Server
  imports Core_Queue Conn_Table Ws_System
begin

text \<open>
  The life of a connection across the event loop (src/core/halmos_core_event_loop.c), the task queue,
  the workers (src/core/halmos_core_thread_pool.c), the bridge (src/protocol/halmos_http_bridge.c) and
  the connection table.

  The kernel is the set of open descriptors and, for each one that is registered with epoll, the
  mask it is armed with (0 when the one-shot event was delivered).  The queue is the list of its
  events (its operations are \<open>Core_Queue\<close>).  A worker that has an event in its hands holds the lock of
  the connection.  The protocol managers are what they return and what they leave in the slot.
\<close>

definition EPOLLIN :: u32 where "EPOLLIN = 0x001"
definition EPOLLOUT :: u32 where "EPOLLOUT = 0x004"
definition EPOLLERR :: u32 where "EPOLLERR = 0x008"
definition EPOLLHUP :: u32 where "EPOLLHUP = 0x010"
definition EPOLLRDHUP :: u32 where "EPOLLRDHUP = 0x2000"

section \<open>The bridge\<close>

datatype halmos_protocol_t = PROTOCOL_HTTP1 | PROTOCOL_HTTP2 | PROTOCOL_UNKNOWN | PROTOCOL_ERROR | PROTOCOL_RETRY

text \<open>A look at the socket: the bytes there (none at the end of the stream), nothing yet, or an error.\<close>

datatype peek = Peeked bytes | PeekAgain | PeekError

datatype accept_result = AcceptDone | AcceptWantRead | AcceptWantWrite | AcceptFail

datatype session_kind = Http1Session | Http2Session

record bridge_env =
  be_websocket :: bool
  be_session :: "session_kind option option"
  be_ssl :: bool
  be_tls_enabled :: bool
  be_peek1 :: peek
  be_accept :: accept_result
  be_alpn_h2 :: bool
  be_peek4 :: peek

text \<open>What the bridge does: a status, or the module it hands the connection to.\<close>

datatype bridge_action = Return int | Refuse string | ToWebsocket | ToHttp1 | ToHttp2

definition http1_methods :: "string list" where
  "http1_methods = [''GET '', ''POST'', ''HTTP'', ''PUT '', ''HEAD'']"

definition bridge_detect :: "bool \<Rightarrow> bridge_env \<Rightarrow> halmos_protocol_t" where
  "bridge_detect ssl e =
     (if ssl then
        if be_alpn_h2 e then PROTOCOL_HTTP2
        else case be_peek4 e of
          PeekAgain \<Rightarrow> PROTOCOL_RETRY
        | PeekError \<Rightarrow> PROTOCOL_UNKNOWN
        | Peeked b \<Rightarrow> if b = [] then PROTOCOL_UNKNOWN else PROTOCOL_HTTP1
      else
        case be_peek4 e of
          PeekAgain \<Rightarrow> PROTOCOL_RETRY
        | PeekError \<Rightarrow> PROTOCOL_UNKNOWN
        | Peeked b \<Rightarrow>
            if length b < 4 then PROTOCOL_RETRY
            else if text_of (take 4 b) = ''PRI '' then PROTOCOL_HTTP2
            else if text_of (take 4 b) \<in> set http1_methods then PROTOCOL_HTTP1
            else PROTOCOL_UNKNOWN)"

definition http_bridge_dispatch :: "bool \<Rightarrow> bridge_env \<Rightarrow> u32 \<Rightarrow> bridge_action" where
  "http_bridge_dispatch has_conn e events =
     (if be_websocket e then ToWebsocket
      else if \<not> has_conn then Return 0
      else case be_session e of
        Some (Some Http1Session) \<Rightarrow> ToHttp1
      | Some (Some Http2Session) \<Rightarrow> ToHttp2
      | Some None \<Rightarrow> Return 0
      | None \<Rightarrow>
          let looks = (events AND EPOLLOUT = 0 \<and> \<not> be_ssl e);
              first = (case be_peek1 e of Peeked (b # _) \<Rightarrow> b = 0x16 | _ \<Rightarrow> False)
          in if looks \<and> be_peek1 e = PeekAgain then Return 2
             else if looks \<and> be_peek1 e \<in> {PeekError, Peeked []} then Return 0
             else
               let is_tls = (be_ssl e \<or> looks \<and> first);
                   ssl = (be_ssl e \<or> looks \<and> first \<and> be_tls_enabled e)
               in if is_tls \<and> \<not> be_tls_enabled e then Refuse ''This server only speaks HTTP, Boss!''
                  else if is_tls \<and> \<not> ssl then Return 0
                  else if is_tls \<and> be_accept e = AcceptWantRead then Return 2
                  else if is_tls \<and> be_accept e = AcceptWantWrite then Return 3
                  else if is_tls \<and> be_accept e = AcceptFail then Return 0
                  else if \<not> is_tls \<and> be_tls_enabled e then Refuse ''HTTPS Required''
                  else case bridge_detect ssl e of
                    PROTOCOL_RETRY \<Rightarrow> Return 2
                  | PROTOCOL_HTTP1 \<Rightarrow> ToHttp1
                  | PROTOCOL_HTTP2 \<Rightarrow> ToHttp2
                  | _ \<Rightarrow> Return 0)"

text \<open>The status decides whether the descriptor is armed again, and for what.\<close>

definition rearm_mask :: "int \<Rightarrow> u32 option" where
  "rearm_mask status =
     (if status = 1 then Some EPOLLIN
      else if status = 2 then Some EPOLLIN
      else if status = 3 then Some EPOLLOUT
      else if status = 4 then Some (EPOLLIN OR EPOLLOUT)
      else None)"

section \<open>The server\<close>

record server =
  sv_conns :: conn_system
  sv_open :: "int set"
  sv_epoll :: "int \<Rightarrow> u32"
  sv_queue :: "halmos_event_t list"
  sv_busy :: "halmos_event_t list"
  sv_ws :: ws_system
  sv_active_connections :: int

definition close_fd :: "int \<Rightarrow> server \<Rightarrow> server" where
  "close_fd fd s = s\<lparr> sv_open := sv_open s - {fd}, sv_epoll := (sv_epoll s)(fd := 0) \<rparr>"

definition core_event_loop_cleanup_connection :: "int \<Rightarrow> server \<Rightarrow> nat list \<times> server" where
  "core_event_loop_cleanup_connection fd s =
     (case core_conn_t_get (sv_conns s) fd of
        Some c \<Rightarrow>
          (case core_conn_t_destroy_protocol_session (core_conn_t_clear_write_buf
                  (c\<lparr> cn_active := False, cn_state := CONN_STATE_DEAD \<rparr>)) of
             (freed, c') \<Rightarrow>
               (freed, close_fd fd (s\<lparr> sv_conns := put_slot (sv_conns s) fd (c'\<lparr> cn_ssl := None \<rparr>),
                                       sv_ws := ws_system_cleanup_fd fd (sv_ws s) \<rparr>)))
      | None \<Rightarrow> ([], close_fd fd s))"

definition core_event_loop_rearm_epoll_ex :: "int \<Rightarrow> u32 \<Rightarrow> server \<Rightarrow> server" where
  "core_event_loop_rearm_epoll_ex fd events_mask s =
     (if fd \<in> sv_open s then s\<lparr> sv_epoll := (sv_epoll s)(fd := events_mask) \<rparr> else s)"

text \<open>One accepted socket.\<close>

definition core_event_loop_accept :: "int \<Rightarrow> bool \<Rightarrow> server \<Rightarrow> server" where
  "core_event_loop_accept fd epoll_ok s =
     (let s0 = s\<lparr> sv_open := insert fd (sv_open s), sv_active_connections := sv_active_connections s + 1 \<rparr>;
          (conn_gen, freed, conns) = core_conn_t_activate (sv_conns s0) fd;
          s1 = s0\<lparr> sv_conns := conns \<rparr>
      in if conn_gen = 0 then
           (close_fd fd s1)\<lparr> sv_active_connections := sv_active_connections s1 - 1 \<rparr>
         else if \<not> epoll_ok then
           snd (core_event_loop_cleanup_connection fd (s1\<lparr> sv_active_connections := sv_active_connections s1 - 1 \<rparr>))
         else s1\<lparr> sv_epoll := (sv_epoll s1)(fd := EPOLLIN) \<rparr>)"

text \<open>One event of a client; \<open>push_status\<close> is what the queue answers.\<close>

definition core_event_loop_client_event :: "int \<Rightarrow> u32 \<Rightarrow> int \<Rightarrow> server \<Rightarrow> server" where
  "core_event_loop_client_event fd ev push_status s =
     (let s0 = s\<lparr> sv_epoll := (sv_epoll s)(fd := 0) \<rparr>
      in if ev AND (EPOLLERR OR EPOLLHUP OR EPOLLRDHUP) \<noteq> 0 then
           snd (core_event_loop_cleanup_connection fd (s0\<lparr> sv_active_connections := sv_active_connections s0 - 1 \<rparr>))
         else if ev AND (EPOLLIN OR EPOLLOUT) \<noteq> 0 then
           (case core_conn_t_get (sv_conns s0) fd of
              None \<Rightarrow> s0
            | Some c \<Rightarrow>
                if \<not> cn_active c then s0
                else if push_status < 0 then
                  snd (core_event_loop_cleanup_connection fd (s0\<lparr> sv_active_connections := sv_active_connections s0 - 1 \<rparr>))
                else s0\<lparr> sv_queue := sv_queue s0 @ [\<lparr> ev_fd = fd, ev_generation = cn_generation c, ev_events = ev \<rparr>] \<rparr>)
         else s0)"

text \<open>A worker: an event from the queue, checked; and the end of its dispatch with a status.\<close>

definition worker_take :: "server \<Rightarrow> server" where
  "worker_take s =
     (case sv_queue s of
        [] \<Rightarrow> s
      | e # es \<Rightarrow>
          if core_conn_t_is_valid (sv_conns s) (ev_fd e) (ev_generation e)
          then s\<lparr> sv_queue := es, sv_busy := sv_busy s @ [e] \<rparr>
          else s\<lparr> sv_queue := es \<rparr>)"

definition worker_finish :: "halmos_event_t \<Rightarrow> int \<Rightarrow> (halmos_conn_t \<Rightarrow> halmos_conn_t) \<Rightarrow> server \<Rightarrow> server" where
  "worker_finish e status dispatch s =
     (let fd = ev_fd e;
          s0 = s\<lparr> sv_busy := remove1 e (sv_busy s),
                  sv_conns := (case core_conn_t_get (sv_conns s) fd of
                                 None \<Rightarrow> sv_conns s | Some c \<Rightarrow> put_slot (sv_conns s) fd (dispatch c)) \<rparr>
      in case rearm_mask status of
           Some m \<Rightarrow> core_event_loop_rearm_epoll_ex fd m s0
         | None \<Rightarrow> snd (core_event_loop_cleanup_connection fd (s0\<lparr> sv_active_connections := sv_active_connections s0 - 1 \<rparr>)))"

definition server_init :: "nat \<Rightarrow> server" where
  "server_init max_fd = \<lparr> sv_conns = snd (core_conn_t_init \<lparr> cs_max_fd = max_fd, cs_connections = None \<rparr> True (\<lambda>_. True)),
     sv_open = {}, sv_epoll = (\<lambda>_. 0), sv_queue = [], sv_busy = [], sv_ws = halmos_ws_system_init,
     sv_active_connections = 0 \<rparr>"

text \<open>What a dispatch may do to the slot: it leaves the lifetime and the state alone.\<close>

definition dispatch_ok :: "(halmos_conn_t \<Rightarrow> halmos_conn_t) \<Rightarrow> bool" where
  "dispatch_ok d \<longleftrightarrow> (\<forall>c. cn_generation (d c) = cn_generation c \<and> cn_active (d c) = cn_active c \<and> cn_state (d c) = cn_state c)"

inductive server_step :: "server \<Rightarrow> server \<Rightarrow> bool" where
  Accept: "0 \<le> fd \<Longrightarrow> fd \<notin> sv_open s \<Longrightarrow> server_step s (core_event_loop_accept fd epoll_ok s)"
| Event: "sv_epoll s fd \<noteq> 0 \<Longrightarrow>
    ev AND (EPOLLERR OR EPOLLHUP OR EPOLLRDHUP) \<noteq> 0 \<or> ev AND (EPOLLIN OR EPOLLOUT) \<noteq> 0 \<Longrightarrow>
    server_step s (core_event_loop_client_event fd ev push_status s)"
| Take: "server_step s (worker_take s)"
| Finish: "e \<in> set (sv_busy s) \<Longrightarrow> dispatch_ok dispatch \<Longrightarrow> server_step s (worker_finish e status dispatch s)"

inductive server_reachable :: "nat \<Rightarrow> server \<Rightarrow> bool" for max_fd where
  Start: "0 < max_fd \<Longrightarrow> server_reachable max_fd (server_init max_fd)"
| Step: "server_reachable max_fd s \<Longrightarrow> server_step s s' \<Longrightarrow> server_reachable max_fd s'"

section \<open>Who has a connection\<close>

text \<open>
  The lifetime of a descriptor that is in use, and the places that can lead to a dispatch of it: epoll
  when it is armed, the events of the queue, and the workers.
\<close>

definition alive :: "server \<Rightarrow> int \<Rightarrow> u32 option" where
  "alive s fd =
     (case core_conn_t_get (sv_conns s) fd of
        Some c \<Rightarrow> if cn_active c \<and> cn_generation c \<noteq> 0 then Some (cn_generation c) else None
      | None \<Rightarrow> None)"

definition of_fd :: "int \<Rightarrow> halmos_event_t list \<Rightarrow> nat" where
  "of_fd fd es = length (filter (\<lambda>e. ev_fd e = fd) es)"

definition owners :: "server \<Rightarrow> int \<Rightarrow> nat" where
  "owners s fd = (if sv_epoll s fd \<noteq> 0 then 1 else 0) + of_fd fd (sv_queue s) + of_fd fd (sv_busy s)"

definition table_ok :: "server \<Rightarrow> bool" where
  "table_ok s \<longleftrightarrow> (\<exists>t. cs_connections (sv_conns s) = Some t \<and> length t = cs_max_fd (sv_conns s))
     \<and> (\<forall>fd c. core_conn_t_get (sv_conns s) fd = Some c \<and> cn_active c \<longrightarrow> cn_state c = CONN_STATE_READING)"

definition server_inv :: "server \<Rightarrow> bool" where
  "server_inv s \<longleftrightarrow> table_ok s
   \<and> (\<forall>fd. owners s fd = (if alive s fd = None then 0 else 1))
   \<and> (\<forall>e \<in> set (sv_queue s @ sv_busy s). alive s (ev_fd e) = Some (ev_generation e))
   \<and> (\<forall>fd. alive s fd \<noteq> None \<longrightarrow> fd \<in> sv_open s)
   \<and> sv_active_connections s = int (card {fd. alive s fd \<noteq> None})"

lemma same_conns:
  "sv_conns s' = sv_conns s \<Longrightarrow> table_ok s' = table_ok s" "sv_conns s' = sv_conns s \<Longrightarrow> alive s' = alive s"
  by (simp_all add: table_ok_def alive_def fun_eq_iff)

lemma of_fd_simps [simp]:
  "of_fd fd [] = 0" "of_fd fd (e # es) = (if ev_fd e = fd then 1 else 0) + of_fd fd es"
  "of_fd fd (es @ es') = of_fd fd es + of_fd fd es'"
  by (simp_all add: of_fd_def)

lemma of_fd_remove1: "e \<in> set es \<Longrightarrow> of_fd fd es = of_fd fd (remove1 e es) + (if ev_fd e = fd then 1 else 0)"
  by (induction es) auto

lemma of_fd_member: "e \<in> set es \<Longrightarrow> 0 < of_fd (ev_fd e) es"
  by (induction es) auto

text \<open>The table as seen by descriptor.\<close>

lemma get_put:
  assumes "cs_connections cs = Some t" and "length t = cs_max_fd cs" and "core_conn_t_get cs fd = Some c0"
  shows "core_conn_t_get (put_slot cs fd c) f = (if f = fd then Some c else core_conn_t_get cs f)"
  using assms by (auto simp: core_conn_t_get_def put_slot_def nth_list_update split: if_splits)

lemma put_slot_table:
  "cs_max_fd (put_slot cs fd c) = cs_max_fd cs"
  "cs_connections (put_slot cs fd c) = map_option (\<lambda>t. t[nat fd := c]) (cs_connections cs)"
  by (simp_all add: put_slot_def)

lemma finite_alive: "finite {fd. alive s fd \<noteq> None}"
proof (rule finite_subset)
  show "{fd. alive s fd \<noteq> None} \<subseteq> {0..<int (cs_max_fd (sv_conns s))}"
    by (auto simp: alive_def core_conn_t_get_def split: if_splits)
qed simp

lemma card_alive_add:
  "alive s' = (alive s)(fd \<mapsto> g) \<Longrightarrow> alive s fd = None \<Longrightarrow>
     card {f. alive s' f \<noteq> None} = card {f. alive s f \<noteq> None} + 1"
proof -
  assume a: "alive s' = (alive s)(fd \<mapsto> g)" "alive s fd = None"
  then have "{f. alive s' f \<noteq> None} = insert fd {f. alive s f \<noteq> None}" by auto
  then show ?thesis using a finite_alive [of s] by simp
qed

lemma card_alive_less:
  assumes "alive s fd \<noteq> None"
  shows "int (card {f. ((alive s)(fd := None)) f \<noteq> None}) = int (card {f. alive s f \<noteq> None}) - 1"
proof -
  have "{f. ((alive s)(fd := None)) f \<noteq> None} = {f. alive s f \<noteq> None} - {fd}" by auto
  moreover have "0 < card {f. alive s f \<noteq> None}" using assms finite_alive [of s] by (auto simp: card_gt_0_iff)
  ultimately show ?thesis using assms finite_alive [of s] by (simp add: card_Diff_singleton)
qed

text \<open>The effect of cleaning up: the connection is not alive any more.\<close>

lemma cleanup_effect:
  assumes "table_ok s" and s': "s' = snd (core_event_loop_cleanup_connection fd s)"
  shows "table_ok s'" and "alive s' = (alive s)(fd := None)" and "sv_open s' = sv_open s - {fd}"
    and "sv_epoll s' = (sv_epoll s)(fd := 0)" and "sv_queue s' = sv_queue s" and "sv_busy s' = sv_busy s"
    and "sv_active_connections s' = sv_active_connections s"
proof -
  obtain t where t: "cs_connections (sv_conns s) = Some t" "length t = cs_max_fd (sv_conns s)"
    using assms(1) by (auto simp: table_ok_def)
  note defs = s' core_event_loop_cleanup_connection_def close_fd_def core_conn_t_destroy_protocol_session_def
    core_conn_t_clear_write_buf_def
  show "sv_open s' = sv_open s - {fd}" "sv_epoll s' = (sv_epoll s)(fd := 0)" "sv_queue s' = sv_queue s"
    "sv_busy s' = sv_busy s" "sv_active_connections s' = sv_active_connections s"
    by (auto simp: defs split: option.splits)
  show "alive s' = (alive s)(fd := None)"
    by (rule ext) (auto simp: alive_def defs get_put [OF t] split: option.splits)
  show "table_ok s'"
    using assms(1) t by (auto simp: table_ok_def defs get_put [OF t] put_slot_table split: option.splits if_splits)
qed

text \<open>Giving a connection up that has no place any more keeps the invariant.\<close>

lemma inv_cleanup:
  assumes "table_ok s" and "\<And>f. owners s f = (if alive s f = None \<or> f = fd then 0 else 1)"
    and "\<forall>e \<in> set (sv_queue s @ sv_busy s). alive s (ev_fd e) = Some (ev_generation e)"
    and "\<And>f. f \<noteq> fd \<Longrightarrow> alive s f \<noteq> None \<Longrightarrow> f \<in> sv_open s"
    and "int (card {f. ((alive s)(fd := None)) f \<noteq> None}) = sv_active_connections s"
  shows "server_inv (snd (core_event_loop_cleanup_connection fd s))"
proof -
  obtain s' where s': "s' = snd (core_event_loop_cleanup_connection fd s)" by simp
  note eff = cleanup_effect [OF assms(1) s']
  have "ev_fd e \<noteq> fd" if "e \<in> set (sv_queue s @ sv_busy s)" for e
    using assms(2) [of fd] of_fd_member [of e "sv_queue s"] of_fd_member [of e "sv_busy s"] that
    by (auto simp: owners_def)
  moreover have "owners s' f = (if alive s' f = None then 0 else 1)" for f
    using assms(2) [of f] eff by (auto simp: owners_def split: if_splits)
  ultimately show ?thesis
    unfolding s' [symmetric] using assms(3,4,5) eff by (auto simp: server_inv_def)
qed

lemma slot_activate_fields:
  "cn_active (snd (slot_activate c))" "cn_state (snd (slot_activate c)) = CONN_STATE_READING"
  by (simp_all add: slot_activate_def Let_def case_prod_unfold)

lemma inv_accept:
  assumes inv: "server_inv s" and fd: "0 \<le> fd" "fd \<notin> sv_open s"
  shows "server_inv (core_event_loop_accept fd epoll_ok s)"
proof -
  obtain t where t: "cs_connections (sv_conns s) = Some t" "length t = cs_max_fd (sv_conns s)"
    using inv by (auto simp: server_inv_def table_ok_def)
  have dead: "alive s fd = None" and free: "owners s fd = 0"
    using inv fd by (auto simp: server_inv_def)
  obtain g freed conns where act: "core_conn_t_activate (sv_conns s) fd = (g, freed, conns)" by (metis prod_cases3)
  let ?s1 = "s\<lparr> sv_open := insert fd (sv_open s), sv_active_connections := sv_active_connections s + 1, sv_conns := conns \<rparr>"
  have tab: "table_ok ?s1" and al: "alive ?s1 = (alive s)(fd := if g = 0 then None else Some g)"
  proof (atomize(full), cases "core_conn_t_get (sv_conns s) fd")
    case None
    then have "g = 0" "conns = sv_conns s" using act by (auto simp: core_conn_t_activate_def)
    then show "table_ok ?s1 \<and> alive ?s1 = (alive s)(fd := if g = 0 then None else Some g)"
      using inv dead by (auto simp: server_inv_def table_ok_def alive_def fun_eq_iff)
  next
    case (Some c)
    with act obtain c' where c': "conns = put_slot (sv_conns s) fd c'" "g = cn_generation c'" "cn_active c'"
        "cn_state c' = CONN_STATE_READING"
      using slot_activate_fields [of c] by (auto simp: core_conn_t_activate_def Let_def case_prod_unfold)
    then show "table_ok ?s1 \<and> alive ?s1 = (alive s)(fd := if g = 0 then None else Some g)"
      using inv t by (auto simp: server_inv_def table_ok_def alive_def fun_eq_iff get_put [OF t Some] put_slot_table)
  qed
  have own: "owners ?s1 f = owners s f" for f by (simp add: owners_def)
  have events: "\<forall>e \<in> set (sv_queue s @ sv_busy s). ev_fd e \<noteq> fd"
    using free of_fd_member [of _ "sv_queue s"] of_fd_member [of _ "sv_busy s"] by (fastforce simp: owners_def)
  have invD: "\<forall>f. owners s f = (if alive s f = None then 0 else 1)"
      "\<forall>e \<in> set (sv_queue s @ sv_busy s). alive s (ev_fd e) = Some (ev_generation e)"
      "\<forall>f. alive s f \<noteq> None \<longrightarrow> f \<in> sv_open s" "sv_active_connections s = int (card {f. alive s f \<noteq> None})"
    using inv by (auto simp: server_inv_def)
  consider "g = 0" | "g \<noteq> 0" "\<not> epoll_ok" | "g \<noteq> 0" "epoll_ok" by blast
  then show ?thesis
  proof cases
    case 1
    let ?s2 = "(close_fd fd ?s1)\<lparr> sv_active_connections := sv_active_connections s \<rparr>"
    have "alive ?s2 = alive s" using al 1 dead by (auto simp: alive_def close_fd_def fun_eq_iff)
    moreover have "owners ?s2 = owners s"
      using free by (auto simp: owners_def close_fd_def fun_eq_iff split: if_splits)
    moreover have "table_ok ?s2" using tab by (auto simp: table_ok_def close_fd_def)
    ultimately show ?thesis
      using 1 act invD fd dead by (auto simp: server_inv_def core_event_loop_accept_def Let_def close_fd_def)
  next
    case 2
    let ?s2 = "?s1\<lparr> sv_active_connections := sv_active_connections s \<rparr>"
    have "alive ?s2 = alive ?s1" "owners ?s2 = owners s" by (auto simp: alive_def owners_def fun_eq_iff)
    then have "server_inv (snd (core_event_loop_cleanup_connection fd ?s2))"
      using invD tab al events free dead own
      by (intro inv_cleanup) (auto simp: table_ok_def fun_upd_idem)
    then show ?thesis using 2 act by (simp add: core_event_loop_accept_def Let_def)
  next
    case 3
    let ?s2 = "?s1\<lparr> sv_epoll := (sv_epoll s)(fd := EPOLLIN) \<rparr>"
    have al2: "alive ?s2 = (alive s)(fd \<mapsto> g)" using al 3 by (auto simp: alive_def fun_eq_iff)
    note card = card_alive_add [OF al2 dead]
    have "owners ?s2 f = (if alive ?s2 f = None then 0 else 1)" for f
    proof (cases "f = fd")
      case True
      then show ?thesis using free al2 by (simp add: owners_def EPOLLIN_def split: if_splits)
    next
      case False
      then have "owners ?s2 f = owners s f" "alive ?s2 f = alive s f" using al2 by (auto simp: owners_def)
      then show ?thesis using invD(1) by metis
    qed
    then have "server_inv ?s2"
      using invD tab al2 events card by (auto simp: server_inv_def table_ok_def)
    then show ?thesis using 3 act by (simp add: core_event_loop_accept_def Let_def)
  qed
qed

lemma server_invD:
  assumes "server_inv s"
  shows "table_ok s" "owners s f = (if alive s f = None then 0 else 1)"
    "e \<in> set (sv_queue s @ sv_busy s) \<Longrightarrow> alive s (ev_fd e) = Some (ev_generation e)"
    "alive s f \<noteq> None \<Longrightarrow> f \<in> sv_open s" "sv_active_connections s = int (card {f. alive s f \<noteq> None})"
  using assms by (auto simp: server_inv_def)

text \<open>The places of a connection that the event loop has just taken out of epoll.\<close>

lemma disarmed:
  assumes inv: "server_inv s" and armed: "sv_epoll s fd \<noteq> 0"
  shows "alive s fd \<noteq> None" "of_fd fd (sv_queue s) = 0" "of_fd fd (sv_busy s) = 0"
    "owners (s\<lparr> sv_epoll := (sv_epoll s)(fd := 0) \<rparr>) f = (if alive s f = None \<or> f = fd then 0 else 1)"
  using server_invD(2) [OF inv, of fd] server_invD(2) [OF inv, of f] armed
  by (auto simp: owners_def split: if_splits)

lemma owned_once:
  assumes "server_inv s"
  shows "owners s f = 1 \<longleftrightarrow> alive s f \<noteq> None" "owners s f = 0 \<longleftrightarrow> alive s f = None"
  using server_invD(2) [OF assms, of f] by auto

lemma inv_event:
  assumes inv: "server_inv s" and armed: "sv_epoll s fd \<noteq> 0"
    and ev: "ev AND (EPOLLERR OR EPOLLHUP OR EPOLLRDHUP) \<noteq> 0 \<or> ev AND (EPOLLIN OR EPOLLOUT) \<noteq> 0"
  shows "server_inv (core_event_loop_client_event fd ev push_status s)"
proof -
  let ?s0 = "s\<lparr> sv_epoll := (sv_epoll s)(fd := 0) \<rparr>"
  let ?s1 = "?s0\<lparr> sv_active_connections := sv_active_connections s - 1 \<rparr>"
  note dis = disarmed [OF inv armed]
  obtain c where c: "core_conn_t_get (sv_conns s) fd = Some c" "cn_active c" "alive s fd = Some (cn_generation c)"
    using dis(1) by (auto simp: alive_def split: option.splits if_splits)
  have gone: "server_inv (snd (core_event_loop_cleanup_connection fd ?s1))"
  proof (rule inv_cleanup)
    show "table_ok ?s1" using server_invD(1) [OF inv] same_conns(1) [of ?s1 s] by simp
    show "owners ?s1 f = (if alive ?s1 f = None \<or> f = fd then 0 else 1)" for f
      using dis(4) [of f] by (simp add: owners_def alive_def)
    show "\<forall>e \<in> set (sv_queue ?s1 @ sv_busy ?s1). alive ?s1 (ev_fd e) = Some (ev_generation e)"
      using server_invD(3) [OF inv] by (simp add: alive_def)
    show "f \<in> sv_open ?s1" if "f \<noteq> fd" "alive ?s1 f \<noteq> None" for f
      using server_invD(4) [OF inv, of f] that by (simp add: alive_def)
    have "alive ?s1 = alive s" by (simp add: alive_def fun_eq_iff)
    then show "int (card {f. ((alive ?s1)(fd := None)) f \<noteq> None}) = sv_active_connections ?s1"
      using server_invD(5) [OF inv] card_alive_less [of s fd] dis(1) by simp
  qed
  let ?s2 = "?s0\<lparr> sv_queue := sv_queue s @ [\<lparr> ev_fd = fd, ev_generation = cn_generation c, ev_events = ev \<rparr>] \<rparr>"
  have queued: "server_inv ?s2"
  proof -
    have "alive ?s2 = alive s" by (simp add: alive_def fun_eq_iff)
    moreover have "owners ?s2 f = (if alive s f = None then 0 else 1)" for f
      using dis(1) dis(4) [of f]
      by (cases "f = fd"; cases "alive s f"; simp add: owners_def split: if_splits)
    ultimately show ?thesis
      using server_invD(1,3,4,5) [OF inv] c by (auto simp: server_inv_def table_ok_def)
  qed
  show ?thesis using ev gone queued c(1,2) by (auto simp: core_event_loop_client_event_def Let_def)
qed

lemma queued_valid:
  assumes inv: "server_inv s" and e: "e \<in> set (sv_queue s @ sv_busy s)"
  shows "core_conn_t_is_valid (sv_conns s) (ev_fd e) (ev_generation e)"
proof -
  from server_invD(3) [OF inv e] obtain c where
      "core_conn_t_get (sv_conns s) (ev_fd e) = Some c" "cn_active c" "cn_generation c = ev_generation e"
    by (auto simp: alive_def split: option.splits if_splits)
  with server_invD(1) [OF inv] show ?thesis
    by (auto simp: table_ok_def core_conn_t_is_valid_def slot_valid_def)
qed

lemma inv_take:
  assumes inv: "server_inv s"
  shows "server_inv (worker_take s)"
proof (cases "sv_queue s")
  case (Cons e es)
  let ?s1 = "s\<lparr> sv_queue := es, sv_busy := sv_busy s @ [e] \<rparr>"
  have "alive ?s1 = alive s" "owners ?s1 = owners s" "table_ok ?s1"
    using Cons server_invD(1) [OF inv] by (auto simp: alive_def owners_def fun_eq_iff table_ok_def)
  then have "server_inv ?s1"
    using server_invD(2-5) [OF inv] Cons by (auto simp: server_inv_def)
  then show ?thesis using queued_valid [OF inv, of e] Cons by (simp add: worker_take_def)
qed (simp add: worker_take_def inv)

lemma inv_finish:
  assumes inv: "server_inv s" and e: "e \<in> set (sv_busy s)" and ok: "dispatch_ok dispatch"
  shows "server_inv (worker_finish e status dispatch s)"
proof -
  let ?fd = "ev_fd e"
  obtain t where t: "cs_connections (sv_conns s) = Some t" "length t = cs_max_fd (sv_conns s)"
    using inv by (auto simp: server_inv_def table_ok_def)
  have live: "alive s ?fd = Some (ev_generation e)" using server_invD(3) [OF inv, of e] e by simp
  then obtain c where c: "core_conn_t_get (sv_conns s) ?fd = Some c" by (auto simp: alive_def split: option.splits)
  let ?s0 = "s\<lparr> sv_busy := remove1 e (sv_busy s), sv_conns := put_slot (sv_conns s) ?fd (dispatch c) \<rparr>"
  have al: "alive ?s0 = alive s"
    using ok c by (auto simp: alive_def fun_eq_iff get_put [OF t c] dispatch_ok_def)
  have tab: "table_ok ?s0"
    using server_invD(1) [OF inv] ok c t by (auto simp: table_ok_def get_put [OF t c] put_slot_table dispatch_ok_def)
  note split = of_fd_remove1 [OF e]
  have alone: "sv_epoll s ?fd = 0"
    using server_invD(2) [OF inv, of ?fd] live split [of ?fd] by (auto simp: owners_def split: if_splits)
  have own: "owners ?s0 f = (if alive s f = None \<or> f = ?fd then 0 else 1)" for f
    using server_invD(2) [OF inv, of f] live split [of f] by (auto simp: owners_def split: if_splits)
  have evs: "\<forall>e' \<in> set (sv_queue ?s0 @ sv_busy ?s0). alive ?s0 (ev_fd e') = Some (ev_generation e')"
    using server_invD(3) [OF inv] set_remove1_subset [of e "sv_busy s"] unfolding al by auto
  show ?thesis
  proof (cases "rearm_mask status")
    case (Some m)
    then have m: "m \<noteq> 0" by (auto simp: rearm_mask_def EPOLLIN_def EPOLLOUT_def split: if_splits)
    let ?s1 = "?s0\<lparr> sv_epoll := (sv_epoll s)(?fd := m) \<rparr>"
    have "owners ?s1 f = (if alive s f = None then 0 else 1)" for f
      using own [of f] m live by (cases "f = ?fd") (simp_all add: owners_def split: if_splits)
    moreover have "alive ?s1 = alive s" "table_ok ?s1" using al tab same_conns [of ?s1 ?s0] by simp_all
    moreover have fdo: "?fd \<in> sv_open s" using server_invD(4) [OF inv] live by simp
    ultimately have "server_inv ?s1" using evs al server_invD(4,5) [OF inv] by (simp add: server_inv_def)
    moreover have "worker_finish e status dispatch s = ?s1"
      using Some c fdo by (simp add: worker_finish_def core_event_loop_rearm_epoll_ex_def Let_def)
    ultimately show ?thesis by simp
  next
    case None
    let ?s1 = "?s0\<lparr> sv_active_connections := sv_active_connections s - 1 \<rparr>"
    have al1: "alive ?s1 = alive s" and tab1: "table_ok ?s1" using al tab same_conns [of ?s1 ?s0] by simp_all
    have "server_inv (snd (core_event_loop_cleanup_connection ?fd ?s1))"
    proof (rule inv_cleanup)
      show "owners ?s1 f = (if alive ?s1 f = None \<or> f = ?fd then 0 else 1)" for f
        using own [of f] unfolding al1 by (simp add: owners_def)
      show "\<forall>e' \<in> set (sv_queue ?s1 @ sv_busy ?s1). alive ?s1 (ev_fd e') = Some (ev_generation e')"
        using evs unfolding al1 al by simp
      show "f \<in> sv_open ?s1" if "f \<noteq> ?fd" "alive ?s1 f \<noteq> None" for f
        using server_invD(4) [OF inv, of f] that unfolding al1 by simp
      show "int (card {f. ((alive ?s1)(?fd := None)) f \<noteq> None}) = sv_active_connections ?s1"
        using card_alive_less [of s ?fd] live server_invD(5) [OF inv] unfolding al1 by simp
    qed (rule tab1)
    then show ?thesis using None c by (simp add: worker_finish_def Let_def)
  qed
qed

lemma inv_init: "0 < max_fd \<Longrightarrow> server_inv (server_init max_fd)"
proof -
  assume "0 < max_fd"
  moreover have "alive (server_init max_fd) fd = None" for fd
    by (auto simp: alive_def server_init_def core_conn_t_init_def core_conn_t_get_def slot_init_def split: option.splits)
  ultimately show ?thesis
    by (auto simp: server_inv_def owners_def table_ok_def server_init_def core_conn_t_init_def core_conn_t_get_def
        slot_init_def split: if_splits)
qed

theorem reachable_inv: "server_reachable max_fd s \<Longrightarrow> server_inv s"
proof (induction rule: server_reachable.induct)
  case Start
  then show ?case by (rule inv_init)
next
  case (Step s s')
  from Step.hyps(2) Step.IH show ?case
    by cases (simp_all add: inv_accept inv_event inv_take inv_finish)
qed


definition served_once :: server where
  "served_once = worker_take (core_event_loop_client_event 1 EPOLLIN 0 (core_event_loop_accept 1 True (server_init 4)))"

lemma served_once_steps: "server_reachable 4 served_once \<and> map ev_fd (sv_busy served_once) = [1]"
proof -
  let ?s1 = "core_event_loop_accept 1 True (server_init 4)"
  note table = server_init_def core_conn_t_init_def core_conn_t_activate_def core_conn_t_get_def slot_init_def
    slot_activate_def core_conn_t_clear_write_buf_def Let_def case_prod_unfold
  have r1: "server_reachable 4 ?s1"
    by (rule server_reachable.Step [OF server_reachable.Start server_step.Accept]) (simp_all add: server_init_def)
  have g: "fst (core_conn_t_activate (sv_conns (server_init 4)) 1) = 1"
    by (simp add: table upt_rec numeral_2_eq_2)
  have e1: "sv_epoll ?s1 1 = EPOLLIN"
    using g by (simp add: core_event_loop_accept_def Let_def case_prod_unfold server_init_def)
  have r2: "server_reachable 4 (core_event_loop_client_event 1 EPOLLIN 0 ?s1)"
    by (rule server_reachable.Step [OF r1 server_step.Event]) (simp_all add: e1 EPOLLIN_def EPOLLOUT_def)
  have a1: "alive ?s1 1 \<noteq> None"
    using disarmed(1) [OF reachable_inv [OF r1], of 1] e1 by (simp add: EPOLLIN_def)
  have q: "map ev_fd (sv_queue (core_event_loop_client_event 1 EPOLLIN 0 ?s1)) = [1]"
    using a1 server_invD(2) [OF reachable_inv [OF r1], of 1]
    by (auto simp: core_event_loop_client_event_def alive_def EPOLLIN_def EPOLLOUT_def EPOLLERR_def EPOLLHUP_def
        EPOLLRDHUP_def core_event_loop_accept_def server_init_def close_fd_def Let_def case_prod_unfold
        split: option.splits if_splits)
  have "sv_busy (core_event_loop_client_event 1 EPOLLIN 0 ?s1) = []"
    using a1 g by (auto simp: core_event_loop_client_event_def alive_def EPOLLIN_def EPOLLOUT_def EPOLLERR_def EPOLLHUP_def
        EPOLLRDHUP_def core_event_loop_accept_def server_init_def Let_def case_prod_unfold split: option.splits if_splits)
  then have "map ev_fd (sv_busy served_once) = [1]"
    using q queued_valid [OF reachable_inv [OF r2]]
    by (auto simp: served_once_def worker_take_def split: list.splits)
  then show ?thesis using server_reachable.Step [OF r2 server_step.Take] by (simp add: served_once_def)
qed


end
