(* ===== verification/Fcgi_Proto.thy ===== *)
theory Fcgi_Proto
  imports Http_Route
begin

text \<open>
  FastCGI records and parameters: src/fastcgi/halmos_fcgi_proto.c, the part that writes to a backend,
  and include/halmos/halmos_fcgi.h.

  The gather buffer is the list of the bytes written to it so far; its length is the offset that the
  code keeps.  The writes that are not checked against its size make the list longer than the buffer.
  Texts are shorter than \<open>2 ^ 31\<close>, so that the casts of their lengths to \<open>int\<close> keep them.
\<close>

definition GATHER_BUF_SIZE :: nat where "GATHER_BUF_SIZE = 65536"

definition FCGI_VERSION_1 :: u8 where "FCGI_VERSION_1 = 1"
definition FCGI_BEGIN_REQUEST :: u8 where "FCGI_BEGIN_REQUEST = 1"
definition FCGI_END_REQUEST :: u8 where "FCGI_END_REQUEST = 3"
definition FCGI_PARAMS :: u8 where "FCGI_PARAMS = 4"
definition FCGI_STDIN :: u8 where "FCGI_STDIN = 5"
definition FCGI_STDOUT :: u8 where "FCGI_STDOUT = 6"
definition FCGI_STDERR :: u8 where "FCGI_STDERR = 7"
definition FCGI_RESPONDER :: u8 where "FCGI_RESPONDER = 1"
definition FCGI_KEEP_CONN :: u8 where "FCGI_KEEP_CONN = 1"

lemmas fcgi_constants = FCGI_VERSION_1_def FCGI_BEGIN_REQUEST_def FCGI_END_REQUEST_def FCGI_PARAMS_def
  FCGI_STDIN_def FCGI_STDOUT_def FCGI_STDERR_def FCGI_RESPONDER_def FCGI_KEEP_CONN_def

section \<open>Records\<close>

text \<open>\<open>HalmosFCGI_Header\<close>: version, type, request, length of the content, padding, reserved.\<close>

definition fcgi_header :: "u8 \<Rightarrow> nat \<Rightarrow> nat \<Rightarrow> nat \<Rightarrow> bytes" where
  "fcgi_header type request_id clen pad =
     [FCGI_VERSION_1, type, byte_of 1 request_id, byte_of 0 request_id, byte_of 1 clen, byte_of 0 clen, byte_of 0 pad, 0]"

definition fcgi_padding :: "nat \<Rightarrow> nat" where
  "fcgi_padding n = (8 - n mod 8) mod 8"

definition begin_record :: "nat \<Rightarrow> bytes" where
  "begin_record request_id =
     fcgi_header FCGI_BEGIN_REQUEST request_id 8 0 @ [0, FCGI_RESPONDER, FCGI_KEEP_CONN, 0, 0, 0, 0, 0]"

text \<open>The connection is what the pool answered.\<close>

definition fcgi_proto_begin_request :: "int \<Rightarrow> nat \<Rightarrow> bytes \<Rightarrow> int \<times> bytes" where
  "fcgi_proto_begin_request fpm_sock request_id gather_buf =
     (if fpm_sock = -1 then (-1, gather_buf) else (fpm_sock, gather_buf @ begin_record request_id))"

section \<open>Parameters\<close>

text \<open>A length takes one byte up to 127 and four from 128 on, the first with its top bit set.\<close>

definition fcgi_length :: "nat \<Rightarrow> bytes" where
  "fcgi_length n = (if 127 < n then [byte_of 3 n OR 0x80, byte_of 2 n, byte_of 1 n, byte_of 0 n] else [byte_of 0 n])"

definition fcgi_pair :: "string \<Rightarrow> string \<Rightarrow> bytes" where
  "fcgi_pair name val = fcgi_length (length name) @ fcgi_length (length val) @ bytes_of name @ bytes_of val"

definition fcgi_proto_add_pair :: "nat \<Rightarrow> string option \<Rightarrow> string option \<Rightarrow> bytes \<Rightarrow> bytes" where
  "fcgi_proto_add_pair max_len name val dest =
     (case name of
        None \<Rightarrow> dest
      | Some n \<Rightarrow>
          let pair = fcgi_pair n (case val of Some v \<Rightarrow> v | None \<Rightarrow> [])
          in if max_len < length dest + length pair then dest else dest @ pair)"

fun add_param :: "string \<times> string option \<Rightarrow> bytes \<Rightarrow> bytes" where
  "add_param (key, None) buf = buf"
| "add_param (key, Some v) buf = fcgi_proto_add_pair GATHER_BUF_SIZE (Some key) (Some v) buf"

text \<open>The path of the script: the URI up to the query, and up to the extra path when there is one.\<close>

definition script_name :: "RequestHeader \<Rightarrow> string" where
  "script_name req =
     (let raw = (case rh_uri req of Some u \<Rightarrow> u | None \<Rightarrow> ''/'');
          s = takeWhile (\<lambda>c. c \<noteq> CHR ''?'') (c_copy 512 raw)
      in case rh_path_info req of
           None \<Rightarrow> s
         | Some p \<Rightarrow>
             if p = [] then s
             else (case c_strstr s p of
                     Some rest \<Rightarrow> if length rest < length s then take (length s - length rest) s else s
                   | None \<Rightarrow> s))"

text \<open>The root of a document is not empty here: of an empty one the code reads the byte before it.\<close>

definition full_script_path :: "string \<Rightarrow> string \<Rightarrow> string" where
  "full_script_path root script =
     c_copy 4096 (root @ (if root \<noteq> [] \<and> last root = CHR ''/'' \<and> script \<noteq> [] \<and> hd script = CHR ''/''
                          then tl script else script))"

definition fcgi_params :: "Config \<Rightarrow> VHostEntry option \<Rightarrow> RequestHeader \<Rightarrow> nat \<Rightarrow> (string \<times> string option) list" where
  "fcgi_params cfg vh req content_length =
     (let root = (case vh of Some v \<Rightarrow> vh_root v | None \<Rightarrow> cf_document_root cfg);
          script = script_name req
      in [(''DOCUMENT_ROOT'', Some root),
          (''SCRIPT_FILENAME'', Some (full_script_path root script)),
          (''SCRIPT_NAME'', Some script),
          (''PHP_SELF'', Some script),
          (''REQUEST_URI'', rh_uri req),
          (''REQUEST_METHOD'', Some (rh_method req)),
          (''QUERY_STRING'', Some (case rh_query_string req of Some q \<Rightarrow> q | None \<Rightarrow> [])),
          (''PATH_INFO'', Some (case rh_path_info req of Some p \<Rightarrow> p | None \<Rightarrow> [])),
          (''SERVER_PROTOCOL'', Some ''HTTP/1.1''),
          (''GATEWAY_INTERFACE'', Some ''CGI/1.1''),
          (''REMOTE_ADDR'', Some (rh_client_ip req)),
          (''SERVER_NAME'', Some (case rh_host req of Some h \<Rightarrow> h | None \<Rightarrow> cf_server_name cfg))]
       @ (if rh_is_tls req then [(''HTTPS'', Some ''on''), (''REQUEST_SCHEME'', Some ''https'')]
          else [(''REQUEST_SCHEME'', Some ''http'')])
       @ [(''SERVER_PORT'', Some (c_copy 10 (dec_int (cf_server_port cfg)))), (''HTTP_COOKIE'', rh_cookie_data req)]
       @ (if 0 < content_length then
            [(''CONTENT_LENGTH'', Some (dec_nat content_length)),
             (''CONTENT_TYPE'', Some (case rh_content_type req of Some t \<Rightarrow> t | None \<Rightarrow> ''application/x-www-form-urlencoded''))]
          else []))"

text \<open>
  The parameters follow the place of their header; padding and the empty record that ends them are
  written without a look at the size.
\<close>

definition fcgi_proto_build_params :: "Config \<Rightarrow> RequestHeader \<Rightarrow> nat \<Rightarrow> nat \<Rightarrow> bytes \<Rightarrow> VHostEntry list \<times> bytes" where
  "fcgi_proto_build_params cfg req content_length request_id gather_buf =
     (let (vh, vhosts) = http_vhost_get_context (rh_host req) (cf_vhosts cfg);
          start = length gather_buf + 8;
          buf = fold add_param (fcgi_params cfg (map_option ((!) vhosts) vh) req content_length) (gather_buf @ replicate 8 0);
          params = drop start buf;
          pad = fcgi_padding (length params)
      in (vhosts, gather_buf @ fcgi_header FCGI_PARAMS request_id (length params) pad @ params @ replicate pad 0
                  @ fcgi_header FCGI_PARAMS request_id 0 0))"

section \<open>The body\<close>

text \<open>\<open>safe_send_all\<close>: what went out, and the result, None while the socket does not take the rest.\<close>

fun safe_send_all :: "send_result list \<Rightarrow> bytes \<Rightarrow> bytes \<times> int option \<times> send_result list" where
  "safe_send_all rs [] = ([], Some 0, rs)"
| "safe_send_all [] b = ([], None, [])"
| "safe_send_all (Sent n # rs) b = (let (out, r) = safe_send_all rs (drop n b) in (take n b @ out, r))"
| "safe_send_all (SendAgain # rs) b = safe_send_all rs b"
| "safe_send_all (SendFail # rs) b = ([], Some (- 1), rs)"

definition stdin_record :: "nat \<Rightarrow> bytes \<Rightarrow> bytes" where
  "stdin_record request_id chunk =
     (let pad = fcgi_padding (length chunk)
      in fcgi_header FCGI_STDIN request_id (length chunk) pad @ chunk @ replicate pad 0)"

definition stdin_end :: "nat \<Rightarrow> bytes" where
  "stdin_end request_id = fcgi_header FCGI_STDIN request_id 0 0"

text \<open>The records of a body in chunks; None where a record is still waiting for the socket.\<close>

function send_stdin_chunks :: "send_result list \<Rightarrow> nat \<Rightarrow> bytes \<Rightarrow> bytes \<times> int option \<times> send_result list" where
  "send_stdin_chunks rs request_id d =
     (if d = [] then ([], Some 0, rs)
      else case safe_send_all rs (stdin_record request_id (take 32768 d)) of
        (out, Some r, rs') \<Rightarrow>
          if r < 0 then (out, Some r, rs')
          else (case send_stdin_chunks rs' request_id (drop 32768 d) of (out', r') \<Rightarrow> (out @ out', r'))
      | (out, None, rs') \<Rightarrow> (out, None, rs'))"
  by pat_completeness auto
termination by (relation "measure (\<lambda>(_, _, d). length d)") auto

declare send_stdin_chunks.simps [simp del]

definition fcgi_proto_send_stdin :: "send_result list \<Rightarrow> nat \<Rightarrow> bytes option \<Rightarrow> bytes" where
  "fcgi_proto_send_stdin rs request_id data =
     (case send_stdin_chunks rs request_id (case data of Some d \<Rightarrow> d | None \<Rightarrow> []) of
        (out, Some r, rs') \<Rightarrow> if r < 0 then out else out @ fst (safe_send_all rs' (stdin_end request_id))
      | (out, None, rs') \<Rightarrow> out)"

section \<open>What a backend reads\<close>

text \<open>
  The FastCGI specification from the reader's side: records of a stream, whole ones only, and
  name-value pairs of their content.
\<close>

record fcgi_record =
  fr_type :: u8
  fr_id :: nat
  fr_content :: bytes

function fcgi_records :: "bytes \<Rightarrow> fcgi_record list option" where
  "fcgi_records b =
     (if b = [] then Some []
      else if length b < 8 \<or> b ! 0 \<noteq> 1 then None
      else let clen = be16 (b ! 4) (b ! 5); total = 8 + clen + unat (b ! 6)
           in if length b < total then None
              else map_option (Cons \<lparr> fr_type = b ! 1, fr_id = be16 (b ! 2) (b ! 3), fr_content = take clen (drop 8 b) \<rparr>)
                     (fcgi_records (drop total b)))"
  by pat_completeness auto
termination by (relation "measure length") auto

declare fcgi_records.simps [simp del]

fun read_length :: "bytes \<Rightarrow> (nat \<times> bytes) option" where
  "read_length (a # b) =
     (if a AND 0x80 = 0 then Some (unat a, b)
      else case b of c # d # e # rest \<Rightarrow> Some (be32 (a AND 0x7F) c d e, rest) | _ \<Rightarrow> None)"
| "read_length [] = None"

lemma read_length_shorter: "read_length b = Some (n, rest) \<Longrightarrow> length rest < length b"
  by (cases b) (auto split: if_splits list.splits)

function fcgi_pairs :: "bytes \<Rightarrow> (string \<times> string) list option" where
  "fcgi_pairs b =
     (if b = [] then Some []
      else case read_length b of
        None \<Rightarrow> None
      | Some (n, b1) \<Rightarrow>
          (case read_length b1 of
             None \<Rightarrow> None
           | Some (v, b2) \<Rightarrow>
               if length b2 < n + v then None
               else map_option (Cons (text_of (take n b2), text_of (take v (drop n b2)))) (fcgi_pairs (drop (n + v) b2))))"
  by pat_completeness auto
termination by (relation "measure length") (auto dest!: read_length_shorter)

declare fcgi_pairs.simps [simp del]

text \<open>A record that is written is read back, whatever follows it.\<close>

lemma fcgi_padding_less: "fcgi_padding n < 8"
  by (simp add: fcgi_padding_def)

lemma length_fcgi_header [simp]: "length (fcgi_header t i c p) = 8"
  by (simp add: fcgi_header_def)

lemma fcgi_records_Nil [simp]: "fcgi_records [] = Some []"
  by (simp add: fcgi_records.simps)

lemma fcgi_records_record:
  assumes "length c < 65536" and "pad < 256" and "i < 65536"
  shows "fcgi_records (fcgi_header t i (length c) pad @ c @ replicate pad 0 @ rest)
       = map_option (Cons \<lparr> fr_type = t, fr_id = i, fr_content = c \<rparr>) (fcgi_records rest)"
proof -
  let ?b = "fcgi_header t i (length c) pad @ c @ replicate pad 0 @ rest"
  have fields: "?b ! 0 = 1" "?b ! Suc 0 = t" "fcgi_header t i n pad \<noteq> []" "be16 (?b ! 2) (?b ! 3) = i" "be16 (?b ! 4) (?b ! 5) = length c"
      "unat (?b ! 6) = pad"
    for n using assms by (simp_all add: fcgi_header_def FCGI_VERSION_1_def nth_append be16_byte_of)
  have "drop 8 ?b = c @ replicate pad 0 @ rest" by simp
  then have "take (length c) (drop 8 ?b) = c" "drop (8 + length c + pad) ?b = rest" by simp_all
  then show ?thesis by (subst fcgi_records.simps) (simp add: fields Let_def del: take_append drop_append)
qed

lemma fcgi_records_incomplete:
  assumes "clen < 65536" and "pad < 256" and "length rest < clen + pad"
  shows "fcgi_records (fcgi_header t i clen pad @ rest) = None"
proof -
  let ?b = "fcgi_header t i clen pad @ rest"
  have "?b ! 0 = 1" "be16 (?b ! 4) (?b ! 5) = clen" "unat (?b ! 6) = pad" "?b \<noteq> []" "length ?b = 8 + length rest"
    using assms by (simp_all add: fcgi_header_def FCGI_VERSION_1_def nth_append be16_byte_of)
  then show ?thesis using assms(3) by (subst fcgi_records.simps) (simp add: Let_def del: length_append)
qed

text \<open>The same for pairs.\<close>

lemma read_fcgi_length:
  assumes "n < 2 ^ 31"
  shows "read_length (fcgi_length n @ rest) = Some (n, rest)"
proof (cases "127 < n")
  case True
  define m where "m = n div 16777216 mod 256"
  have m: "m < 128" using assms by (simp add: m_def)
  then have top: "byte_of 3 n OR 0x80 = (word_of_nat (128 + m) :: u8)"
    using u8_or_128 [OF m] by (simp add: byte_of_def m_def)
  have "(word_of_nat (128 + m) :: u8) AND 0x80 \<noteq> 0" "(word_of_nat (128 + m) :: u8) AND 0x7F = byte_of 3 n"
    using m u8_and_128 [of "128 + m"] u8_and_127 [of "128 + m"] by (simp_all add: byte_of_def m_def)
  then show ?thesis
    using True assms by (simp add: fcgi_length_def top be32_byte_of del: of_nat_add)
next
  case False
  then have "byte_of 0 n = (word_of_nat n :: u8)" by (simp add: byte_of_def)
  then show ?thesis
    using False u8_and_128 [of n] by (simp add: fcgi_length_def unat_of_nat)
qed

lemma fcgi_pairs_Nil [simp]: "fcgi_pairs [] = Some []"
  by (simp add: fcgi_pairs.simps)

lemma fcgi_pairs_pair:
  assumes "length n < 2 ^ 31" and "length v < 2 ^ 31"
  shows "fcgi_pairs (fcgi_pair n v @ rest) = map_option (Cons (n, v)) (fcgi_pairs rest)"
proof -
  have "fcgi_pair n v @ rest \<noteq> []" by (simp add: fcgi_pair_def fcgi_length_def)
  then show ?thesis
    using assms by (subst fcgi_pairs.simps) (simp add: fcgi_pair_def read_fcgi_length)
qed

lemma fcgi_pairs_concat:
  "(\<And>k v. (k, v) \<in> set ps \<Longrightarrow> length k < 2 ^ 31 \<and> length v < 2 ^ 31) \<Longrightarrow>
     fcgi_pairs (concat (map (\<lambda>(k, v). fcgi_pair k v) ps)) = Some ps"
proof (induction ps)
  case (Cons p ps)
  obtain k v where p: "p = (k, v)" by force
  have "fcgi_pairs (concat (map (\<lambda>(k, v). fcgi_pair k v) ps)) = Some ps"
    using Cons by auto
  then show ?case using Cons.prems [of k v] by (simp add: p fcgi_pairs_pair)
qed simp

section \<open>The parameters that fit\<close>

fun kept_params :: "nat \<Rightarrow> (string \<times> string option) list \<Rightarrow> (string \<times> string) list" where
  "kept_params room [] = []"
| "kept_params room ((k, None) # ps) = kept_params room ps"
| "kept_params room ((k, Some v) # ps) =
     (if length (fcgi_pair k v) \<le> room then (k, v) # kept_params (room - length (fcgi_pair k v)) ps
      else kept_params room ps)"

definition kept_bytes :: "nat \<Rightarrow> (string \<times> string option) list \<Rightarrow> bytes" where
  "kept_bytes room ps = concat (map (\<lambda>(k, v). fcgi_pair k v) (kept_params room ps))"

lemma kept_bytes_simps [simp]:
  "kept_bytes room [] = []" "kept_bytes room ((k, None) # ps) = kept_bytes room ps"
  "kept_bytes room ((k, Some v) # ps) =
     (if length (fcgi_pair k v) \<le> room then fcgi_pair k v @ kept_bytes (room - length (fcgi_pair k v)) ps
      else kept_bytes room ps)"
  by (simp_all add: kept_bytes_def)

lemma fold_add_param:
  "length buf \<le> GATHER_BUF_SIZE \<Longrightarrow> fold add_param ps buf = buf @ kept_bytes (GATHER_BUF_SIZE - length buf) ps"
proof (induction ps arbitrary: buf)
  case (Cons p ps)
  obtain k v where p: "p = (k, v)" by force
  show ?case
  proof (cases v)
    case None
    then show ?thesis using Cons by (simp add: p)
  next
    case (Some w)
    then show ?thesis
      using Cons.IH [of buf] Cons.IH [of "buf @ fcgi_pair k w"] Cons.prems
      by (auto simp: p fcgi_proto_add_pair_def Let_def)
  qed
qed simp

lemma length_kept_bytes: "length (kept_bytes room ps) \<le> room"
  by (induction room ps rule: kept_params.induct) auto

lemma kept_params_short: "(k, v) \<in> set (kept_params room ps) \<Longrightarrow> length k \<le> room \<and> length v \<le> room"
  by (induction room ps rule: kept_params.induct) (auto simp: fcgi_pair_def split: if_splits)

lemma kept_bytes_pairs: "room < 2 ^ 31 \<Longrightarrow> fcgi_pairs (kept_bytes room ps) = Some (kept_params room ps)"
  unfolding kept_bytes_def by (rule fcgi_pairs_concat) (use kept_params_short le_less_trans in blast)

definition request_vhost :: "Config \<Rightarrow> RequestHeader \<Rightarrow> VHostEntry option" where
  "request_vhost cfg req =
     (case http_vhost_get_context (rh_host req) (cf_vhosts cfg) of (i, vhosts) \<Rightarrow> map_option ((!) vhosts) i)"

lemma length_begin_record [simp]: "length (begin_record i) = 16"
  by (simp add: begin_record_def)

text \<open>What is written after the record that begins the request.\<close>

lemma build_params_bytes:
  fixes cfg req n i
  defines "c \<equiv> kept_bytes (GATHER_BUF_SIZE - 24) (fcgi_params cfg (request_vhost cfg req) req n)"
  shows "snd (fcgi_proto_build_params cfg req n i (begin_record i)) =
    begin_record i @ fcgi_header FCGI_PARAMS i (length c) (fcgi_padding (length c)) @ c
      @ replicate (fcgi_padding (length c)) 0 @ fcgi_header FCGI_PARAMS i 0 0"
  by (simp add: fcgi_proto_build_params_def c_def fold_add_param GATHER_BUF_SIZE_def request_vhost_def
      Let_def case_prod_unfold)

lemma begin_record_reads:
  assumes "i < 65536"
  shows "fcgi_records (begin_record i @ rest)
     = map_option (Cons \<lparr> fr_type = FCGI_BEGIN_REQUEST, fr_id = i, fr_content = [0, 1, 1, 0, 0, 0, 0, 0] \<rparr>) (fcgi_records rest)"
proof -
  have len: "length [0 :: u8, 1, 1, 0, 0, 0, 0, 0] = 8" by simp
  show ?thesis
    using fcgi_records_record [of "[0, 1, 1, 0, 0, 0, 0, 0]" 0 i FCGI_BEGIN_REQUEST rest] assms unfolding len
    by (simp add: begin_record_def FCGI_RESPONDER_def FCGI_KEEP_CONN_def)
qed

lemma empty_record_reads:
  "i < 65536 \<Longrightarrow> fcgi_records (fcgi_header t i 0 0 @ rest)
     = map_option (Cons \<lparr> fr_type = t, fr_id = i, fr_content = [] \<rparr>) (fcgi_records rest)"
  using fcgi_records_record [of "[]" 0 i t rest] by simp

lemma build_params_reads:
  assumes "i < 65536"
  shows "\<exists>c. (\<forall>rest. fcgi_records (snd (fcgi_proto_build_params cfg req n i (begin_record i)) @ rest) =
      map_option (append [\<lparr> fr_type = FCGI_BEGIN_REQUEST, fr_id = i, fr_content = [0, 1, 1, 0, 0, 0, 0, 0] \<rparr>,
              \<lparr> fr_type = FCGI_PARAMS, fr_id = i, fr_content = c \<rparr>,
              \<lparr> fr_type = FCGI_PARAMS, fr_id = i, fr_content = [] \<rparr>]) (fcgi_records rest))
    \<and> fcgi_pairs c = Some (kept_params (GATHER_BUF_SIZE - 24) (fcgi_params cfg (request_vhost cfg req) req n))"
proof -
  define c where "c = kept_bytes (GATHER_BUF_SIZE - 24) (fcgi_params cfg (request_vhost cfg req) req n)"
  have len: "length c < 65536"
    unfolding c_def by (rule le_less_trans [OF length_kept_bytes]) (simp add: GATHER_BUF_SIZE_def)
  have pad: "fcgi_padding (length c) < 256" using fcgi_padding_less [of "length c"] by simp
  have "fcgi_pairs c = Some (kept_params (GATHER_BUF_SIZE - 24) (fcgi_params cfg (request_vhost cfg req) req n))"
    unfolding c_def by (rule kept_bytes_pairs) (simp add: GATHER_BUF_SIZE_def)
  moreover have "fcgi_records (snd (fcgi_proto_build_params cfg req n i (begin_record i)) @ rest) =
      map_option (append [\<lparr> fr_type = FCGI_BEGIN_REQUEST, fr_id = i, fr_content = [0, 1, 1, 0, 0, 0, 0, 0] \<rparr>,
              \<lparr> fr_type = FCGI_PARAMS, fr_id = i, fr_content = c \<rparr>,
              \<lparr> fr_type = FCGI_PARAMS, fr_id = i, fr_content = [] \<rparr>]) (fcgi_records rest)" for rest
    using assms
    by (simp add: build_params_bytes c_def [symmetric] begin_record_reads fcgi_records_record [OF len pad]
        empty_record_reads option.map_comp comp_def) (simp add: fun_eq_iff cong: option.map_cong)
  ultimately show ?thesis by blast
qed

section \<open>The gather buffer\<close>

lemma padded_le: "n \<le> 8 * k \<Longrightarrow> n + fcgi_padding n \<le> 8 * k"
proof -
  assume n: "n \<le> 8 * k"
  obtain q r where qr: "n = 8 * q + r" "r < 8" by (metis mult_div_mod_eq mod_less_divisor zero_less_numeral)
  have "r \<noteq> 0 \<Longrightarrow> Suc q \<le> k" using n qr by linarith
  then have up: "r \<noteq> 0 \<Longrightarrow> 8 * q + 8 \<le> 8 * k" by simp
  show ?thesis using n qr up by (cases "r = 0") (simp_all add: fcgi_padding_def)
qed

lemma length_build_params:
  "length (snd (fcgi_proto_build_params cfg req n i (begin_record i))) =
     (let plen = length (kept_bytes 65512 (fcgi_params cfg (request_vhost cfg req) req n)) in 32 + plen + fcgi_padding plen)"
  by (simp add: build_params_bytes GATHER_BUF_SIZE_def Let_def)

definition large_cookie :: RequestHeader where
  "large_cookie = empty_request\<lparr> rh_cookie_data := Some (replicate 65286 CHR ''a'') \<rparr>"

lemma kept_bytes_append:
  "kept_bytes room (ps @ qs) = kept_bytes room ps @ kept_bytes (room - length (kept_bytes room ps)) qs"
  by (induction room ps rule: kept_params.induct) simp_all

lemma large_cookie_params:
  "length (kept_bytes 65512 (fcgi_params empty_config (request_vhost empty_config large_cookie) large_cookie 0)) = 65512"
proof -
  let ?ps = "butlast (fcgi_params empty_config None empty_request 0)"
  have "request_vhost empty_config large_cookie = None"
    by (simp add: request_vhost_def large_cookie_def empty_request_def http_vhost_get_context_def)
  moreover have "fcgi_params empty_config None large_cookie 0 = ?ps @ [(''HTTP_COOKIE'', Some (replicate 65286 CHR ''a''))]"
    by (simp add: fcgi_params_def large_cookie_def empty_request_def script_name_def Let_def)
  moreover have "length (kept_bytes 65512 ?ps) = 210"
    by (simp add: fcgi_params_def empty_request_def script_name_def full_script_path_def empty_config_def c_copy_def
        fcgi_pair_def fcgi_length_def dec_int_def dec_nat.simps Let_def)
  moreover have "length (fcgi_pair ''HTTP_COOKIE'' (replicate 65286 CHR ''a'')) = 65302"
    by (simp add: fcgi_pair_def fcgi_length_def)
  ultimately show ?thesis by (simp add: kept_bytes_append)
qed

text \<open>The gather buffer is overrun: padding and the record that ends the parameters are written without
  a look at its size, so that at most eight bytes go past its end, and a request with a long cookie
  makes it eight.\<close>

theorem fcgi_params_overflow:
  "(\<forall>cfg req n i. length (snd (fcgi_proto_build_params cfg req n i (begin_record i))) \<le> GATHER_BUF_SIZE + 8)
   \<and> length (snd (fcgi_proto_build_params empty_config large_cookie 0 1 (begin_record 1))) = GATHER_BUF_SIZE + 8"
proof -
  have "plen + fcgi_padding plen \<le> 65512" if "plen \<le> 65512" for plen
    using padded_le [of plen 8189] that by simp
  then show ?thesis
    using length_kept_bytes [of 65512] large_cookie_params
    by (simp add: length_build_params Let_def GATHER_BUF_SIZE_def fcgi_padding_def)
qed

end
