(* ===== verification/Fcgi_Response.thy ===== *)
theory Fcgi_Response
  imports Fcgi_Proto
begin

text \<open>
  The answer of a backend on its way to an HTTP/1 client: \<open>fcgi_io_splice_response\<close> and
  \<open>fcgi_smart_response\<close> of src/fastcgi/halmos_fcgi_proto.c.

  The backend is the bytes that have arrived when the program asks for them: the sockets of the pool
  are non-blocking (halmos_fcgi_pool.c sets \<open>O_NONBLOCK\<close> on them), so a read that finds too few bytes
  fails at once, whatever \<open>SO_RCVTIMEO\<close> says.  The client is what its socket answers to each call,
  with everything taken when the list is used up.  A call on a TLS connection or a splice goes on until
  everything is out or there is an error, a plain \<open>send\<close> is called once and what it does not take is
  lost.
\<close>

section \<open>The two sockets\<close>

datatype client_result = Took nat | Refused nat

record relay =
  rl_backend :: bytes
  rl_client :: "client_result list"
  rl_out :: bytes

definition recv_all :: "nat \<Rightarrow> relay \<Rightarrow> bytes option \<times> relay" where
  "recv_all n r =
     (if length (rl_backend r) < n then (None, r\<lparr> rl_backend := [] \<rparr>)
      else (Some (take n (rl_backend r)), r\<lparr> rl_backend := drop n (rl_backend r) \<rparr>))"

definition fcgi_smart_response :: "bool \<Rightarrow> bytes \<Rightarrow> relay \<Rightarrow> bool \<times> relay" where
  "fcgi_smart_response is_tls b r =
     (case rl_client r of
        [] \<Rightarrow> (True, r\<lparr> rl_out := rl_out r @ b \<rparr>)
      | Took n # cs \<Rightarrow> (True, r\<lparr> rl_client := cs, rl_out := rl_out r @ (if is_tls then b else take n b) \<rparr>)
      | Refused n # cs \<Rightarrow> (False, r\<lparr> rl_client := cs, rl_out := rl_out r @ (if is_tls then take n b else []) \<rparr>))"

section \<open>Chunks\<close>

definition crlf :: bytes where "crlf = [0x0D, 0x0A]"

definition hex_upper :: "nat \<Rightarrow> char" where
  "hex_upper d = char_of (if d < 10 then 48 + d else 55 + d)"

fun hex_nat :: "nat \<Rightarrow> string" where
  "hex_nat n = (if n < 16 then [hex_upper n] else hex_nat (n div 16) @ [hex_upper (n mod 16)])"

declare hex_nat.simps [simp del]

definition chunk_size :: "nat \<Rightarrow> bytes" where
  "chunk_size n = bytes_of (hex_nat n) @ crlf"

text \<open>A chunk whose three writes are not checked.\<close>

definition send_chunk :: "bool \<Rightarrow> bytes \<Rightarrow> relay \<Rightarrow> relay" where
  "send_chunk is_tls b r =
     snd (fcgi_smart_response is_tls crlf (snd (fcgi_smart_response is_tls b
       (snd (fcgi_smart_response is_tls (chunk_size (length b)) r)))))"

text \<open>What is left of the record with the header, piece by piece; and what a redirect throws away.\<close>

function relay_rest :: "bool \<Rightarrow> nat \<Rightarrow> relay \<Rightarrow> bool \<times> relay" where
  "relay_rest is_tls remain r =
     (if remain = 0 then (True, r)
      else let pull = min remain 16384
           in case recv_all pull r of
                (None, r') \<Rightarrow> (False, r')
              | (Some d, r') \<Rightarrow> relay_rest is_tls (remain - pull) (send_chunk is_tls d r'))"
  by pat_completeness auto
termination by (relation "measure (\<lambda>(_, n, _). n)") auto

declare relay_rest.simps [simp del]

function drain_rest :: "nat \<Rightarrow> relay \<Rightarrow> relay" where
  "drain_rest remain r =
     (if remain = 0 then r
      else let pull = min remain 16384
           in case recv_all pull r of
                (None, r') \<Rightarrow> r'
              | (Some d, r') \<Rightarrow> drain_rest (remain - pull) r')"
  by pat_completeness auto
termination by (relation "measure (\<lambda>(n, _). n)") auto

declare drain_rest.simps [simp del]

text \<open>The content of a later record: piece by piece, or spliced from socket to socket.\<close>

function relay_pieces :: "bool \<Rightarrow> nat \<Rightarrow> relay \<Rightarrow> bool \<times> relay" where
  "relay_pieces is_tls to_pull r =
     (if to_pull = 0 then (True, r)
      else let pull = min to_pull 16384
           in case recv_all pull r of
                (None, r') \<Rightarrow> (False, r')
              | (Some d, r') \<Rightarrow>
                  (case fcgi_smart_response is_tls d r' of
                     (False, r'') \<Rightarrow> (False, r'')
                   | (True, r'') \<Rightarrow> relay_pieces is_tls (to_pull - pull) r''))"
  by pat_completeness auto
termination by (relation "measure (\<lambda>(_, n, _). n)") auto

declare relay_pieces.simps [simp del]

definition splice_content :: "nat \<Rightarrow> relay \<Rightarrow> bool \<times> relay" where
  "splice_content clen r =
     (let moved = take clen (rl_backend r); r' = r\<lparr> rl_backend := drop clen (rl_backend r) \<rparr>
      in case fcgi_smart_response True moved r' of
           (ok, r'') \<Rightarrow> (ok \<and> length moved = clen, r''))"

section \<open>The header\<close>

text \<open>Status and redirection are looked for in the whole buffer, whatever of the body is in it too.\<close>

definition response_status :: "string \<Rightarrow> int" where
  "response_status header_buffer =
     (case c_strcasestr header_buffer ''Status:'' of
        Some s \<Rightarrow> c_int (c_strtol10 (drop 8 s))
      | None \<Rightarrow> if c_strcasestr header_buffer ''Location:'' \<noteq> None then 302 else 200)"

definition is_redirect :: "int \<Rightarrow> bool" where
  "is_redirect status_code \<longleftrightarrow> 300 \<le> status_code \<and> status_code < 400"

definition NL :: string where "NL = [CHR 0x0D, CHR 0x0A]"

definition response_start :: "string \<Rightarrow> bool \<Rightarrow> string" where
  "response_start header_buffer is_keep_alive =
     (let status_code = response_status header_buffer
      in ''HTTP/1.1 '' @ dec_int status_code @ '' '' @ get_status_text status_code @ NL @ ''Server: Halmos'' @ NL
         @ (if is_redirect status_code
            then (if c_strcasestr header_buffer ''Content-Length:'' \<noteq> None then [] else ''Content-Length: 0'' @ NL)
            else ''Transfer-Encoding: chunked'' @ NL)
         @ ''Connection: '' @ (if is_keep_alive then ''keep-alive'' else ''close'') @ NL)"

section \<open>The loop\<close>

text \<open>A turn of the loop; a call that fails ends it with the poisoned connection.\<close>

datatype relay_turn = Next bytes bool relay | Finished int relay

fun and_then :: "bool \<times> relay \<Rightarrow> (relay \<Rightarrow> relay_turn) \<Rightarrow> relay_turn" where
  "and_then (False, r) k = Finished (- 2) r"
| "and_then (True, r) k = k r"

fun got_then :: "bytes option \<times> relay \<Rightarrow> (bytes \<Rightarrow> relay \<Rightarrow> relay_turn) \<Rightarrow> relay_turn" where
  "got_then (None, r) k = Finished (- 2) r"
| "got_then (Some d, r) k = k d r"

definition relay_padding :: "nat \<Rightarrow> bytes \<Rightarrow> bool \<Rightarrow> relay \<Rightarrow> relay_turn" where
  "relay_padding plen header_buffer header_sent r =
     got_then (recv_all plen r) (\<lambda>_. Next header_buffer header_sent)"

text \<open>The end of the header has been seen: the start of the answer, the header and the body so far.\<close>

definition relay_start :: "bool \<Rightarrow> bool \<Rightarrow> bytes \<Rightarrow> nat \<Rightarrow> nat \<Rightarrow> nat \<Rightarrow> nat \<Rightarrow> relay \<Rightarrow> relay_turn" where
  "relay_start is_tls is_keep_alive buf h_only_len clen remain plen r1 =
     (let s = cstr (text_of buf)
      in and_then (fcgi_smart_response is_tls (bytes_of (response_start s is_keep_alive)) r1) (\<lambda>r2.
         and_then (fcgi_smart_response is_tls (take h_only_len buf) r2) (\<lambda>r3.
           if is_redirect (response_status s) then Finished 0 (drain_rest (clen - length buf) r3)
           else and_then (relay_rest is_tls remain
                    (if h_only_len < length buf then send_chunk is_tls (drop h_only_len buf) r3 else r3))
                  (relay_padding plen buf True))))"

text \<open>Content while the end of the header has not been seen; 8191 bytes of it are kept at most.\<close>

definition relay_header :: "bool \<Rightarrow> bool \<Rightarrow> bytes \<Rightarrow> nat \<Rightarrow> nat \<Rightarrow> relay \<Rightarrow> relay_turn" where
  "relay_header is_tls is_keep_alive header_buffer clen plen r =
     (let to_read = min clen (8192 - length header_buffer - 1)
      in got_then (recv_all to_read r) (\<lambda>d r1.
           let buf = header_buffer @ d; s = cstr (text_of buf)
           in case c_strstr s (NL @ NL) of
                None \<Rightarrow> relay_padding plen buf False r1
              | Some delim \<Rightarrow>
                  relay_start is_tls is_keep_alive buf (length s - length delim + 4) clen (clen - to_read) plen r1))"

definition relay_content :: "bool \<Rightarrow> bool \<Rightarrow> bytes \<Rightarrow> nat \<Rightarrow> nat \<Rightarrow> relay \<Rightarrow> relay_turn" where
  "relay_content is_tls use_splice header_buffer clen plen r =
     and_then (fcgi_smart_response is_tls (chunk_size clen) r) (\<lambda>r1.
       and_then (if use_splice then splice_content clen r1 else relay_pieces is_tls clen r1) (\<lambda>r2.
         relay_padding plen header_buffer True (snd (fcgi_smart_response is_tls crlf r2))))"

definition relay_record ::
  "bool \<Rightarrow> bool \<Rightarrow> bool \<Rightarrow> bytes \<Rightarrow> bool \<Rightarrow> u8 \<Rightarrow> nat \<Rightarrow> nat \<Rightarrow> relay \<Rightarrow> relay_turn" where
  "relay_record is_tls use_splice is_keep_alive header_buffer header_sent type clen plen r =
     (if type = FCGI_STDOUT then
        (if 0 < clen then
           (if \<not> header_sent then relay_header is_tls is_keep_alive header_buffer clen plen r
            else relay_content is_tls use_splice header_buffer clen plen r)
         else relay_padding plen header_buffer header_sent r)
      else if type = FCGI_STDERR \<and> 0 < clen then
        got_then (recv_all clen r) (\<lambda>_. relay_padding plen header_buffer header_sent)
      else if type = FCGI_END_REQUEST then
        got_then (recv_all 8 r) (\<lambda>_ r'.
          Finished 0 (if header_sent then snd (fcgi_smart_response is_tls (bytes_of (''0'' @ NL @ NL)) r') else r'))
      else relay_padding plen header_buffer header_sent r)"

text \<open>Every turn takes at least the eight bytes of a record header from the backend.\<close>

definition shrinks :: "nat \<Rightarrow> relay_turn \<Rightarrow> bool" where
  "shrinks n t \<longleftrightarrow> (\<forall>hb sent r. t = Next hb sent r \<longrightarrow> length (rl_backend r) \<le> n)"

lemma shrinks_and_then:
  assumes "length (rl_backend (snd x)) \<le> n" and "\<And>r. length (rl_backend r) \<le> n \<Longrightarrow> shrinks n (k r)"
  shows "shrinks n (and_then x k)"
  using assms by (cases x; cases "fst x") (auto simp: shrinks_def)

lemma shrinks_got_then:
  assumes "length (rl_backend (snd x)) \<le> n" and "\<And>d r. length (rl_backend r) \<le> n \<Longrightarrow> shrinks n (k d r)"
  shows "shrinks n (got_then x k)"
  using assms by (cases x; cases "fst x") (auto simp: shrinks_def)

lemma recv_all_shrinks: "length (rl_backend (snd (recv_all n r))) \<le> length (rl_backend r)"
  by (simp add: recv_all_def)

lemma smart_response_backend [simp]: "rl_backend (snd (fcgi_smart_response t b r)) = rl_backend r"
  by (simp add: fcgi_smart_response_def split: list.splits client_result.splits)

lemma send_chunk_backend [simp]: "rl_backend (send_chunk t b r) = rl_backend r"
  by (simp add: send_chunk_def)

lemma relay_rest_shrinks: "length (rl_backend (snd (relay_rest t n r))) \<le> length (rl_backend r)"
proof (induction t n r rule: relay_rest.induct)
  case (1 t n r)
  show ?case
    using 1 recv_all_shrinks [of "min n 16384" r]
    by (subst relay_rest.simps) (fastforce simp: Let_def split: prod.splits option.splits)
qed

lemma relay_pieces_shrinks: "length (rl_backend (snd (relay_pieces t n r))) \<le> length (rl_backend r)"
proof (induction t n r rule: relay_pieces.induct)
  case (1 t n r)
  obtain d r' where recv: "recv_all (min n 16384) r = (d, r')" by force
  have r': "length (rl_backend r') \<le> length (rl_backend r)" using recv_all_shrinks [of "min n 16384" r] recv by simp
  show ?case
  proof (cases "n = 0 \<or> d = None")
    case True
    then show ?thesis using recv r' by (subst relay_pieces.simps) (auto simp: Let_def)
  next
    case False
    then obtain b where d: "d = Some b" "n \<noteq> 0" by blast
    obtain ok r'' where send: "fcgi_smart_response t b r' = (ok, r'')" by force
    then have "rl_backend r'' = rl_backend r'" using smart_response_backend [of t b r'] by simp
    then show ?thesis
      using 1 [OF d(2) refl recv [symmetric] d(1) send [symmetric]] d recv send r'
      by (subst relay_pieces.simps) (auto simp: Let_def split: bool.splits)
  qed
qed

lemma splice_content_shrinks: "length (rl_backend (snd (splice_content n r))) \<le> length (rl_backend r)"
  using smart_response_backend [of True "take n (rl_backend r)" "r\<lparr> rl_backend := drop n (rl_backend r) \<rparr>"]
  by (simp add: splice_content_def Let_def case_prod_unfold)

lemma relay_padding_shrinks: "length (rl_backend r) \<le> n \<Longrightarrow> shrinks n (relay_padding plen hb sent r)"
  unfolding relay_padding_def
  by (rule shrinks_got_then) (auto intro: order_trans [OF recv_all_shrinks] simp: shrinks_def)

lemma relay_start_shrinks:
  "length (rl_backend r) \<le> n \<Longrightarrow> shrinks n (relay_start t k buf h clen remain plen r)"
  unfolding relay_start_def Let_def
  by (intro shrinks_and_then)
    (auto intro!: shrinks_and_then relay_padding_shrinks intro: order_trans [OF relay_rest_shrinks] simp: shrinks_def [of _ "Finished _ _"])

lemma relay_header_shrinks: "length (rl_backend r) \<le> n \<Longrightarrow> shrinks n (relay_header t k hb clen plen r)"
  unfolding relay_header_def Let_def
  by (rule shrinks_got_then)
    (auto intro: order_trans [OF recv_all_shrinks] relay_padding_shrinks relay_start_shrinks split: option.splits)

lemma relay_content_shrinks: "length (rl_backend r) \<le> n \<Longrightarrow> shrinks n (relay_content t u hb clen plen r)"
  unfolding relay_content_def
  by (intro shrinks_and_then relay_padding_shrinks)
    (auto intro: order_trans [OF splice_content_shrinks] order_trans [OF relay_pieces_shrinks])

lemma relay_record_shrinks: "length (rl_backend r) \<le> n \<Longrightarrow> shrinks n (relay_record t u k hb sent type clen plen r)"
  unfolding relay_record_def
  by (auto intro!: relay_header_shrinks relay_content_shrinks relay_padding_shrinks shrinks_got_then
      intro: order_trans [OF recv_all_shrinks] simp: shrinks_def [of _ "Finished _ _"])

function relay_loop :: "bool \<Rightarrow> bool \<Rightarrow> bool \<Rightarrow> bytes \<Rightarrow> bool \<Rightarrow> relay \<Rightarrow> int \<times> relay" where
  "relay_loop is_tls use_splice is_keep_alive header_buffer header_sent r =
     (case recv_all 8 r of
        (None, r') \<Rightarrow> (- 2, r')
      | (Some h, r') \<Rightarrow>
          (case relay_record is_tls use_splice is_keep_alive header_buffer header_sent (h ! 1) (be16 (h ! 4) (h ! 5))
                  (unat (h ! 6)) r' of
             Finished status r'' \<Rightarrow> (status, r'')
           | Next hb sent r'' \<Rightarrow> relay_loop is_tls use_splice is_keep_alive hb sent r''))"
  by pat_completeness auto
termination
proof (relation "measure (\<lambda>(_, _, _, _, _, r). length (rl_backend r))")
  fix t u k hb sent r opt r' h hb' sent' r''
  assume 1: "(opt, r') = recv_all 8 r" "opt = Some h"
    "relay_record t u k hb sent (h ! 1) (be16 (h ! 4) (h ! 5)) (unat (h ! 6)) r' = Next hb' sent' r''"
  then have "length (rl_backend r') < length (rl_backend r)"
    by (auto simp: recv_all_def split: if_splits)
  moreover have "length (rl_backend r'') \<le> length (rl_backend r')"
    using relay_record_shrinks [OF order_refl, of r' t u k hb sent "h ! 1" "be16 (h ! 4) (h ! 5)" "unat (h ! 6)"] 1
    by (simp add: shrinks_def)
  ultimately show "((t, u, k, hb', sent', r''), (t, u, k, hb, sent, r))
      \<in> measure (\<lambda>(_, _, _, _, _, r). length (rl_backend r))" by simp
qed simp

declare relay_loop.simps [simp del]

definition fcgi_io_splice_response :: "bool \<Rightarrow> RequestHeader \<Rightarrow> relay \<Rightarrow> int \<times> relay" where
  "fcgi_io_splice_response pipe_ok req r =
     relay_loop (rh_is_tls req) (\<not> rh_is_tls req \<and> pipe_ok) (rh_is_keep_alive req) [] False r"

section \<open>What the client reads\<close>

text \<open>A chunked body as RFC 9112 has it: its data, and what follows it.\<close>

definition byte_xdigit :: "u8 \<Rightarrow> bool" where
  "byte_xdigit b \<longleftrightarrow> c_isxdigit (char_of (unat b))"

definition hex_value :: "string \<Rightarrow> nat" where
  "hex_value = foldl (\<lambda>n c. 16 * n + hex_val c) 0"

function dechunk :: "bytes \<Rightarrow> (bytes \<times> bytes) option" where
  "dechunk b =
     (let ds = takeWhile byte_xdigit b; n = hex_value (text_of ds); b1 = drop (length ds) b; b2 = drop 2 b1
      in if ds = [] \<or> take 2 b1 \<noteq> crlf then None
         else if n = 0 then (if take 2 b2 = crlf then Some ([], drop 2 b2) else None)
         else if take 2 (drop n b2) \<noteq> crlf then None
         else map_option (map_prod ((@) (take n b2)) id) (dechunk (drop (n + 2) b2)))"
  by pat_completeness auto
termination
  by (relation "measure length") (auto simp: takeWhile_eq_Nil_iff length_greater_0_conv [symmetric] simp del: length_greater_0_conv)

declare dechunk.simps [simp del]

definition carries :: "bytes \<Rightarrow> bytes \<Rightarrow> bool" where
  "carries w d \<longleftrightarrow> (\<forall>tail. dechunk (w @ tail) = map_option (map_prod ((@) d) id) (dechunk tail))"

definition enc_chunk :: "bytes \<Rightarrow> bytes" where
  "enc_chunk d = chunk_size (length d) @ d @ crlf"

lemma carries_Nil: "carries [] []"
proof -
  have "map_option (map_prod ((@) []) id) x = x" for x :: "(bytes \<times> bytes) option" by (cases x) auto
  then show ?thesis by (simp add: carries_def)
qed

lemma carries_append: "carries w d \<Longrightarrow> carries w' d' \<Longrightarrow> carries (w @ w') (d @ d')"
proof -
  have "map_option (map_prod ((@) d) id) (map_option (map_prod ((@) d') id) x) = map_option (map_prod ((@) (d @ d')) id) x"
    for x :: "(bytes \<times> bytes) option" by (cases x) auto
  then show "carries w d \<Longrightarrow> carries w' d' \<Longrightarrow> carries (w @ w') (d @ d')" by (simp add: carries_def)
qed

lemma hex_upper_digit: "d < 16 \<Longrightarrow> c_isxdigit (hex_upper d) \<and> hex_val (hex_upper d) = d"
  by (simp add: hex_upper_def c_isxdigit_def hex_val_def c_val_def Let_def)

lemma hex_nat_digits: "list_all c_isxdigit (hex_nat n) \<and> hex_nat n \<noteq> [] \<and> hex_value (hex_nat n) = n"
proof (induction n rule: hex_nat.induct)
  case (1 n)
  show ?case
  proof (cases "n < 16")
    case True
    then show ?thesis using hex_upper_digit [of n] by (subst (1 2 3) hex_nat.simps) (simp add: hex_value_def)
  next
    case False
    have "16 * (n div 16) + n mod 16 = n" by simp
    then show ?thesis
      using 1 [OF False] hex_upper_digit [of "n mod 16"] False
      by (subst (1 2 3) hex_nat.simps) (simp add: hex_value_def)
  qed
qed

lemma takeWhile_xdigits:
  "list_all c_isxdigit s \<Longrightarrow> takeWhile byte_xdigit (bytes_of s @ 0x0D # t) = bytes_of s"
proof -
  assume "list_all c_isxdigit s"
  then have "\<And>b. b \<in> set (bytes_of s) \<Longrightarrow> byte_xdigit b"
    by (auto simp: bytes_of_def byte_xdigit_def list_all_iff unat_of_nat)
  moreover have "\<not> byte_xdigit 0x0D" by (simp add: byte_xdigit_def c_isxdigit_def c_val_def)
  ultimately show ?thesis by (simp add: takeWhile_append2)
qed

lemma dechunk_size:
  "dechunk (chunk_size n @ t) =
     (if n = 0 then (if take 2 t = crlf then Some ([], drop 2 t) else None)
      else if take 2 (drop n t) \<noteq> crlf then None
      else map_option (map_prod ((@) (take n t)) id) (dechunk (drop (n + 2) t)))"
proof -
  obtain b where b: "b = chunk_size n @ t" by simp
  obtain ds where ds: "ds = bytes_of (hex_nat n)" by simp
  have "takeWhile byte_xdigit b = ds"
    using takeWhile_xdigits [of "hex_nat n" "0x0A # t"] hex_nat_digits [of n] by (simp add: b ds chunk_size_def crlf_def)
  moreover have "drop (length ds) b = crlf @ t" by (simp add: b ds chunk_size_def)
  moreover have "length ds \<noteq> 0" "length crlf = 2" "hex_value (text_of ds) = n"
    using hex_nat_digits [of n] by (simp_all add: ds crlf_def)
  ultimately show ?thesis
    unfolding b [symmetric] by (subst dechunk.simps) (simp add: Let_def del: drop_drop)
qed

lemma carries_chunk: "d \<noteq> [] \<Longrightarrow> carries (enc_chunk d) d"
  by (simp add: carries_def enc_chunk_def dechunk_size) (simp add: crlf_def)

lemma dechunk_end: "dechunk (bytes_of (''0'' @ NL @ NL) @ tail) = Some ([], tail)"
  using dechunk_size [of 0 "crlf @ tail"]
  by (simp add: chunk_size_def hex_nat.simps hex_upper_def NL_def crlf_def bytes_of_def)

section \<open>A client that takes everything\<close>

abbreviation taking :: "bytes \<Rightarrow> bytes \<Rightarrow> relay" where
  "taking b out \<equiv> \<lparr> rl_backend = b, rl_client = [], rl_out = out \<rparr>"

lemma smart_all [simp]: "fcgi_smart_response t b (taking bk out) = (True, taking bk (out @ b))"
  by (simp add: fcgi_smart_response_def)

lemma send_chunk_all [simp]: "send_chunk t b (taking bk out) = taking bk (out @ enc_chunk b)"
  by (simp add: send_chunk_def enc_chunk_def)

lemma recv_all_here: "length b = n \<Longrightarrow> recv_all n (taking (b @ rest) out) = (Some b, taking rest out)"
  by (simp add: recv_all_def)

lemma recv_all_piece:
  "recv_all (min (length c) n) (taking (c @ rest) out) = (Some (take n c), taking (drop n c @ rest) out)"
  by (simp add: recv_all_def min_def)

lemma relay_pieces_all: "relay_pieces t (length c) (taking (c @ rest) out) = (True, taking rest (out @ c))"
proof (induction "length c" arbitrary: c out rule: less_induct)
  case less
  show ?case
  proof (cases "c = []")
    case False
    then have "relay_pieces t (length (drop 16384 c)) (taking (drop 16384 c @ rest) (out @ take 16384 c))
        = (True, taking rest ((out @ take 16384 c) @ drop 16384 c))"
      by (intro less.hyps) auto
    moreover have "length c - min (length c) 16384 = length c - 16384" by simp
    ultimately show ?thesis
      using False by (subst relay_pieces.simps) (simp add: Let_def recv_all_piece)
  qed (simp add: relay_pieces.simps)
qed

lemma relay_rest_all:
  "\<exists>w. carries w c \<and> relay_rest t (length c) (taking (c @ rest) out) = (True, taking rest (out @ w))"
proof (induction "length c" arbitrary: c out rule: less_induct)
  case less
  show ?case
  proof (cases "c = []")
    case True
    then show ?thesis by (intro exI [of _ "[]"]) (simp add: relay_rest.simps carries_Nil)
  next
    case False
    let ?o = "out @ enc_chunk (take 16384 c)"
    obtain w where w: "carries w (drop 16384 c)"
        "relay_rest t (length (drop 16384 c)) (taking (drop 16384 c @ rest) ?o) = (True, taking rest (?o @ w))"
      using less.hyps [of "drop 16384 c" ?o] False by auto
    have "carries (enc_chunk (take 16384 c)) (take 16384 c)" using False by (intro carries_chunk) simp
    from carries_append [OF this w(1)] have car: "carries (enc_chunk (take 16384 c) @ w) c" by simp
    have "length c - min (length c) 16384 = length c - 16384" by simp
    then have "relay_rest t (length c) (taking (c @ rest) out) = (True, taking rest (out @ enc_chunk (take 16384 c) @ w))"
      using False w(2) by (subst relay_rest.simps) (simp add: Let_def recv_all_piece)
    with car show ?thesis by blast
  qed
qed

lemma splice_content_all: "splice_content (length c) (taking (c @ rest) out) = (True, taking rest (out @ c))"
  by (simp add: splice_content_def Let_def)

lemma relay_padding_all: "relay_padding (length p) hb sent (taking (p @ rest) out) = Next hb sent (taking rest out)"
  by (simp add: relay_padding_def recv_all_here)

lemma relay_content_all:
  "relay_content t u hb (length c) (length p) (taking (c @ p @ rest) out)
     = Next hb True (taking rest (out @ enc_chunk c))"
  by (simp add: relay_content_def relay_pieces_all splice_content_all relay_padding_all enc_chunk_def)

section \<open>What a backend sends\<close>

text \<open>A record with its type, content and padding; the output of the script in a list of records.\<close>

type_synonym sent_record = "u8 \<times> bytes \<times> bytes"

fun sent_bytes :: "sent_record \<Rightarrow> bytes" where
  "sent_bytes (t, c, p) = fcgi_header t 1 (length c) (length p) @ c @ p"

fun sent_ok :: "sent_record \<Rightarrow> bool" where
  "sent_ok (t, c, p) \<longleftrightarrow> t \<in> {FCGI_STDOUT, FCGI_STDERR} \<and> c \<noteq> [] \<and> length c < 65536 \<and> length p < 256"

definition script_output :: "sent_record list \<Rightarrow> bytes" where
  "script_output rs = concat (map (fst \<circ> snd) (filter (\<lambda>r. fst r = FCGI_STDOUT) rs))"

lemma relay_loop_record:
  assumes "length c < 65536" and "length p < 256"
  shows "relay_loop t u k hb sent (taking (fcgi_header ty i (length c) (length p) @ rest) out) =
    (case relay_record t u k hb sent ty (length c) (length p) (taking rest out) of
       Finished status r \<Rightarrow> (status, r)
     | Next hb sent r \<Rightarrow> relay_loop t u k hb sent r)"
  using assms
  by (subst relay_loop.simps)
    (simp add: recv_all_here, simp add: fcgi_header_def be16_byte_of)

lemma relay_body_all:
  assumes "\<forall>r \<in> set rs. sent_ok r"
  shows "\<exists>w. carries w (script_output rs) \<and>
    relay_loop t u k hb True (taking (concat (map sent_bytes rs) @ rest) out) = relay_loop t u k hb True (taking rest (out @ w))"
  using assms
proof (induction rs arbitrary: out)
  case Nil
  then show ?case by (intro exI [of _ "[]"]) (simp add: script_output_def carries_Nil)
next
  case (Cons r rs)
  obtain ty c p where r: "r = (ty, c, p)" by (cases r)
  with Cons.prems have ok: "ty \<in> {FCGI_STDOUT, FCGI_STDERR}" "c \<noteq> []" "length c < 65536" "length p < 256"
    by auto
  let ?w = "if ty = FCGI_STDOUT then enc_chunk c else []"
  obtain w where w: "carries w (script_output rs)"
      "relay_loop t u k hb True (taking (concat (map sent_bytes rs) @ rest) (out @ ?w)) = relay_loop t u k hb True (taking rest ((out @ ?w) @ w))"
    using Cons.IH [of "out @ ?w"] Cons.prems by auto
  have turn: "relay_record t u k hb True ty (length c) (length p) (taking (c @ p @ bk) out) = Next hb True (taking bk (out @ ?w))" for bk
    using ok(1,2) by (auto simp: relay_record_def relay_content_all recv_all_here relay_padding_all fcgi_constants)
  have "carries (?w @ w) (script_output (r # rs))"
    using carries_append [OF carries_chunk w(1), of c] ok w(1) by (auto simp: script_output_def r)
  moreover have "relay_loop t u k hb True (taking (concat (map sent_bytes (r # rs)) @ rest) out)
      = relay_loop t u k hb True (taking rest (out @ ?w @ w))"
    using w(2) by (simp add: r relay_loop_record [OF ok(3,4)] turn)
  ultimately show ?case by blast
qed

section \<open>The first record\<close>

text \<open>A header that is complete in the first record: no NUL, the empty line at its end only, and short enough.\<close>

definition head_ok :: "string \<Rightarrow> bool" where
  "head_ok hdr \<longleftrightarrow> CHR 0x00 \<notin> set hdr \<and> c_strstr hdr (NL @ NL) = Some (NL @ NL) \<and> length hdr \<le> 8191"

text \<open>What the buffer holds as a text when the first record is read.\<close>

definition seen_text :: "string \<Rightarrow> bytes \<Rightarrow> string" where
  "seen_text hdr body = hdr @ cstr (text_of (take (8191 - length hdr) body))"

lemma relay_header_first:
  assumes "head_ok hdr"
  shows "relay_header t k [] (length (bytes_of hdr @ body)) plen (taking ((bytes_of hdr @ body) @ rest) out) =
    relay_start t k (bytes_of hdr @ take (8191 - length hdr) body) (length hdr) (length (bytes_of hdr @ body))
      (length (drop (8191 - length hdr) body)) plen (taking (drop (8191 - length hdr) body @ rest) out)"
proof -
  let ?b = "take (8191 - length hdr) body"
  from assms have len: "length hdr \<le> 8191" by (simp add: head_ok_def)
  obtain h where h: "hdr = h @ NL @ NL"
    using assms memmem_suffix [of hdr "NL @ NL" "NL @ NL"] by (auto simp: head_ok_def c_strstr_memmem)
  have seen: "cstr (text_of (bytes_of hdr @ ?b)) = seen_text hdr body"
    using assms by (simp add: seen_text_def cstr_append head_ok_def)
  have "c_strstr (seen_text hdr body) (NL @ NL) = Some (NL @ NL @ cstr (text_of ?b))"
    using assms memmem_extend [of h "NL @ NL"] by (simp add: seen_text_def h head_ok_def c_strstr_memmem)
  moreover have "length (seen_text hdr body) - length (NL @ NL @ cstr (text_of ?b)) + 4 = length hdr"
    by (simp add: seen_text_def h NL_def)
  moreover have "recv_all (min (length (bytes_of hdr @ body)) 8191) (taking ((bytes_of hdr @ body) @ rest) out)
      = (Some (bytes_of hdr @ ?b), taking (drop (8191 - length hdr) body @ rest) out)"
    using recv_all_piece [of "bytes_of hdr @ body" 8191 rest out] len by simp
  moreover have "length (bytes_of hdr @ body) - min (length (bytes_of hdr @ body)) 8191 = length (drop (8191 - length hdr) body)"
    using len by simp
  ultimately show ?thesis
    by (simp add: relay_header_def Let_def seen [simplified] del: length_append)
qed

lemma relay_start_all:
  assumes "head_ok hdr" and "\<not> is_redirect (response_status (seen_text hdr body))"
  shows "\<exists>w. carries w body \<and>
    relay_start t k (bytes_of hdr @ take (8191 - length hdr) body) (length hdr) n
      (length (drop (8191 - length hdr) body)) (length p) (taking (drop (8191 - length hdr) body @ p @ rest) out) =
    Next (bytes_of hdr @ take (8191 - length hdr) body) True
      (taking rest (out @ bytes_of (response_start (seen_text hdr body) k @ hdr) @ w))"
proof -
  let ?b1 = "take (8191 - length hdr) body" and ?b2 = "drop (8191 - length hdr) body"
  have seen: "cstr (text_of (bytes_of hdr @ ?b1)) = seen_text hdr body"
    using assms by (simp add: seen_text_def cstr_append head_ok_def)
  let ?o = "out @ bytes_of (response_start (seen_text hdr body) k) @ bytes_of hdr"
  let ?w1 = "if ?b1 = [] then [] else enc_chunk ?b1"
  obtain w2 where w2: "carries w2 ?b2" "relay_rest t (length ?b2) (taking (?b2 @ p @ rest) (?o @ ?w1)) = (True, taking (p @ rest) ((?o @ ?w1) @ w2))"
    using relay_rest_all [of ?b2 t "p @ rest" "?o @ ?w1"] by blast
  have "carries ?w1 ?b1" using carries_chunk [of ?b1] carries_Nil by (auto simp del: take_eq_Nil)
  from carries_append [OF this w2(1)] have "carries (?w1 @ w2) body" by simp
  moreover have "relay_start t k (bytes_of hdr @ ?b1) (length hdr) n (length ?b2) (length p) (taking (?b2 @ p @ rest) out) =
      Next (bytes_of hdr @ ?b1) True (taking rest (out @ bytes_of (response_start (seen_text hdr body) k @ hdr) @ ?w1 @ w2))"
    using w2(2) assms(2) unfolding relay_start_def Let_def seen
    by (auto simp: relay_padding_all bytes_of_def simp del: length_drop)
  ultimately show ?thesis by blast
qed

lemma drain_rest_all: "drain_rest (length c) (taking (c @ rest) out) = taking rest out"
proof (induction "length c" arbitrary: c rule: less_induct)
  case less
  show ?case
  proof (cases "c = []")
    case False
    then have "drain_rest (length (drop 16384 c)) (taking (drop 16384 c @ rest) out) = taking rest out"
      by (intro less.hyps) auto
    moreover have "length c - min (length c) 16384 = length c - 16384" by simp
    ultimately show ?thesis using False by (subst drain_rest.simps) (simp add: Let_def recv_all_piece)
  qed (simp add: drain_rest.simps)
qed

lemma relay_start_redirect:
  assumes "head_ok hdr" and "is_redirect (response_status (seen_text hdr body))"
  shows "relay_start t k (bytes_of hdr @ take (8191 - length hdr) body) (length hdr) (length (bytes_of hdr @ body)) m
      plen (taking (drop (8191 - length hdr) body @ rest) out) =
    Finished 0 (taking rest (out @ bytes_of (response_start (seen_text hdr body) k @ hdr)))"
proof -
  let ?b1 = "take (8191 - length hdr) body" and ?b2 = "drop (8191 - length hdr) body"
  have seen: "cstr (text_of (bytes_of hdr @ ?b1)) = seen_text hdr body"
    using assms by (simp add: seen_text_def cstr_append head_ok_def)
  have "length (bytes_of hdr @ body) - length (bytes_of hdr @ ?b1) = length ?b2" by simp
  then show ?thesis
    using assms(2) unfolding relay_start_def Let_def seen
    by (simp add: drain_rest_all bytes_of_def del: length_append length_drop)
qed

lemma relay_loop_first:
  assumes "head_ok hdr" and "length (bytes_of hdr @ body) < 65536" and "length p < 256"
  shows "relay_loop t u k [] False (taking (sent_bytes (FCGI_STDOUT, bytes_of hdr @ body, p) @ rest) out) =
    (case relay_start t k (bytes_of hdr @ take (8191 - length hdr) body) (length hdr) (length (bytes_of hdr @ body))
        (length (drop (8191 - length hdr) body)) (length p) (taking (drop (8191 - length hdr) body @ p @ rest) out) of
       Finished status r \<Rightarrow> (status, r)
     | Next hb sent r \<Rightarrow> relay_loop t u k hb sent r)"
proof -
  have "hdr \<noteq> []" using assms(1) by (auto simp: head_ok_def c_strstr.simps NL_def)
  then show ?thesis
    using relay_loop_record [OF assms(2,3), of t u k "[]" False FCGI_STDOUT 1 "(bytes_of hdr @ body) @ p @ rest" out]
      relay_header_first [OF assms(1), of t k body "length p" "p @ rest" out]
    by (simp add: relay_record_def)
qed

section \<open>Properties\<close>


definition small_head :: string where "small_head = ''A'' @ NL @ NL"

lemma small_head_ok: "head_ok small_head"
  by code_simp

lemma length_small_head [simp]: "length small_head = 5"
  by (simp add: small_head_def NL_def)

lemma empty_request_alive [simp]: "rh_is_keep_alive empty_request = False" "rh_is_tls empty_request = False"
  by (simp_all add: empty_request_def)


text \<open>A redirection leaves the connection to the backend in the middle of the answer: the relay reports
  success after the content of the record with the header, so that the padding, the remaining output and
  the end of the request stay to be read by the request that is given the connection next; and the
  redirection is recognised in the whole buffer, so that a page whose text has a Location in it is one.\<close>

theorem fcgi_redirect_abandons_records:
  assumes "head_ok hdr" and "is_redirect (response_status (seen_text hdr body))"
    and "length (bytes_of hdr @ body) < 65536" and "length p < 256"
  shows "fcgi_io_splice_response pipe_ok req (taking (sent_bytes (FCGI_STDOUT, bytes_of hdr @ body, p) @ rest) out) =
      (0, taking (p @ rest) (out @ bytes_of (response_start (seen_text hdr body) (rh_is_keep_alive req) @ hdr)))"
  unfolding fcgi_io_splice_response_def relay_loop_first [OF assms(1,3,4)]
  by (simp add: relay_start_redirect [OF assms(1,2), of _ _ _ _ "p @ rest", simplified])

theorem fcgi_redirect_abandons_records_witness:
  "fcgi_io_splice_response True empty_request
     (taking (sent_bytes (FCGI_STDOUT, bytes_of small_head @ bytes_of ''Location:'', []) @ [1, 3]) []) =
   (0, taking [1, 3] ([] @ bytes_of (response_start (seen_text small_head (bytes_of ''Location:'')) False @ small_head)))"
proof -
  have "seen_text small_head (bytes_of ''Location:'') = small_head @ ''Location:''"
    by (simp add: seen_text_def cstr_def)
  moreover have "is_redirect (response_status (small_head @ ''Location:''))" by code_simp
  ultimately have "is_redirect (response_status (seen_text small_head (bytes_of ''Location:'')))" by simp
  from fcgi_redirect_abandons_records [OF small_head_ok this, of "[]" True empty_request "[1, 3]" "[]"]
  show ?thesis by (simp del: sent_bytes.simps append_Cons append_Nil)
qed

end
