(* ===== verification/Fcgi_Pool.thy ===== *)
theory Fcgi_Pool
  imports Http_Config
begin

text \<open>
  The pool of connections to FastCGI backends: src/fastcgi/halmos_fcgi_pool.c.

  Each critical section of the pool's mutex is one definition, so that a history of them is an
  interleaving of any number of workers.  What the kernel says of a socket (\<open>poll\<close>, \<open>getsockopt\<close> and
  \<open>recv\<close>) and the socket that \<open>create_backend_socket\<close> connects are arguments; the sockets a section
  closes are part of its result.
\<close>

section \<open>Data\<close>

record HalmosFCGI_Conn =
  fc_sockfd :: int
  fc_target_port :: int
  fc_target_path :: string
  fc_is_unix :: bool
  fc_in_use :: bool

record HalmosFCGI_Pool =
  fp_connections :: "HalmosFCGI_Conn list"
  fp_active_counts :: "nat \<Rightarrow> int"
  fp_next_idx :: "nat \<Rightarrow> int"
  fp_quota :: "nat \<Rightarrow> int"

text \<open>
  The quotas of the three backends are set by the planning of the capacity.  The memory of the slots is
  not cleared; target and kind are read of slots that were taken since.
\<close>

definition fcgi_pool_init :: "nat \<Rightarrow> HalmosFCGI_Pool \<Rightarrow> HalmosFCGI_Pool" where
  "fcgi_pool_init pool_size p =
     p\<lparr> fp_connections := replicate pool_size
          \<lparr> fc_sockfd = -1, fc_target_port = 0, fc_target_path = [], fc_is_unix = False, fc_in_use = False \<rparr>,
        fp_active_counts := (\<lambda>_. 0), fp_next_idx := (\<lambda>_. 0) \<rparr>"

definition fcgi_pool_destroy :: "HalmosFCGI_Pool \<Rightarrow> int list \<times> HalmosFCGI_Pool" where
  "fcgi_pool_destroy p =
     (filter (\<lambda>fd. fd \<noteq> -1) (map fc_sockfd (fp_connections p)), p\<lparr> fp_connections := [] \<rparr>)"

section \<open>Which backend\<close>

text \<open>A group is recognised by an address when there is one, and by the port otherwise.\<close>

definition group_has :: "BackendGroup \<Rightarrow> string option \<Rightarrow> int \<Rightarrow> bool" where
  "group_has g target port =
     (case target of
        Some t \<Rightarrow> t \<in> set (take (bg_node_count g) (bg_ips g))
      | None \<Rightarrow> port \<in> set (take (bg_node_count g) (bg_ports g)))"

definition get_backend_index :: "Config \<Rightarrow> string option \<Rightarrow> int \<Rightarrow> nat" where
  "get_backend_index cfg target port =
     (if group_has (cf_php cfg) target port then 0
      else if group_has (cf_rust cfg) target port then 1
      else if group_has (cf_python cfg) target port then 2
      else 0)"

section \<open>Acquiring\<close>

definition is_unix_port :: "int \<Rightarrow> bool" where
  "is_unix_port port \<longleftrightarrow> port = 0 \<or> port = -1"

definition belongs :: "string \<Rightarrow> int \<Rightarrow> HalmosFCGI_Conn \<Rightarrow> bool" where
  "belongs target port c =
     (if is_unix_port port then fc_is_unix c \<and> fc_target_path c = target
      else \<not> fc_is_unix c \<and> fc_target_port c = port)"

text \<open>The search for an idle connection; those that the backend has closed are given up on the way.\<close>

fun reuse_scan ::
  "(int \<Rightarrow> bool) \<Rightarrow> string \<Rightarrow> int \<Rightarrow> HalmosFCGI_Conn list \<Rightarrow> int option \<times> int list \<times> HalmosFCGI_Conn list" where
  "reuse_scan quiet target port [] = (None, [], [])"
| "reuse_scan quiet target port (c # cs) =
     (if fc_sockfd c \<noteq> -1 \<and> \<not> fc_in_use c \<and> belongs target port c then
        (if quiet (fc_sockfd c) then (Some (fc_sockfd c), [], c\<lparr> fc_in_use := True \<rparr> # cs)
         else case reuse_scan quiet target port cs of
                (found, closed, cs') \<Rightarrow> (found, fc_sockfd c # closed, c\<lparr> fc_sockfd := -1 \<rparr> # cs'))
      else case reuse_scan quiet target port cs of (found, closed, cs') \<Rightarrow> (found, closed, c # cs'))"

definition add_active :: "nat \<Rightarrow> int \<Rightarrow> HalmosFCGI_Pool \<Rightarrow> HalmosFCGI_Pool" where
  "add_active idx d p = p\<lparr> fp_active_counts := (fp_active_counts p)(idx := fp_active_counts p idx + d) \<rparr>"

definition acquire_reuse ::
  "Config \<Rightarrow> (int \<Rightarrow> bool) \<Rightarrow> string \<Rightarrow> int \<Rightarrow> HalmosFCGI_Pool \<Rightarrow> int \<times> int list \<times> HalmosFCGI_Pool" where
  "acquire_reuse cfg quiet target port p =
     (let idx = get_backend_index cfg (Some target) port
      in if fp_active_counts p idx < fp_quota p idx then
           (case reuse_scan quiet target port (fp_connections p) of
              (None, closed, cs) \<Rightarrow> (-1, closed, p\<lparr> fp_connections := cs \<rparr>)
            | (Some fd, closed, cs) \<Rightarrow> (fd, closed, add_active idx 1 (p\<lparr> fp_connections := cs \<rparr>)))
         else (-1, [], p))"

text \<open>A new connection takes the first empty slot; without one, or over the quota, it stays out of the pool.\<close>

fun store_scan :: "int \<Rightarrow> string \<Rightarrow> int \<Rightarrow> HalmosFCGI_Conn list \<Rightarrow> HalmosFCGI_Conn list option" where
  "store_scan fd target port [] = None"
| "store_scan fd target port (c # cs) =
     (if fc_sockfd c = -1 then
        Some (c\<lparr> fc_sockfd := fd, fc_in_use := True, fc_is_unix := is_unix_port port, fc_target_port := port,
                 fc_target_path := (if is_unix_port port then c_copy 108 target else fc_target_path c) \<rparr> # cs)
      else map_option ((#) c) (store_scan fd target port cs))"

definition acquire_store :: "Config \<Rightarrow> int \<Rightarrow> string \<Rightarrow> int \<Rightarrow> HalmosFCGI_Pool \<Rightarrow> HalmosFCGI_Pool" where
  "acquire_store cfg final_sock target port p =
     (let idx = get_backend_index cfg (Some target) port
      in if fp_active_counts p idx < fp_quota p idx then
           (case store_scan final_sock target port (fp_connections p) of
              Some cs \<Rightarrow> add_active idx 1 (p\<lparr> fp_connections := cs \<rparr>)
            | None \<Rightarrow> p)
         else p)"

definition fcgi_pool_conn_acquire ::
  "Config \<Rightarrow> (int \<Rightarrow> bool) \<Rightarrow> int \<Rightarrow> string \<Rightarrow> int \<Rightarrow> HalmosFCGI_Pool \<Rightarrow> int \<times> int list \<times> HalmosFCGI_Pool" where
  "fcgi_pool_conn_acquire cfg quiet created target port p =
     (case acquire_reuse cfg quiet target port p of
        (final_sock, closed, p') \<Rightarrow>
          if final_sock = -1 then
            (created, closed, (if created = -1 then p' else acquire_store cfg created target port p'))
          else (final_sock, closed, p'))"

text \<open>
  A new socket, local or TCP: descriptor or -1, and what was closed on the way.  A connection that is not
  made yet counts.
\<close>

datatype connect_result = Connected | InProgress | Refusing

definition create_backend_socket :: "int \<Rightarrow> bool \<Rightarrow> connect_result \<Rightarrow> int \<times> int list" where
  "create_backend_socket sock fcntl_ok res =
     (if sock < 0 then (-1, [])
      else if \<not> fcntl_ok \<or> res = Refusing then (-1, [sock])
      else (sock, []))"

section \<open>Releasing\<close>

fun slot_of :: "int \<Rightarrow> HalmosFCGI_Conn list \<Rightarrow> nat option" where
  "slot_of fd [] = None"
| "slot_of fd (c # cs) = (if fc_sockfd c = fd then Some 0 else map_option Suc (slot_of fd cs))"

definition fcgi_pool_conn_release :: "Config \<Rightarrow> bool \<Rightarrow> int \<Rightarrow> HalmosFCGI_Pool \<Rightarrow> int list \<times> HalmosFCGI_Pool" where
  "fcgi_pool_conn_release cfg healthy sockfd p =
     (if sockfd < 0 then ([], p)
      else case slot_of sockfd (fp_connections p) of
        None \<Rightarrow> ([sockfd], p)
      | Some i \<Rightarrow>
          let c = fp_connections p ! i;
              idx = get_backend_index cfg (if fc_is_unix c then Some (fc_target_path c) else None) (fc_target_port c);
              c' = (if healthy then c\<lparr> fc_in_use := False \<rparr> else c\<lparr> fc_sockfd := -1, fc_in_use := False \<rparr>)
          in ((if healthy then [] else [sockfd]),
              add_active idx (- 1) (p\<lparr> fp_connections := (fp_connections p)[i := c'] \<rparr>)))"

section \<open>Who has a connection\<close>

text \<open>
  The pool together with the sockets that workers hold and those that are open.  The sections of the
  workers come in any order: the search, the storing of a socket that was just connected (or that the
  pool has no room for), and the release of a socket that is held.
\<close>

record pool_world =
  pw_pool :: HalmosFCGI_Pool
  pw_held :: "int set"
  pw_open :: "int set"

definition world_reuse :: "Config \<Rightarrow> (int \<Rightarrow> bool) \<Rightarrow> string \<Rightarrow> int \<Rightarrow> pool_world \<Rightarrow> int \<times> pool_world" where
  "world_reuse cfg quiet target port w =
     (case acquire_reuse cfg quiet target port (pw_pool w) of
        (fd, closed, p) \<Rightarrow>
          (fd, \<lparr> pw_pool = p, pw_held = (if fd = -1 then pw_held w else insert fd (pw_held w)),
                 pw_open = pw_open w - set closed \<rparr>))"

definition world_store :: "Config \<Rightarrow> int \<Rightarrow> string \<Rightarrow> int \<Rightarrow> pool_world \<Rightarrow> pool_world" where
  "world_store cfg fd target port w =
     \<lparr> pw_pool = acquire_store cfg fd target port (pw_pool w), pw_held = insert fd (pw_held w),
       pw_open = insert fd (pw_open w) \<rparr>"

definition world_release :: "Config \<Rightarrow> bool \<Rightarrow> int \<Rightarrow> pool_world \<Rightarrow> pool_world" where
  "world_release cfg healthy fd w =
     (case fcgi_pool_conn_release cfg healthy fd (pw_pool w) of
        (closed, p) \<Rightarrow> \<lparr> pw_pool = p, pw_held = pw_held w - {fd}, pw_open = pw_open w - set closed \<rparr>)"

inductive pool_reach :: "Config \<Rightarrow> nat \<Rightarrow> pool_world \<Rightarrow> bool" for cfg n where
  Start: "pool_reach cfg n \<lparr> pw_pool = fcgi_pool_init n p, pw_held = {}, pw_open = {} \<rparr>"
| Reuse: "pool_reach cfg n w \<Longrightarrow> pool_reach cfg n (snd (world_reuse cfg quiet target port w))"
| Store: "pool_reach cfg n w \<Longrightarrow> 0 \<le> fd \<Longrightarrow> fd \<notin> pw_open w \<Longrightarrow> pool_reach cfg n (world_store cfg fd target port w)"
| Release: "pool_reach cfg n w \<Longrightarrow> fd \<in> pw_held w \<Longrightarrow> pool_reach cfg n (world_release cfg healthy fd w)"

text \<open>Slots that are taken, as pairs of the socket and whether it is in use.\<close>

definition taken :: "HalmosFCGI_Conn list \<Rightarrow> (int \<times> bool) list" where
  "taken cs = map (\<lambda>c. (fc_sockfd c, fc_in_use c)) (filter (\<lambda>c. fc_sockfd c \<noteq> -1) cs)"

definition pool_inv :: "pool_world \<Rightarrow> bool" where
  "pool_inv w \<longleftrightarrow> distinct (map fst (taken (fp_connections (pw_pool w))))
     \<and> (\<forall>(fd, used) \<in> set (taken (fp_connections (pw_pool w))). 0 \<le> fd \<and> fd \<in> pw_open w \<and> (used \<longleftrightarrow> fd \<in> pw_held w))
     \<and> (\<forall>fd \<in> pw_held w. 0 \<le> fd \<and> fd \<in> pw_open w)"

lemma taken_simps [simp]:
  "taken [] = []"
  "taken (c # cs) = (if fc_sockfd c = -1 then taken cs else (fc_sockfd c, fc_in_use c) # taken cs)"
  by (simp_all add: taken_def)

lemma reuse_scan_taken:
  assumes "distinct (map fst (taken cs))" and "reuse_scan quiet target port cs = (found, closed, cs')"
  shows "distinct (map fst (taken cs'))
    \<and> set (taken cs') = {x \<in> set (taken cs). fst x \<notin> set closed \<and> found \<noteq> Some (fst x)}
        \<union> (case found of Some fd \<Rightarrow> {(fd, True)} | None \<Rightarrow> {})
    \<and> (\<forall>fd \<in> set closed. (fd, False) \<in> set (taken cs))
    \<and> (\<forall>fd. found = Some fd \<longrightarrow> (fd, False) \<in> set (taken cs) \<and> fd \<notin> set closed)"
  using assms
proof (induction cs arbitrary: found closed cs')
  case (Cons c cs)
  obtain f cl cs2 where rec: "reuse_scan quiet target port cs = (f, cl, cs2)" by (metis prod_cases3)
  have "distinct (map fst (taken cs))" using Cons.prems(1) by (auto split: if_splits)
  note ih = Cons.IH [OF this rec]
  have sub: "fst ` set (taken cs2) \<subseteq> fst ` set (taken cs)"
  proof
    fix y
    assume "y \<in> fst ` set (taken cs2)"
    then obtain b where "(y, b) \<in> set (taken cs2)" by force
    then have "(y, b) \<in> set (taken cs) \<or> (y, False) \<in> set (taken cs)" using ih by (auto split: option.splits)
    then show "y \<in> fst ` set (taken cs)" by force
  qed
  show ?case
  proof (cases "fc_sockfd c = -1")
    case True
    then have r: "found = f" "closed = cl" "cs' = c # cs2" using Cons.prems(2) rec by simp_all
    show ?thesis using ih True unfolding r by simp
  next
    case False
    then have new: "fc_sockfd c \<notin> fst ` set (taken cs)" using Cons.prems(1) by simp
    then have new': "(fc_sockfd c, b) \<notin> set (taken cs)" for b by force
    have fresh: "fc_sockfd c \<notin> set cl" "f \<noteq> Some (fc_sockfd c)" using ih new' by blast+
    have kept: "fst x \<noteq> fc_sockfd c" if "x \<in> set (taken cs)" for x using new that by force
    consider "\<not> fc_in_use c" "belongs target port c" "quiet (fc_sockfd c)"
      | "\<not> fc_in_use c" "belongs target port c" "\<not> quiet (fc_sockfd c)" | "fc_in_use c \<or> \<not> belongs target port c"
      by blast
    then show ?thesis
    proof cases
      case 1
      then have r: "found = Some (fc_sockfd c)" "closed = []" "cs' = c\<lparr> fc_in_use := True \<rparr> # cs"
        using Cons.prems(2) False by auto
      show ?thesis using Cons.prems(1) False 1 kept unfolding r by auto
    next
      case 2
      then have r: "found = f" "closed = fc_sockfd c # cl" "cs' = c\<lparr> fc_sockfd := -1 \<rparr> # cs2"
        using Cons.prems(2) False rec by auto
      show ?thesis using ih False 2 fresh kept unfolding r by auto
    next
      case 3
      then have r: "found = f" "closed = cl" "cs' = c # cs2"
        using Cons.prems(2) False rec by auto
      show ?thesis using ih False fresh sub new unfolding r by auto
    qed
  qed
qed simp

lemma store_scan_taken:
  assumes "store_scan fd target port cs = Some cs'" and "fd \<noteq> -1" and "distinct (map fst (taken cs))"
    and "fd \<notin> fst ` set (taken cs)"
  shows "distinct (map fst (taken cs')) \<and> set (taken cs') = insert (fd, True) (set (taken cs))"
  using assms
proof (induction cs arbitrary: cs')
  case (Cons c cs)
  then show ?case by (auto split: if_splits)
qed simp

lemma slot_of_Some: "slot_of fd cs = Some i \<Longrightarrow> i < length cs \<and> fc_sockfd (cs ! i) = fd"
  by (induction cs arbitrary: i) (auto split: if_splits)

lemma slot_of_None: "slot_of fd cs = None \<longleftrightarrow> fd \<notin> set (map fc_sockfd cs)"
  by (induction cs) auto

lemma taken_update:
  assumes "i < length cs" and "fc_sockfd (cs ! i) \<noteq> -1" and "fc_sockfd c \<in> {-1, fc_sockfd (cs ! i)}"
    and "distinct (map fst (taken cs))"
  shows "distinct (map fst (taken (cs[i := c])))
    \<and> set (taken (cs[i := c])) = {x \<in> set (taken cs). fst x \<noteq> fc_sockfd (cs ! i)} \<union> set (taken [c])"
  using assms
proof (induction cs arbitrary: i)
  case (Cons d cs)
  have new: "fc_sockfd d \<noteq> -1 \<Longrightarrow> (fc_sockfd d, b) \<notin> set (taken cs)" for b
    using Cons.prems(4) by force
  show ?case
  proof (cases i)
    case 0
    have kept: "fst x \<noteq> fc_sockfd d" if "x \<in> set (taken cs)" for x
      using new [of "snd x"] that Cons.prems(2) 0 by (cases x) auto
    then show ?thesis using Cons.prems 0 by auto
  next
    case (Suc j)
    have mem: "(fc_sockfd (cs ! j), fc_in_use (cs ! j)) \<in> set (taken cs)"
      using Cons.prems Suc by (auto simp: taken_def)
    have ih: "distinct (map fst (taken (cs[j := c]))) \<and> set (taken (cs[j := c])) = {x \<in> set (taken cs). fst x \<noteq> fc_sockfd (cs ! j)} \<union> set (taken [c])"
      using Cons.prems Suc by (intro Cons.IH) (auto split: if_splits)
    have "fc_sockfd d \<noteq> -1 \<Longrightarrow> (fc_sockfd d, b) \<notin> set (taken (cs[j := c]))" for b
      using ih Cons.prems(3) mem new Suc by (auto split: if_splits)
    then have "fc_sockfd d \<noteq> -1 \<Longrightarrow> fc_sockfd d \<notin> fst ` set (taken (cs[j := c]))" by force
    moreover have "fc_sockfd d \<noteq> -1 \<Longrightarrow> fc_sockfd d \<noteq> fc_sockfd (cs ! j)" using mem new by metis
    ultimately show ?thesis using ih Suc by auto
  qed
qed simp

section \<open>The invariant\<close>

lemma pool_invD:
  assumes "pool_inv w"
  shows "distinct (map fst (taken (fp_connections (pw_pool w))))"
    "(fd, used) \<in> set (taken (fp_connections (pw_pool w))) \<Longrightarrow> 0 \<le> fd \<and> fd \<in> pw_open w \<and> (used \<longleftrightarrow> fd \<in> pw_held w)"
    "fd \<in> pw_held w \<Longrightarrow> 0 \<le> fd \<and> fd \<in> pw_open w"
  using assms by (auto simp: pool_inv_def)

lemma add_active_connections [simp]: "fp_connections (add_active i d p) = fp_connections p"
  by (simp add: add_active_def)

lemma inv_reuse:
  assumes "pool_inv w"
  shows "pool_inv (snd (world_reuse cfg quiet target port w))
    \<and> (fst (world_reuse cfg quiet target port w) \<noteq> -1 \<longrightarrow> fst (world_reuse cfg quiet target port w) \<notin> pw_held w)"
proof -
  let ?p = "pw_pool w"
  obtain found closed cs where scan: "reuse_scan quiet target port (fp_connections ?p) = (found, closed, cs)"
    by (metis prod_cases3)
  note sp = reuse_scan_taken [OF pool_invD(1) [OF assms] scan]
  have free: "(fd, False) \<in> set (taken (fp_connections ?p)) \<Longrightarrow> 0 \<le> fd \<and> fd \<in> pw_open w \<and> fd \<notin> pw_held w" for fd
    using pool_invD(2) [OF assms] by blast
  show ?thesis
  proof (cases "fp_active_counts ?p (get_backend_index cfg (Some target) port) < fp_quota ?p (get_backend_index cfg (Some target) port)")
    case False
    then show ?thesis using assms by (simp add: world_reuse_def acquire_reuse_def Let_def pool_inv_def)
  next
    case True
    show ?thesis
    proof (cases found)
      case None
      then have "snd (world_reuse cfg quiet target port w)
          = \<lparr> pw_pool = ?p\<lparr> fp_connections := cs \<rparr>, pw_held = pw_held w, pw_open = pw_open w - set closed \<rparr>"
          "fst (world_reuse cfg quiet target port w) = -1"
        using True scan by (simp_all add: world_reuse_def acquire_reuse_def)
      then show ?thesis using assms sp None free pool_invD(3) [OF assms] by (auto simp: pool_inv_def)
    next
      case (Some fd)
      then have fd: "0 \<le> fd" "fd \<in> pw_open w" "fd \<notin> pw_held w" "fd \<notin> set closed" using sp free by auto
      have "fp_connections (pw_pool (snd (world_reuse cfg quiet target port w))) = cs"
          "pw_held (snd (world_reuse cfg quiet target port w)) = insert fd (pw_held w)"
          "pw_open (snd (world_reuse cfg quiet target port w)) = pw_open w - set closed"
          "fst (world_reuse cfg quiet target port w) = fd"
        using True scan Some fd(1) by (simp_all add: world_reuse_def acquire_reuse_def Let_def)
      then show ?thesis using assms sp Some fd free pool_invD(3) [OF assms] by (auto simp: pool_inv_def)
    qed
  qed
qed

lemma inv_store:
  assumes "pool_inv w" and "0 \<le> fd" and "fd \<notin> pw_open w"
  shows "pool_inv (world_store cfg fd target port w)"
proof -
  have new: "fd \<notin> fst ` set (taken (fp_connections (pw_pool w)))" and held: "fd \<notin> pw_held w"
    using assms pool_invD(2,3) [OF assms(1)] by force+
  have same_or_stored: "fp_connections (pw_pool (world_store cfg fd target port w)) = fp_connections (pw_pool w)
      \<or> store_scan fd target port (fp_connections (pw_pool w)) = Some (fp_connections (pw_pool (world_store cfg fd target port w)))"
    by (auto simp: world_store_def acquire_store_def Let_def split: option.splits)
  then show ?thesis
  proof
    assume same: "fp_connections (pw_pool (world_store cfg fd target port w)) = fp_connections (pw_pool w)"
    then show ?thesis using assms new by (fastforce simp: pool_inv_def world_store_def)
  next
    assume stored: "store_scan fd target port (fp_connections (pw_pool w)) = Some (fp_connections (pw_pool (world_store cfg fd target port w)))"
    from store_scan_taken [OF this _ pool_invD(1) [OF assms(1)] new] assms(2) show ?thesis
      using assms new by (fastforce simp: pool_inv_def world_store_def)
  qed
qed

lemma inv_release:
  assumes "pool_inv w" and "fd \<in> pw_held w"
  shows "pool_inv (world_release cfg healthy fd w)"
proof -
  let ?cs = "fp_connections (pw_pool w)"
  have fd: "0 \<le> fd" using pool_invD(3) [OF assms] by simp
  show ?thesis
  proof (cases "slot_of fd ?cs")
    case None
    then have new: "(fd, b) \<notin> set (taken ?cs)" for b by (auto simp: slot_of_None taken_def)
    have w: "fp_connections (pw_pool (world_release cfg healthy fd w)) = ?cs"
        "pw_held (world_release cfg healthy fd w) = pw_held w - {fd}"
        "pw_open (world_release cfg healthy fd w) = pw_open w - {fd}"
      using None fd by (simp_all add: world_release_def fcgi_pool_conn_release_def)
    show ?thesis using assms pool_invD(3) [OF assms] new unfolding pool_inv_def w by auto
  next
    case (Some i)
    note i = slot_of_Some [OF Some]
    define c where "c = (if healthy then (?cs ! i)\<lparr> fc_in_use := False \<rparr> else (?cs ! i)\<lparr> fc_sockfd := -1, fc_in_use := False \<rparr>)"
    have up: "distinct (map fst (taken (?cs[i := c])))"
        "set (taken (?cs[i := c])) = {x \<in> set (taken ?cs). fst x \<noteq> fd} \<union> set (taken [c])"
      using taken_update [of i ?cs c] i fd pool_invD(1) [OF assms(1)] by (auto simp: c_def)
    have w: "fp_connections (pw_pool (world_release cfg healthy fd w)) = ?cs[i := c]"
        "pw_held (world_release cfg healthy fd w) = pw_held w - {fd}"
        "pw_open (world_release cfg healthy fd w) = pw_open w - (if healthy then {} else {fd})"
      using Some fd by (auto simp: world_release_def fcgi_pool_conn_release_def Let_def c_def)
    have "set (taken [c]) = (if healthy then {(fd, False)} else {})" using i fd by (auto simp: c_def)
    then show ?thesis
      using up assms pool_invD(3) [OF assms] unfolding pool_inv_def w by (auto split: if_splits)
  qed
qed

lemma fcgi_pool_reach_inv: "pool_reach cfg n w \<Longrightarrow> pool_inv w"
proof (induction rule: pool_reach.induct)
  case (Start p)
  then show ?case by (simp add: pool_inv_def fcgi_pool_init_def taken_def)
qed (simp_all add: inv_reuse inv_store inv_release)

section \<open>Properties\<close>


definition two_slots :: HalmosFCGI_Pool where
  "two_slots = \<lparr> fp_connections = [], fp_active_counts = (\<lambda>_. 0), fp_next_idx = (\<lambda>_. 0), fp_quota = (\<lambda>_. 4) \<rparr>"

definition pool_returned :: pool_world where
  "pool_returned = world_release empty_config True 7 (world_store empty_config 7 ''h'' 9000
     \<lparr> pw_pool = fcgi_pool_init 2 two_slots, pw_held = {}, pw_open = {} \<rparr>)"


text \<open>The counts of the backends drift: a backend is looked up by its address when a connection is taken
  and by its port when it is given back.  When PHP runs on the same host as a backend in Rust, each
  use of a Rust backend leaves the count of PHP one higher and that of Rust one lower, until PHP
  has used up its quota without a connection.\<close>

theorem pool_counts_drift:
  assumes "target \<in> set (take (bg_node_count (cf_php cfg)) (bg_ips (cf_php cfg)))"
    and "port \<notin> set (take (bg_node_count (cf_php cfg)) (bg_ports (cf_php cfg)))"
    and "port \<in> set (take (bg_node_count (cf_rust cfg)) (bg_ports (cf_rust cfg)))"
    and "0 < port" and "0 \<le> fd" and "fp_active_counts p 0 < fp_quota p 0"
    and "fp_connections p = empty_slot # cs" and "fc_sockfd empty_slot = -1"
  shows "fp_active_counts (snd (fcgi_pool_conn_release cfg healthy fd (acquire_store cfg fd target port p)))
       = (fp_active_counts p)(0 := fp_active_counts p 0 + 1, 1 := fp_active_counts p 1 - 1)"
  using assms
  by (simp add: acquire_store_def fcgi_pool_conn_release_def get_backend_index_def group_has_def is_unix_port_def
      add_active_def Let_def fun_eq_iff)

definition one_host :: Config where
  "one_host = empty_config
     \<lparr> cf_php := empty_group\<lparr> bg_ips := [''127.0.0.1''], bg_ports := [9000], bg_node_count := 1 \<rparr>,
       cf_rust := empty_group\<lparr> bg_ips := [''127.0.0.1''], bg_ports := [9001], bg_node_count := 1 \<rparr> \<rparr>"

theorem pool_counts_drift_witness:
  "fp_active_counts (snd (fcgi_pool_conn_release one_host True 7
     (acquire_store one_host 7 ''127.0.0.1'' 9001 (fcgi_pool_init 2 two_slots)))) 0 = 1"
  by (subst pool_counts_drift [where empty_slot = "hd (fp_connections (fcgi_pool_init 2 two_slots))"
        and cs = "tl (fp_connections (fcgi_pool_init 2 two_slots))"])
    (simp_all add: one_host_def fcgi_pool_init_def two_slots_def numeral_2_eq_2)

end
