(* ===== verification/Fcgi_Session.thy ===== *)
theory Fcgi_Session
  imports Fcgi_Response Fcgi_Pool
begin

text \<open>
  A request of an HTTP/1 client to a FastCGI backend step by step: src/fastcgi/halmos_fcgi_session.c, with
  the choice of the backend that HTTP/2 shares.

  A step is given what \<open>poll\<close> reported and what the calls of the step answer, and returns its status, the
  new session, the bytes that went to the backend and the descriptors it closed.  The length of the
  gather buffer is \<open>g_ptr\<close>.
\<close>

section \<open>Choosing a backend\<close>

text \<open>\<open>hash_ip\<close> of the pool, in 32 bits.\<close>

definition ip_hash :: "string \<Rightarrow> u32" where
  "ip_hash ip = foldl (\<lambda>hash c. (push_bit 5 hash + hash) + ucast (schar c)) 5381 ip"

definition backend_group :: "Config \<Rightarrow> VHostEntry option \<Rightarrow> nat \<Rightarrow> BackendGroup" where
  "backend_group cfg vh backend_type =
     (let own = (\<lambda>sel. case vh of Some v \<Rightarrow> if 0 < bg_node_count (sel v) then Some (sel v) else None | None \<Rightarrow> None)
      in if backend_type = 0 then (case own vh_php of Some g \<Rightarrow> g | None \<Rightarrow> cf_php cfg)
         else if backend_type = 1 then (case own vh_rust of Some g \<Rightarrow> g | None \<Rightarrow> cf_rust cfg)
         else (case own vh_python of Some g \<Rightarrow> g | None \<Rightarrow> cf_python cfg))"

text \<open>
  The node of a group: by the address of the client or in turn.  The counter is an \<open>int\<close> that wraps, and
  the remainder of a negative number is not positive: then the node is read outside of the array.
\<close>

datatype node_choice = NoNodes | Node string int | OutOfBounds

definition c_rem :: "int \<Rightarrow> int \<Rightarrow> int" where
  "c_rem a b = (if 0 \<le> a then a mod b else - ((- a) mod b))"

definition choose_node :: "BackendGroup \<Rightarrow> nat \<Rightarrow> string \<Rightarrow> HalmosFCGI_Pool \<Rightarrow> node_choice \<times> HalmosFCGI_Pool" where
  "choose_node g backend_type client_ip p =
     (let live = (if backend_type \<in> {0, 1} then backend_type else 2); n = int (bg_node_count g)
      in if bg_node_count g = 0 then (NoNodes, p)
         else
           let (idx, p') = (if bg_lb_strategy g = ''ip_hash'' then (int (unat (ip_hash client_ip)) mod n, p)
                            else (c_rem (fp_next_idx p live) n,
                                  p\<lparr> fp_next_idx := (fp_next_idx p)(live := c_int (fp_next_idx p live + 1)) \<rparr>))
           in (if idx < 0 then OutOfBounds else Node (bg_ips g ! nat idx) (bg_ports g ! nat idx), p'))"

section \<open>HTTP/1 sessions\<close>

datatype FCGISessionState =
    FCGI_SES_STATE_INIT | FCGI_SES_STATE_SENDING_PARAMS | FCGI_SES_STATE_SENDING_STDIN
  | FCGI_SES_STATE_RECEIVING | FCGI_SES_STATE_FINISHED | FCGI_SES_STATE_ERROR

datatype FCGISessionStatus = FCGI_SES_STATUS_CONTINUE | FCGI_SES_STATUS_COMPLETED | FCGI_SES_STATUS_ERROR

record HalmosFCGISession =
  fs_client_sock :: int
  fs_fpm_sock :: int
  fs_request_id :: nat
  fs_state :: FCGISessionState
  fs_gather_buf :: bytes
  fs_g_sent :: nat
  fs_post_data :: "bytes option"
  fs_content_length :: nat
  fs_stdin_sent :: nat
  fs_req :: RequestHeader

text \<open>
  The session owns a connection of the pool from the start.  Without a node of the group nothing is
  returned (and the memory of the session stays allocated).
\<close>

definition fcgi_session_http1_create ::
  "Config \<Rightarrow> VHostEntry option \<Rightarrow> (int \<Rightarrow> bool) \<Rightarrow> int \<Rightarrow> bool \<Rightarrow> int \<Rightarrow> nat \<Rightarrow> RequestHeader \<Rightarrow> bytes option \<Rightarrow> nat
   \<Rightarrow> nat \<Rightarrow> HalmosFCGI_Pool \<Rightarrow> HalmosFCGISession option \<times> int list \<times> HalmosFCGI_Pool \<times> VHostEntry list" where
  "fcgi_session_http1_create cfg vh quiet created malloc_ok client_sock backend_type req post_data content_length request_id p =
     (if \<not> malloc_ok then (None, [], p, cf_vhosts cfg)
      else case choose_node (backend_group cfg vh backend_type) backend_type (rh_client_ip req) p of
        (Node ip port, p1) \<Rightarrow>
          (case fcgi_pool_conn_acquire cfg quiet created ip port p1 of
             (fpm_sock, closed, p2) \<Rightarrow>
               if fpm_sock < 0 then (None, closed, p2, cf_vhosts cfg)
               else (case fcgi_proto_build_params cfg req content_length request_id (begin_record request_id) of
                       (vhosts, gather) \<Rightarrow>
                         (Some \<lparr> fs_client_sock = client_sock, fs_fpm_sock = fpm_sock, fs_request_id = request_id,
                                 fs_state = FCGI_SES_STATE_INIT, fs_gather_buf = gather, fs_g_sent = 0,
                                 fs_post_data = post_data, fs_content_length = content_length, fs_stdin_sent = 0,
                                 fs_req = req \<rparr>,
                          closed, p2, vhosts)))
      | (_, p1) \<Rightarrow> (None, [], p1, cf_vhosts cfg))"

definition fcgi_session_destroy ::
  "Config \<Rightarrow> bool \<Rightarrow> HalmosFCGISession \<Rightarrow> HalmosFCGI_Pool \<Rightarrow> int list \<times> HalmosFCGI_Pool" where
  "fcgi_session_destroy cfg healthy s p =
     (if fs_fpm_sock s = -1 then ([], p)
      else if fs_state s = FCGI_SES_STATE_ERROR then ([fs_fpm_sock s], p)
      else fcgi_pool_conn_release cfg healthy (fs_fpm_sock s) p)"

text \<open>What \<open>poll\<close> reported and what the calls of a step answer.\<close>

record step_env =
  se_pollout :: bool
  se_pollin :: bool
  se_send :: send_result
  se_send_end :: send_result
  se_pipe_ok :: bool

fun sent_part :: "send_result \<Rightarrow> bytes \<Rightarrow> bytes" where
  "sent_part (Sent n) b = take n b"
| "sent_part _ b = []"

definition step_params :: "send_result \<Rightarrow> HalmosFCGISession \<Rightarrow> FCGISessionStatus \<times> HalmosFCGISession \<times> bytes" where
  "step_params r s =
     (case r of
        Sent n \<Rightarrow>
          let g_sent = fs_g_sent s + n;
              s' = s\<lparr> fs_g_sent := g_sent \<rparr>
          in (FCGI_SES_STATUS_CONTINUE,
              (if 0 < n \<and> length (fs_gather_buf s) \<le> g_sent
               then s'\<lparr> fs_state := (if 0 < fs_content_length s \<and> fs_post_data s \<noteq> None
                                     then FCGI_SES_STATE_SENDING_STDIN else FCGI_SES_STATE_RECEIVING) \<rparr>
               else s'),
              take n (drop (fs_g_sent s) (fs_gather_buf s)))
      | SendAgain \<Rightarrow> (FCGI_SES_STATUS_CONTINUE, s, [])
      | SendFail \<Rightarrow> (FCGI_SES_STATUS_ERROR, s\<lparr> fs_state := FCGI_SES_STATE_ERROR \<rparr>, []))"

text \<open>The body goes in records of at most 32768 bytes; a record counts as sent when any of it is.\<close>

definition stdin_chunk :: "HalmosFCGISession \<Rightarrow> bytes" where
  "stdin_chunk s =
     take (min (fs_content_length s - fs_stdin_sent s) 32768)
       (drop (fs_stdin_sent s) (case fs_post_data s of Some d \<Rightarrow> d | None \<Rightarrow> []))"

definition step_stdin ::
  "send_result \<Rightarrow> send_result \<Rightarrow> HalmosFCGISession \<Rightarrow> FCGISessionStatus \<times> HalmosFCGISession \<times> bytes" where
  "step_stdin r r_end s =
     (let chunk_size = min (fs_content_length s - fs_stdin_sent s) 32768;
          rec = stdin_record (fs_request_id s) (stdin_chunk s)
      in if 0 < chunk_size \<and> r = SendFail then
           (FCGI_SES_STATUS_ERROR, s\<lparr> fs_state := FCGI_SES_STATE_ERROR \<rparr>, [])
         else
           let out = (if 0 < chunk_size then sent_part r rec else []);
               s1 = (if 0 < chunk_size \<and> (case r of Sent n \<Rightarrow> 0 < n | _ \<Rightarrow> False)
                     then s\<lparr> fs_stdin_sent := fs_stdin_sent s + chunk_size \<rparr> else s)
           in if fs_content_length s \<le> fs_stdin_sent s1
              then (FCGI_SES_STATUS_CONTINUE, s1\<lparr> fs_state := FCGI_SES_STATE_RECEIVING \<rparr>,
                    out @ sent_part r_end (stdin_end (fs_request_id s)))
              else (FCGI_SES_STATUS_CONTINUE, s1, out))"

definition fcgi_session_http1_step ::
  "step_env \<Rightarrow> relay \<Rightarrow> HalmosFCGISession
   \<Rightarrow> FCGISessionStatus \<times> HalmosFCGISession \<times> bytes \<times> int list \<times> relay" where
  "fcgi_session_http1_step e rl s =
     (case fs_state s of
        FCGI_SES_STATE_SENDING_STDIN \<Rightarrow>
          if se_pollout e then (case step_stdin (se_send e) (se_send_end e) s of (st, s', out) \<Rightarrow> (st, s', out, [], rl))
          else (FCGI_SES_STATUS_CONTINUE, s, [], [], rl)
      | FCGI_SES_STATE_RECEIVING \<Rightarrow>
          if se_pollin e then
            (case fcgi_io_splice_response (se_pipe_ok e) (fs_req s) rl of
               (ret, rl') \<Rightarrow>
                 if ret = 0 then (FCGI_SES_STATUS_COMPLETED, s\<lparr> fs_state := FCGI_SES_STATE_FINISHED \<rparr>, [], [], rl')
                 else (FCGI_SES_STATUS_ERROR, s\<lparr> fs_state := FCGI_SES_STATE_ERROR \<rparr>, [], [fs_fpm_sock s], rl'))
          else (FCGI_SES_STATUS_CONTINUE, s, [], [], rl)
      | FCGI_SES_STATE_FINISHED \<Rightarrow> (FCGI_SES_STATUS_COMPLETED, s, [], [], rl)
      | FCGI_SES_STATE_ERROR \<Rightarrow> (FCGI_SES_STATUS_ERROR, s, [], [], rl)
      | _ \<Rightarrow>
          if se_pollout e then (case step_params (se_send e) s of (st, s', out) \<Rightarrow> (st, s', out, [], rl))
          else (FCGI_SES_STATUS_CONTINUE, s, [], [], rl))"

section \<open>Sending a request\<close>

text \<open>A run of steps, up to the state that waits for the answer: the session and the bytes that went out.\<close>

fun send_run :: "step_env list \<Rightarrow> relay \<Rightarrow> HalmosFCGISession \<Rightarrow> HalmosFCGISession \<times> bytes" where
  "send_run [] rl s = (s, [])"
| "send_run (e # es) rl s =
     (if fs_state s = FCGI_SES_STATE_RECEIVING then (s, [])
      else case fcgi_session_http1_step e rl s of
        (st, s', out, closed, rl') \<Rightarrow> (case send_run es rl' s' of (s'', out') \<Rightarrow> (s'', out @ out')))"

text \<open>
  The socket of the backend takes at least a byte of the parameters at a time, and each record of the body
  whole.
\<close>

definition accepts :: "step_env \<Rightarrow> HalmosFCGISession \<Rightarrow> bool" where
  "accepts e s \<longleftrightarrow> se_pollout e \<and> se_send_end e = Sent 8
     \<and> (case se_send e of
          Sent n \<Rightarrow> 0 < n \<and> (fs_state s = FCGI_SES_STATE_SENDING_STDIN \<longrightarrow> 32784 \<le> n)
        | _ \<Rightarrow> False)"

fun accepted_run :: "step_env list \<Rightarrow> relay \<Rightarrow> HalmosFCGISession \<Rightarrow> bool" where
  "accepted_run [] rl s = True"
| "accepted_run (e # es) rl s \<longleftrightarrow> fs_state s = FCGI_SES_STATE_RECEIVING
     \<or> (accepts e s \<and> (case fcgi_session_http1_step e rl s of (st, s', out, closed, rl') \<Rightarrow> accepted_run es rl' s'))"

text \<open>What a session has still to send, and in how many steps at most.\<close>

function stdin_bytes :: "nat \<Rightarrow> bytes \<Rightarrow> bytes" where
  "stdin_bytes i d = (if d = [] then stdin_end i else stdin_record i (take 32768 d) @ stdin_bytes i (drop 32768 d))"
  by pat_completeness auto
termination by (relation "measure (\<lambda>(_, d). length d)") auto

declare stdin_bytes.simps [simp del]

definition body_left :: "HalmosFCGISession \<Rightarrow> bytes" where
  "body_left s = drop (fs_stdin_sent s) (case fs_post_data s of Some d \<Rightarrow> d | None \<Rightarrow> [])"

definition to_send :: "HalmosFCGISession \<Rightarrow> bytes" where
  "to_send s =
     (case fs_state s of
        FCGI_SES_STATE_INIT \<Rightarrow>
          drop (fs_g_sent s) (fs_gather_buf s)
          @ (if 0 < fs_content_length s \<and> fs_post_data s \<noteq> None then stdin_bytes (fs_request_id s) (body_left s) else [])
      | FCGI_SES_STATE_SENDING_STDIN \<Rightarrow> stdin_bytes (fs_request_id s) (body_left s)
      | _ \<Rightarrow> [])"

definition steps_left :: "HalmosFCGISession \<Rightarrow> nat" where
  "steps_left s =
     (case fs_state s of
        FCGI_SES_STATE_INIT \<Rightarrow> length (fs_gather_buf s) - fs_g_sent s + fs_content_length s
      | FCGI_SES_STATE_SENDING_STDIN \<Rightarrow> fs_content_length s - fs_stdin_sent s
      | _ \<Rightarrow> 0)"

definition sending_ok :: "HalmosFCGISession \<Rightarrow> bool" where
  "sending_ok s \<longleftrightarrow> fs_state s = FCGI_SES_STATE_RECEIVING
     \<or> (\<forall>d. fs_post_data s = Some d \<longrightarrow> length d = fs_content_length s)
       \<and> (fs_state s = FCGI_SES_STATE_INIT \<and> fs_g_sent s < length (fs_gather_buf s) \<and> fs_stdin_sent s = 0
         \<or> fs_state s = FCGI_SES_STATE_SENDING_STDIN \<and> fs_stdin_sent s < fs_content_length s \<and> fs_post_data s \<noteq> None)"

lemma length_stdin_record: "length d \<le> 32768 \<Longrightarrow> length (stdin_record i d) \<le> 32784"
  using fcgi_padding_less [of "length d"] by (simp add: stdin_record_def Let_def)

lemma accepted_step:
  assumes "sending_ok s" and "fs_state s \<noteq> FCGI_SES_STATE_RECEIVING" and "accepts e s"
    and "fcgi_session_http1_step e rl s = (st, s', out, closed, rl')"
  shows "sending_ok s' \<and> to_send s = out @ to_send s' \<and> steps_left s' < steps_left s"
proof -
  obtain n where n: "se_send e = Sent n" "0 < n" "se_pollout e" "se_send_end e = Sent 8"
    using assms(3) by (cases "se_send e") (auto simp: accepts_def)
  consider "fs_state s = FCGI_SES_STATE_INIT" | "fs_state s = FCGI_SES_STATE_SENDING_STDIN"
    using assms(1,2) by (auto simp: sending_ok_def)
  then show ?thesis
  proof cases
    case 1
    have len: "fs_g_sent s < length (fs_gather_buf s)" "fs_stdin_sent s = 0"
        "\<forall>d. fs_post_data s = Some d \<longrightarrow> length d = fs_content_length s"
      using assms(1) 1 by (auto simp: sending_ok_def)
    have drops: "take n (drop g b) @ drop (g + n) b = drop g b" for g and b :: bytes
      by (metis add.commute append_take_drop_id drop_drop)
    show ?thesis
    proof (cases "length (fs_gather_buf s) \<le> fs_g_sent s + n")
      case True
      then show ?thesis using assms(4) 1 n len drops [of "fs_g_sent s" "fs_gather_buf s"]
        by (auto simp: fcgi_session_http1_step_def step_params_def Let_def sending_ok_def to_send_def steps_left_def body_left_def
            split: if_splits)
    next
      case False
      then show ?thesis using assms(4) 1 n len drops [of "fs_g_sent s" "fs_gather_buf s"]
        by (auto simp: fcgi_session_http1_step_def step_params_def Let_def sending_ok_def to_send_def steps_left_def body_left_def)
    qed
  next
    case 2
    obtain d where d: "fs_post_data s = Some d" "length d = fs_content_length s" "fs_stdin_sent s < fs_content_length s"
      using assms(1) 2 by (auto simp: sending_ok_def)
    let ?rest = "drop (fs_stdin_sent s) d"
    have chunk: "stdin_chunk s = take 32768 ?rest" using d by (simp add: stdin_chunk_def min_def)
    have whole: "take n (stdin_record i (take 32768 ?rest)) = stdin_record i (take 32768 ?rest)" for i
      using assms(3) 2 n length_stdin_record [of "take 32768 ?rest" i] by (simp add: accepts_def)
    have ne: "?rest \<noteq> []" using d by simp
    have end8: "take 8 (stdin_end i) = stdin_end i" for i by (simp add: stdin_end_def)
    have bytes: "stdin_bytes i ?rest = stdin_record i (take 32768 ?rest) @ stdin_bytes i (drop (fs_stdin_sent s + 32768) d)" for i
      using ne by (subst stdin_bytes.simps) (simp add: add.commute)
    have done_end: "stdin_bytes i [] = stdin_end i" for i by (simp add: stdin_bytes.simps)
    show ?thesis
    proof (cases "fs_content_length s \<le> fs_stdin_sent s + 32768")
      case True
      then show ?thesis using assms(4) 2 n d bytes done_end whole end8
        by (auto simp: fcgi_session_http1_step_def step_stdin_def Let_def chunk sending_ok_def to_send_def steps_left_def body_left_def)
    next
      case False
      then show ?thesis using assms(4) 2 n d bytes whole
        by (auto simp: fcgi_session_http1_step_def step_stdin_def Let_def chunk sending_ok_def to_send_def steps_left_def body_left_def)
    qed
  qed
qed

lemma accepted_run_sends:
  assumes "sending_ok s" and "accepted_run es rl s" and "steps_left s \<le> length es"
  shows "fs_state (fst (send_run es rl s)) = FCGI_SES_STATE_RECEIVING \<and> snd (send_run es rl s) = to_send s"
  using assms
proof (induction es arbitrary: rl s)
  case Nil
  then show ?case by (auto simp: steps_left_def sending_ok_def to_send_def)
next
  case (Cons e es)
  show ?case
  proof (cases "fs_state s = FCGI_SES_STATE_RECEIVING")
    case True
    then show ?thesis by (simp add: to_send_def)
  next
    case False
    obtain st s' out closed rl' where step: "fcgi_session_http1_step e rl s = (st, s', out, closed, rl')" by (metis prod_cases5)
    have "accepts e s" "accepted_run es rl' s'" using Cons.prems(2) False step by auto
    with accepted_step [OF Cons.prems(1) False _ step] Cons.IH [of s' rl'] Cons.prems(3)
    show ?thesis using False step by (auto simp: case_prod_unfold)
  qed
qed

section \<open>Properties\<close>

text \<open>The body as the backend reads it.\<close>

definition stdin_rec :: "nat \<Rightarrow> bytes \<Rightarrow> fcgi_record" where
  "stdin_rec i c = \<lparr> fr_type = FCGI_STDIN, fr_id = i, fr_content = c \<rparr>"

lemma stdin_end_reads: "i < 65536 \<Longrightarrow> fcgi_records (stdin_end i) = Some [stdin_rec i []]"
  using empty_record_reads [of i FCGI_STDIN "[]"] by (simp add: stdin_end_def stdin_rec_def)

lemma stdin_bytes_reads:
  "i < 65536 \<Longrightarrow> \<exists>cs. fcgi_records (stdin_bytes i d) = Some (map (stdin_rec i) cs @ [stdin_rec i []]) \<and> concat cs = d"
proof (induction i d rule: stdin_bytes.induct)
  case (1 i d)
  show ?case
  proof (cases "d = []")
    case True
    then show ?thesis using stdin_end_reads [OF 1(2)] by (intro exI [of _ "[]"]) (simp add: stdin_bytes.simps)
  next
    case False
    obtain cs where cs: "fcgi_records (stdin_bytes i (drop 32768 d)) = Some (map (stdin_rec i) cs @ [stdin_rec i []])"
        "concat cs = drop 32768 d"
      using 1 False by blast
    have "fcgi_records (stdin_bytes i d) = map_option (Cons (stdin_rec i (take 32768 d))) (fcgi_records (stdin_bytes i (drop 32768 d)))"
      using False 1(2) fcgi_padding_less [of "length (take 32768 d)"]
        fcgi_records_record [of "take 32768 d" "fcgi_padding (length (take 32768 d))" i FCGI_STDIN "stdin_bytes i (drop 32768 d)"]
      by (subst stdin_bytes.simps) (simp add: stdin_record_def Let_def stdin_rec_def)
    then have "fcgi_records (stdin_bytes i d) = Some (map (stdin_rec i) (take 32768 d # cs) @ [stdin_rec i []])"
      using cs(1) by simp
    moreover have "concat (take 32768 d # cs) = d" using cs(2) by simp
    ultimately show ?thesis by blast
  qed
qed


text \<open>A request with a body, and a socket that takes what it is given.\<close>

definition script_post :: RequestHeader where
  "script_post = empty_request\<lparr> rh_method := ''POST'', rh_uri := Some ''/a.php'' \<rparr>"

definition script_session :: "HalmosFCGISession option \<times> int list \<times> HalmosFCGI_Pool \<times> VHostEntry list" where
  "script_session = fcgi_session_http1_create one_host None (\<lambda>_. True) 7 True 5 0 script_post (Some [1, 2, 3]) 3 1
     (fcgi_pool_init 2 two_slots)"

definition eager :: step_env where
  "eager = \<lparr> se_pollout = True, se_pollin = False, se_send = Sent 70000, se_send_end = Sent 8, se_pipe_ok = True \<rparr>"

lemma accepted_run_eager: "accepted_run (replicate k eager) rl s"
  by (induction k arbitrary: rl s) (auto simp: accepts_def eager_def case_prod_unfold)

lemma script_session_made: "\<exists>s r. script_session = (Some s, r) \<and> length (fs_gather_buf s) \<le> 65551"
proof -
  have conn: "fst (fcgi_pool_conn_acquire one_host (\<lambda>_. True) 7 ''127.0.0.1'' 9000
      (fcgi_pool_init 2 two_slots\<lparr> fp_next_idx := (\<lambda>_. 0)(0 := 1) \<rparr>)) = 7"
    by (simp add: fcgi_pool_conn_acquire_def acquire_reuse_def fcgi_pool_init_def two_slots_def Let_def
        get_backend_index_def group_has_def one_host_def numeral_2_eq_2)
  have node: "choose_node (backend_group one_host None 0) 0 (rh_client_ip script_post) (fcgi_pool_init 2 two_slots)
      = (Node ''127.0.0.1'' 9000, fcgi_pool_init 2 two_slots\<lparr> fp_next_idx := (\<lambda>_. 0)(0 := 1) \<rparr>)"
    by (simp add: choose_node_def backend_group_def one_host_def empty_config_def empty_group_def fcgi_pool_init_def two_slots_def c_rem_def)
  have "length (snd (fcgi_proto_build_params one_host script_post 3 1 (begin_record 1))) \<le> 65551"
    using length_kept_bytes [of 65512 "fcgi_params one_host (request_vhost one_host script_post) script_post 3"]
      fcgi_padding_less [of "length (kept_bytes 65512 (fcgi_params one_host (request_vhost one_host script_post) script_post 3))"]
    by (simp add: length_build_params Let_def)
  then show ?thesis
    using conn by (simp add: script_session_def fcgi_session_http1_create_def node case_prod_unfold)
qed


text \<open>A record of the body that the socket takes only in part is never completed: its whole chunk counts as
  sent, and for a body of one record the step goes on to the end of the body and waits for the answer,
  while the backend, whatever it read before, is left with a record that is not complete and waits for
  the rest.\<close>

theorem fcgi_partial_body_lost:
  assumes "fs_state s = FCGI_SES_STATE_SENDING_STDIN" and "fs_stdin_sent s = 0" and "fs_post_data s = Some d"
    and "length d = fs_content_length s" and "0 < length d" and "length d \<le> 32768" and "fs_request_id s < 65536"
    and "se_pollout e" and "se_send e = Sent m" and "8 \<le> m" and "8 + m < length (stdin_record (fs_request_id s) d)"
    and "se_send_end e = Sent 8"
  shows "case fcgi_session_http1_step e rl s of (st, s', out, closed, rl') \<Rightarrow>
     st = FCGI_SES_STATUS_CONTINUE \<and> fs_state s' = FCGI_SES_STATE_RECEIVING \<and> fs_stdin_sent s' = length d
     \<and> fcgi_records out = None"
proof -
  let ?i = "fs_request_id s"
  have chunk: "stdin_chunk s = d" using assms(2-6) by (simp add: stdin_chunk_def)
  have out: "fcgi_session_http1_step e rl s =
      (FCGI_SES_STATUS_CONTINUE, s\<lparr> fs_stdin_sent := length d, fs_state := FCGI_SES_STATE_RECEIVING \<rparr>,
       take m (stdin_record ?i d) @ stdin_end ?i, [], rl)"
    using assms by (simp add: fcgi_session_http1_step_def step_stdin_def Let_def chunk stdin_end_def)
  have "fcgi_records (take m (stdin_record ?i d) @ stdin_end ?i) = None"
  proof -
    let ?b = "take m (stdin_record ?i d) @ stdin_end ?i" and ?pad = "fcgi_padding (length d)"
    have "take 8 (stdin_record ?i d) = fcgi_header FCGI_STDIN ?i (length d) ?pad" by (simp add: stdin_record_def Let_def)
    then obtain rest where b: "?b = fcgi_header FCGI_STDIN ?i (length d) ?pad @ rest"
      using assms(10) by (metis append.assoc append_take_drop_id min.absorb1 take_take)
    have "length (stdin_record ?i d) = 8 + length d + ?pad" by (simp add: stdin_record_def Let_def)
    moreover have "length ?b = m + 8" using assms(11) by (simp add: stdin_end_def)
    ultimately have "length rest < length d + ?pad" using assms(11) b by simp
    then show ?thesis
      using assms(6) fcgi_padding_less [of "length d"] unfolding b by (intro fcgi_records_incomplete) simp_all
  qed
  then show ?thesis unfolding out by simp
qed

definition posting_session :: HalmosFCGISession where
  "posting_session = \<lparr> fs_client_sock = 5, fs_fpm_sock = 7, fs_request_id = 1, fs_state = FCGI_SES_STATE_SENDING_STDIN,
     fs_gather_buf = [], fs_g_sent = 0, fs_post_data = Some (replicate 16 1), fs_content_length = 16, fs_stdin_sent = 0,
     fs_req = script_post \<rparr>"

theorem fcgi_partial_body_lost_witness:
  "case fcgi_session_http1_step (eager\<lparr> se_send := Sent 12 \<rparr>) (taking [] []) posting_session of (st, s', out, closed, rl') \<Rightarrow>
     fs_state s' = FCGI_SES_STATE_RECEIVING \<and> fcgi_records out = None"
  using fcgi_partial_body_lost [of posting_session "replicate 16 1" "eager\<lparr> se_send := Sent 12 \<rparr>" 12 "taking [] []"]
  by (simp add: posting_session_def eager_def stdin_record_def fcgi_padding_def Let_def case_prod_unfold)

text \<open>When the answer of a backend fails, its descriptor is closed twice, by the relay and again when the
  session is destroyed (by then it may belong to another connection), and its slot of the pool is not
  given back: it stays in use, and the count of the backend stays as it was.\<close>

theorem fcgi_failed_answer_closes_twice:
  assumes "fs_state s = FCGI_SES_STATE_RECEIVING" and "se_pollin e" and "fs_fpm_sock s \<noteq> -1"
    and "fst (fcgi_io_splice_response (se_pipe_ok e) (fs_req s) rl) \<noteq> 0"
  shows "case fcgi_session_http1_step e rl s of (st, s', out, closed, rl') \<Rightarrow>
     (case fcgi_session_destroy cfg healthy s' p of (closed', p') \<Rightarrow>
        st = FCGI_SES_STATUS_ERROR \<and> closed = [fs_fpm_sock s] \<and> closed' = [fs_fpm_sock s] \<and> p' = p)"
  using assms by (auto simp: fcgi_session_http1_step_def fcgi_session_destroy_def split: prod.splits)

theorem fcgi_failed_answer_closes_twice_witness:
  "case fcgi_session_http1_step (eager\<lparr> se_pollin := True \<rparr>) (taking [] []) (posting_session\<lparr> fs_state := FCGI_SES_STATE_RECEIVING \<rparr>) of
     (st, s', out, closed, rl') \<Rightarrow>
     (case fcgi_session_destroy one_host True s' (fcgi_pool_init 2 two_slots) of (closed', p') \<Rightarrow>
        closed = [7] \<and> closed' = [7] \<and> p' = fcgi_pool_init 2 two_slots)"
proof -
  have "fst (fcgi_io_splice_response (se_pipe_ok eager) script_post (taking [] [])) \<noteq> 0"
    by (simp add: fcgi_io_splice_response_def relay_loop.simps recv_all_def)
  then show ?thesis
    using fcgi_failed_answer_closes_twice [where s = "posting_session\<lparr> fs_state := FCGI_SES_STATE_RECEIVING \<rparr>"
        and e = "eager\<lparr> se_pollin := True \<rparr>" and rl = "taking [] []" and cfg = one_host and healthy = True
        and p = "fcgi_pool_init 2 two_slots"]
    by (simp add: posting_session_def case_prod_unfold)
qed

end
