(* ===== verification/Fcgi_H2.thy ===== *)
theory Fcgi_H2
  imports Fcgi_Session H2_Response Multipart
begin

text \<open>
  Requests of HTTP/2 streams: the router (src/protocol/http2/halmos_http2_router.c) and the steps of a
  FastCGI request inside a stream (\<open>fcgi_session_http2_create\<close> and \<open>fcgi_session_http2_step\<close> of
  src/fastcgi/halmos_fcgi_session.c).

  The FastCGI fields of a stream are a record of their own.  The buffer for the answer is the gather
  buffer: it is written from its start, with a NUL after what is written, so that it is the list of the
  bytes written; before the first of them it holds the parameters, which start with a NUL among their
  first five bytes.  The file system is an argument.
\<close>

section \<open>A FastCGI request in a stream\<close>

record fcgi_stream =
  fx_fpm_fd :: int
  fx_fcgi_state :: nat
  fx_stdin_sent :: nat
  fx_header_buffer :: bytes
  fx_header_sent :: bool
  fx_gather_buf :: bytes
  fx_g_sent :: nat

definition fcgi_session_http2_create ::
  "Config \<Rightarrow> VHostEntry option \<Rightarrow> (int \<Rightarrow> bool) \<Rightarrow> int \<Rightarrow> nat \<Rightarrow> RequestHeader \<Rightarrow> HalmosFCGI_Pool
   \<Rightarrow> int \<times> int list \<times> HalmosFCGI_Pool" where
  "fcgi_session_http2_create cfg vh quiet created backend_type req p =
     (case choose_node (backend_group cfg vh backend_type) backend_type (rh_client_ip req) p of
        (Node ip port, p1) \<Rightarrow> fcgi_pool_conn_acquire cfg quiet created ip port p1
      | (_, p1) \<Rightarrow> (-1, [], p1))"

record h2_step_env =
  he_pollout :: bool
  he_pollin :: bool
  he_send1 :: send_result
  he_send2 :: send_result
  he_recv :: recv_result
  he_realloc_ok :: bool

fun took_some :: "send_result \<Rightarrow> bool" where
  "took_some (Sent n) \<longleftrightarrow> 0 < n"
| "took_some _ \<longleftrightarrow> False"

text \<open>\<open>errno\<close> after two calls is that of the last one that failed.\<close>

fun send_errno :: "send_result \<Rightarrow> send_result \<Rightarrow> send_result" where
  "send_errno r1 (Sent _) = r1"
| "send_errno _ r2 = r2"

text \<open>State 0: the request is put together.\<close>

definition h2_fcgi_gather :: "Config \<Rightarrow> u32 \<Rightarrow> RequestHeader \<Rightarrow> fcgi_stream \<Rightarrow> fcgi_stream" where
  "h2_fcgi_gather cfg sid req x =
     x\<lparr> fx_gather_buf := snd (fcgi_proto_build_params cfg req (nat (rh_content_length req)) (unat sid) (begin_record (unat sid))),
        fx_g_sent := 0, fx_fcgi_state := 1 \<rparr>"

text \<open>State 1: it is sent.  State 2: the body is sent, header and content of a record with two calls.\<close>

definition h2_step_params :: "h2_step_env \<Rightarrow> RequestHeader \<Rightarrow> fcgi_stream \<Rightarrow> FCGISessionStatus \<times> fcgi_stream \<times> bytes" where
  "h2_step_params e req x =
     (case he_send1 e of
        Sent n \<Rightarrow>
          let g_sent = fx_g_sent x + n; x' = x\<lparr> fx_g_sent := g_sent \<rparr>
          in (FCGI_SES_STATUS_CONTINUE,
              (if 0 < n \<and> length (fx_gather_buf x) \<le> g_sent
               then x'\<lparr> fx_fcgi_state := (if 0 < rh_content_length req \<and> rh_body req \<noteq> [] then 2 else 3) \<rparr> else x'),
              take n (drop (fx_g_sent x) (fx_gather_buf x)))
      | SendAgain \<Rightarrow> (FCGI_SES_STATUS_CONTINUE, x, [])
      | SendFail \<Rightarrow> (FCGI_SES_STATUS_ERROR, x\<lparr> fx_fcgi_state := 5 \<rparr>, []))"

definition h2_stdin_header :: "u32 \<Rightarrow> nat \<Rightarrow> bytes" where
  "h2_stdin_header sid csize = fcgi_header FCGI_STDIN (unat sid) csize 0"

definition h2_step_stdin ::
  "h2_step_env \<Rightarrow> u32 \<Rightarrow> RequestHeader \<Rightarrow> fcgi_stream \<Rightarrow> FCGISessionStatus \<times> fcgi_stream \<times> bytes" where
  "h2_step_stdin e sid req x =
     (let content_len = nat (rh_content_length req);
          finish = (\<lambda>x' out. if content_len \<le> fx_stdin_sent x'
                             then (FCGI_SES_STATUS_CONTINUE, x'\<lparr> fx_fcgi_state := 3 \<rparr>, out @ h2_stdin_header sid 0)
                             else (FCGI_SES_STATUS_CONTINUE, x', out))
      in if fx_stdin_sent x < content_len then
           (let csize = min (content_len - fx_stdin_sent x) 8192;
                out = sent_part (he_send1 e) (h2_stdin_header sid csize)
                      @ sent_part (he_send2 e) (take csize (drop (fx_stdin_sent x) (rh_body req)))
            in if took_some (he_send1 e) \<and> took_some (he_send2 e)
               then finish (x\<lparr> fx_stdin_sent := fx_stdin_sent x + csize \<rparr>) out
               else (case send_errno (he_send1 e) (he_send2 e) of
                       SendAgain \<Rightarrow> (FCGI_SES_STATUS_CONTINUE, x, out)
                     | SendFail \<Rightarrow> (FCGI_SES_STATUS_ERROR, x\<lparr> fx_fcgi_state := 5 \<rparr>, out)
                     | Sent _ \<Rightarrow> finish x out))
         else finish x [])"

text \<open>
  State 3: one read of at most 8192 bytes, and the records in it.  The content of output records goes
  to the buffer as far as it is there; a record that goes on in the next read is not remembered.
\<close>

function h2_fcgi_records :: "bytes \<Rightarrow> bytes \<Rightarrow> bytes" where
  "h2_fcgi_records b header_buffer =
     (if length b < 8 then header_buffer
      else let type = b ! 1; clen = be16 (b ! 4) (b ! 5); plen = unat (b ! 6); b1 = drop 8 b
           in if type = 6 then
                h2_fcgi_records (drop (clen + plen) b1)
                  (header_buffer @ take (min clen (GATHER_BUF_SIZE - length header_buffer - 1)) b1)
              else if type = 3 then header_buffer
              else h2_fcgi_records (drop (clen + plen) b1) header_buffer)"
  by pat_completeness auto
termination by (relation "measure (\<lambda>(b, _). length b)") auto

declare h2_fcgi_records.simps [simp del]

definition h2_step_receive ::
  "h2_step_env \<Rightarrow> HTTP2Stream \<Rightarrow> fcgi_stream \<Rightarrow> FCGISessionStatus \<times> fcgi_stream \<times> h2_action list" where
  "h2_step_receive e st x =
     (case he_recv e of
        Received chunk \<Rightarrow>
          let buf = h2_fcgi_records chunk (fx_header_buffer x);
              s = cstr (text_of buf);
              x1 = x\<lparr> fx_header_buffer := buf \<rparr>
          in (case c_strstr s (NL @ NL) of
                None \<Rightarrow> (FCGI_SES_STATUS_CONTINUE, x1, [])
              | Some delim \<Rightarrow>
                  let at = length s - length delim;
                      heads = (if fx_header_sent x then []
                               else http2_response_send_complex_header (he_realloc_ok e) st (take at s) 0x04)
                  in (FCGI_SES_STATUS_COMPLETED, x1\<lparr> fx_header_buffer := buf[at := 0], fx_header_sent := True, fx_fcgi_state := 4 \<rparr>,
                      heads @ fst (http2_response_send_data (st_stream_id st) (drop (at + 4) buf) True)))
      | RecvAgain \<Rightarrow> (FCGI_SES_STATUS_CONTINUE, x, [])
      | _ \<Rightarrow> (FCGI_SES_STATUS_ERROR, x, []))"

text \<open>The bytes for the backend and the frames for the client.\<close>

definition fcgi_session_http2_step ::
  "Config \<Rightarrow> h2_step_env \<Rightarrow> HTTP2Stream \<Rightarrow> fcgi_stream \<Rightarrow> FCGISessionStatus \<times> fcgi_stream \<times> bytes \<times> h2_action list" where
  "fcgi_session_http2_step cfg e st x0 =
     (if \<not> st_is_fcgi_active st then (FCGI_SES_STATUS_ERROR, x0, [], [])
      else
        let req = st_http1_compat st; sid = st_stream_id st;
            x = (if fx_fcgi_state x0 = 0 then h2_fcgi_gather cfg sid req x0 else x0)
        in if fx_fcgi_state x = 1 then
             (if he_pollout e then (case h2_step_params e req x of (r, x', out) \<Rightarrow> (r, x', out, []))
              else (FCGI_SES_STATUS_CONTINUE, x, [], []))
           else if fx_fcgi_state x = 2 then
             (if he_pollout e then (case h2_step_stdin e sid req x of (r, x', out) \<Rightarrow> (r, x', out, []))
              else (FCGI_SES_STATUS_CONTINUE, x, [], []))
           else if fx_fcgi_state x = 3 then
             (if he_pollin e then (case h2_step_receive e st x of (r, x', acts) \<Rightarrow> (r, x', [], acts))
              else (FCGI_SES_STATUS_CONTINUE, x, [], []))
           else (FCGI_SES_STATUS_CONTINUE, x, [], []))"

section \<open>The router\<close>

record route_env =
  ve_realpath :: "string \<Rightarrow> string option"
  ve_file :: "string \<Rightarrow> file_state"
  ve_quiet :: "int \<Rightarrow> bool"
  ve_created :: int

definition h2_reply :: "HTTP2Stream \<Rightarrow> int \<Rightarrow> string \<Rightarrow> nat \<Rightarrow> h2_action list" where
  "h2_reply st code body n =
     http2_response_send_header st code @ fst (http2_response_send_data (st_stream_id st) (bytes_of body @ replicate (n - length body) 0) True)"

definition route_websocket_upgrade :: "HTTP2Stream \<Rightarrow> h2_action list" where
  "route_websocket_upgrade st = [SendFrame 0x01 0x04 (st_stream_id st) [0x88]]"

definition route_fastcgi_backend ::
  "Config \<Rightarrow> VHostEntry option \<Rightarrow> route_env \<Rightarrow> nat \<Rightarrow> HTTP2Stream \<Rightarrow> HalmosFCGI_Pool
   \<Rightarrow> HTTP2Stream \<times> fcgi_stream option \<times> h2_action list \<times> int list \<times> HalmosFCGI_Pool" where
  "route_fastcgi_backend cfg vh v backend_type st p =
     (case fcgi_session_http2_create cfg vh (ve_quiet v) (ve_created v) backend_type (st_http1_compat st) p of
        (fpm_sock, closed, p') \<Rightarrow>
          if fpm_sock < 0 then (st\<lparr> st_state := state_of_nat 4 \<rparr>, None, h2_reply st 502 ''Bad Gateway'' 11, closed, p')
          else (st\<lparr> st_is_fcgi_active := True \<rparr>,
                Some \<lparr> fx_fpm_fd = fpm_sock, fx_fcgi_state = 0, fx_stdin_sent = 0, fx_header_buffer = [],
                       fx_header_sent = False, fx_gather_buf = [], fx_g_sent = 0 \<rparr>,
                [], closed, p'))"

definition route_static_file ::
  "Config \<Rightarrow> VHostEntry option \<Rightarrow> route_env \<Rightarrow> HTTP2Stream \<Rightarrow> HTTP2Stream \<times> h2_action list \<times> int list" where
  "route_static_file cfg vh v st =
     (let root = (case vh of Some h \<Rightarrow> if vh_root h \<noteq> [] then vh_root h else cf_document_root cfg | None \<Rightarrow> cf_document_root cfg);
          closed_st = st\<lparr> st_state := state_of_nat 4 \<rparr>
      in case sanitize_path (ve_realpath v) root (case rh_uri (st_http1_compat st) of Some u \<Rightarrow> u | None \<Rightarrow> []) of
           None \<Rightarrow> (closed_st, h2_reply st 404 ''Not Found'' 9, [])
         | Some path \<Rightarrow>
             (case ve_file v path of
                NoFile \<Rightarrow> (closed_st, h2_reply st 404 ''Not Found'' 9, [])
              | NotOpened \<Rightarrow> (closed_st, h2_reply st 403 ''Forbidden'' 9, [])
              | File fd n \<Rightarrow>
                  if n = 0
                  then (closed_st, http2_response_send_header st 200
                          @ fst (http2_response_send_data (st_stream_id st) [] True), [fd])
                  else (st\<lparr> st_file_fd := fd, st_file_size := n, st_file_offset := 0, st_is_sending_file := True \<rparr>,
                        http2_response_send_header st 200, [])))"

definition http2_router_bridge ::
  "Config \<Rightarrow> VHostEntry option \<Rightarrow> route_env \<Rightarrow> HTTP2Stream \<Rightarrow> HalmosFCGI_Pool
   \<Rightarrow> HTTP2Stream \<times> fcgi_stream option \<times> h2_action list \<times> int list \<times> HalmosFCGI_Pool" where
  "http2_router_bridge cfg vh v st p =
     (let req = st_http1_compat st
      in if rh_is_upgrade req then (st, None, route_websocket_upgrade st, [], p)
         else case backend_type_of cfg req of
           Some backend_type \<Rightarrow> route_fastcgi_backend cfg vh v backend_type st p
         | None \<Rightarrow>
             let multipart = (rh_method req \<noteq> [] \<and> c_strcasecmp_eq (rh_method req) ''POST''
                   \<and> (case rh_content_type req of Some t \<Rightarrow> c_strstr t ''multipart/form-data'' \<noteq> None | None \<Rightarrow> False));
                 st1 = (if multipart then st\<lparr> st_http1_compat := http2_multipart_parse req \<rparr> else st)
             in case route_static_file cfg vh v st1 of (st2, acts, closed) \<Rightarrow> (st2, None, acts, closed, p))"

section \<open>Properties\<close>

lemma h2_records_short: "length b < 8 \<Longrightarrow> h2_fcgi_records b buf = buf"
  by (simp add: h2_fcgi_records.simps)

lemma h2_records_output:
  assumes "clen < 65536" and "pad < 256" and "clen + length buf < GATHER_BUF_SIZE" and "length part \<le> clen"
  shows "h2_fcgi_records (fcgi_header FCGI_STDOUT i clen pad @ part) buf = buf @ part"
proof -
  let ?b = "fcgi_header FCGI_STDOUT i clen pad @ part"
  have "?b ! 1 = 6" "be16 (?b ! 4) (?b ! 5) = clen" "unat (?b ! 6) = pad" "drop 8 ?b = part" "\<not> length ?b < 8"
    using assms by (simp_all add: fcgi_header_def FCGI_STDOUT_def nth_append be16_byte_of)
  moreover have "drop (clen + pad) part = []" using assms(4) by simp
  ultimately show ?thesis
    using assms by (subst h2_fcgi_records.simps) (simp add: Let_def h2_records_short)
qed

text \<open>C31: over HTTP/2 an answer ends with the read that has the end of its header: when the record goes on
  after what one read of at most 8192 bytes brings, the client still gets only that part of the body,
  with the flag that ends the stream on it, and the request counts as completed, so that the connection,
  with the rest of the answer in it, is given back to the pool.\<close>

theorem h2_answer_cut_at_first_read:
  assumes "st_is_fcgi_active st" and "fx_fcgi_state x = 3" and "fx_header_buffer x = []" and "\<not> fx_header_sent x"
    and "he_pollin e" and "head_ok (hdr @ NL @ NL)" and "body \<noteq> []" and "length body \<le> 8000"
    and "he_recv e = Received (fcgi_header FCGI_STDOUT i clen pad @ bytes_of (hdr @ NL @ NL) @ body)"
    and "length hdr + 4 + length body < clen" and "clen < GATHER_BUF_SIZE" and "pad < 256"
  shows "case fcgi_session_http2_step cfg e st x of (r, x', out, acts) \<Rightarrow>
     r = FCGI_SES_STATUS_COMPLETED \<and>
     acts = http2_response_send_complex_header (he_realloc_ok e) st hdr 0x04 @ [SendFrame 0x00 0x01 (st_stream_id st) body]"
proof -
  define buf where "buf = bytes_of (hdr @ NL @ NL) @ body"
  define s where "s = hdr @ NL @ NL @ cstr (text_of body)"
  define d where "d = NL @ NL @ cstr (text_of body)"
  have recv: "he_recv e = Received (fcgi_header FCGI_STDOUT i clen pad @ buf)"
    using assms(9) by (simp add: buf_def)
  have records: "h2_fcgi_records (fcgi_header FCGI_STDOUT i clen pad @ buf) [] = buf"
    using h2_records_output [of clen pad "[]" buf i] assms(10-12) by (simp add: buf_def GATHER_BUF_SIZE_def NL_def)
  have seen: "cstr (text_of buf) = s"
    using cstr_append [of "hdr @ NL @ NL" "text_of body"] assms(6) by (simp add: buf_def s_def head_ok_def)
  have delim: "c_strstr s (NL @ NL) = Some d"
    using assms(6) memmem_extend [of hdr "NL @ NL" "cstr (text_of body)"]
    by (simp add: head_ok_def c_strstr_memmem s_def d_def)
  have at: "length s - length d = length hdr" by (simp add: s_def d_def)
  have head: "take (length hdr) s = hdr" by (simp add: s_def)
  have rest: "drop (length hdr + 4) buf = body" by (simp add: buf_def bytes_of_def NL_def)
  have frame: "fst (http2_response_send_data (st_stream_id st) body True) = [SendFrame 0x00 0x01 (st_stream_id st) body]"
    using assms(7,8) by (simp add: http2_response_send_data_def data_chunks.simps)
  show ?thesis
    using assms(1-5) by (simp add: fcgi_session_http2_step_def h2_step_receive_def Let_def recv records seen delim at head rest frame)
qed

definition waiting_stream :: HTTP2Stream where
  "waiting_stream = (new_stream idle_session None 1)\<lparr> st_is_fcgi_active := True \<rparr>"

definition waiting_answer :: fcgi_stream where
  "waiting_answer = \<lparr> fx_fpm_fd = 9, fx_fcgi_state = 3, fx_stdin_sent = 0, fx_header_buffer = [],
     fx_header_sent = False, fx_gather_buf = [], fx_g_sent = 0 \<rparr>"

definition first_read :: h2_step_env where
  "first_read = \<lparr> he_pollout = False, he_pollin = True, he_send1 = SendAgain, he_send2 = SendAgain,
     he_recv = Received (fcgi_header FCGI_STDOUT 1 1000 0 @ bytes_of (''A'' @ NL @ NL) @ [5]), he_realloc_ok = True \<rparr>"

theorem h2_answer_cut_at_first_read_witness:
  "case fcgi_session_http2_step empty_config first_read waiting_stream waiting_answer of (r, x', out, acts) \<Rightarrow>
     r = FCGI_SES_STATUS_COMPLETED \<and>
     acts = http2_response_send_complex_header (he_realloc_ok first_read) waiting_stream ''A'' 0x04
       @ [SendFrame 0x00 0x01 (st_stream_id waiting_stream) [5]]"
proof (rule h2_answer_cut_at_first_read [where i = 1 and clen = 1000 and pad = 0])
  show "head_ok (''A'' @ NL @ NL)" using small_head_ok by (simp add: small_head_def)
qed (simp_all add: waiting_stream_def waiting_answer_def first_read_def GATHER_BUF_SIZE_def)

end
