(* ===== verification/Http1_Response.thy ===== *)
theory Http1_Response
  imports Fcgi_Session
begin

text \<open>
  Answers to HTTP/1 clients: src/protocol/http1/halmos_http1_response.c, with the session of a connection
  (include/halmos/halmos_http1_manager.h).

  The sockets do not block.  What they do is given as a list of answers: \<open>Sent n\<close> when there is room for
  \<open>n\<close> bytes (fewer are taken when fewer are offered), and when the list is used up there is no room for
  now.  The file is its bytes at the time of the call, which need not be as many as when the header
  with its size was written.
\<close>

section \<open>The session\<close>

datatype HTTP1State =
    STATE_READ_HEADERS | STATE_READ_BODY | STATE_HANDLE_REQUEST | STATE_SEND_STATIC_FILE
  | STATE_HANDLE_FASTCGI | STATE_FCGI_PROCESSING | STATE_DONE

text \<open>
  The buffer is the bytes received, of which there are \<open>buf_len\<close>; those of the header \<open>header_len\<close>.
  \<open>h1_outside\<close> stands for where the pointers of the request point: into its own \<open>route_result\<close>, for the
  default page and for routes, and not into the buffer.
\<close>

record HTTP1Session =
  h1_buffer :: bytes
  h1_buf_capacity :: nat
  h1_req :: RequestHeader
  h1_state :: HTTP1State
  h1_file_fd :: int
  h1_file_offset :: nat
  h1_file_remaining :: nat
  h1_header_buf :: bytes
  h1_header_sent_offset :: nat
  h1_is_header_sent :: bool
  h1_fcgi_sess :: "HalmosFCGISession option"
  h1_outside :: bool

section \<open>Short answers\<close>

definition CRLF :: string where "CRLF = [CHR 0x0D, CHR 0x0A]"

text \<open>Over TLS a call takes at most 32768 bytes.  What a call leaves is not sent again.\<close>

definition halmos_send_mem :: "bool \<Rightarrow> send_result \<Rightarrow> bytes \<Rightarrow> bytes" where
  "halmos_send_mem is_tls r b = sent_part r (if is_tls then take 32768 b else b)"

definition response_headers :: "int \<Rightarrow> string \<Rightarrow> string \<Rightarrow> nat \<Rightarrow> bool \<Rightarrow> string" where
  "response_headers status msg mime n ka =
     ''HTTP/1.1 '' @ dec_int status @ '' '' @ msg @ CRLF @ ''Content-Type: '' @ mime @ CRLF
     @ ''Content-Length: '' @ dec_nat n @ CRLF
     @ ''Connection: '' @ (if ka then ''keep-alive'' else ''close'') @ CRLF
     @ ''Server: Halmos-Savage/2.1'' @ CRLF @ CRLF"

definition http1_response_send_headers ::
  "send_result \<Rightarrow> int \<Rightarrow> string \<Rightarrow> string \<Rightarrow> nat \<Rightarrow> bool \<Rightarrow> bool \<Rightarrow> bytes" where
  "http1_response_send_headers r status msg mime n ka is_tls =
     halmos_send_mem is_tls r (bytes_of (response_headers status msg mime n ka))"

definition http1_response_send_mem ::
  "send_result \<Rightarrow> send_result \<Rightarrow> int \<Rightarrow> string \<Rightarrow> string \<Rightarrow> bool \<Rightarrow> bool \<Rightarrow> bytes" where
  "http1_response_send_mem r1 r2 status_code status_text content keep_alive is_tls =
     http1_response_send_headers r1 status_code status_text ''text/html'' (length content) keep_alive is_tls
     @ (if content \<noteq> [] then halmos_send_mem is_tls r2 (bytes_of content) else [])"

section \<open>Files over plain sockets\<close>

text \<open>The result is \<open>Some\<close> value when the function returns, \<open>None\<close> when it goes on.\<close>

fun plain_header :: "send_result list \<Rightarrow> HTTP1Session \<Rightarrow> int option \<times> HTTP1Session \<times> bytes \<times> send_result list" where
  "plain_header rs s =
     (if h1_header_sent_offset s < length (h1_header_buf s) then
        (case rs of
           Sent n # rs' \<Rightarrow>
             let left = drop (h1_header_sent_offset s) (h1_header_buf s); k = min n (length left)
             in if 0 < k then
                  (case plain_header rs' (s\<lparr> h1_header_sent_offset := h1_header_sent_offset s + k \<rparr>) of
                     (r, s', out, rs'') \<Rightarrow> (r, s', take k left @ out, rs''))
                else (Some 0, s, [], rs')
         | SendFail # rs' \<Rightarrow> (Some 0, s, [], rs')
         | SendAgain # rs' \<Rightarrow> (Some 3, s, [], rs')
         | [] \<Rightarrow> (Some 3, s, [], []))
      else (None, s\<lparr> h1_is_header_sent := True \<rparr>, [], rs))"

declare plain_header.simps [simp del]

fun plain_file :: "bytes \<Rightarrow> send_result list \<Rightarrow> HTTP1Session \<Rightarrow> int \<times> HTTP1Session \<times> bytes \<times> send_result list" where
  "plain_file content rs s =
     (if 0 < h1_file_remaining s then
        (case rs of
           Sent n # rs' \<Rightarrow>
             let left = take (h1_file_remaining s) (drop (h1_file_offset s) content); k = min n (length left)
             in if 0 < k then
                  (case plain_file content rs' (s\<lparr> h1_file_offset := h1_file_offset s + k,
                                                   h1_file_remaining := h1_file_remaining s - k \<rparr>) of
                     (r, s', out, rs'') \<Rightarrow> (r, s', take k left @ out, rs''))
                else (0, s, [], rs')
         | SendFail # rs' \<Rightarrow> (0, s, [], rs')
         | SendAgain # rs' \<Rightarrow> (3, s, [], rs')
         | [] \<Rightarrow> (3, s, [], []))
      else (1, s, [], rs))"

declare plain_file.simps [simp del]

definition http1_response_plain :: "bytes \<Rightarrow> send_result list \<Rightarrow> HTTP1Session \<Rightarrow> int \<times> HTTP1Session \<times> bytes" where
  "http1_response_plain content rs s =
     (case (if h1_is_header_sent s then (None, s, [], rs) else plain_header rs s) of
        (Some r, s1, out, _) \<Rightarrow> (r, s1, out)
      | (None, s1, out, rs1) \<Rightarrow>
          if 0 \<le> h1_file_fd s1 \<and> 0 < h1_file_remaining s1 then
            (case plain_file content rs1 s1 of (r, s2, out2, _) \<Rightarrow> (r, s2, out @ out2))
          else (1, s1, out))"

section \<open>Files over TLS\<close>

datatype ssl_result = SslSent nat | SslWantWrite | SslWantRead | SslFail

fun ssl_refused :: "ssl_result list \<Rightarrow> int" where
  "ssl_refused (SslWantRead # _) = 2"
| "ssl_refused (SslFail # _) = 0"
| "ssl_refused (SslSent _ # _) = 0"
| "ssl_refused _ = 3"

fun ssl_header :: "ssl_result list \<Rightarrow> HTTP1Session \<Rightarrow> int option \<times> HTTP1Session \<times> bytes \<times> ssl_result list" where
  "ssl_header rs s =
     (if h1_header_sent_offset s < length (h1_header_buf s) then
        (case rs of
           SslSent n # rs' \<Rightarrow>
             let left = drop (h1_header_sent_offset s) (h1_header_buf s); k = min n (length left)
             in if 0 < k then
                  (case ssl_header rs' (s\<lparr> h1_header_sent_offset := h1_header_sent_offset s + k \<rparr>) of
                     (r, s', out, rs'') \<Rightarrow> (r, s', take k left @ out, rs''))
                else (Some (ssl_refused rs), s, [], rs')
         | _ \<Rightarrow> (Some (ssl_refused rs), s, [], tl rs))
      else (None, s\<lparr> h1_is_header_sent := True \<rparr>, [], rs))"

declare ssl_header.simps [simp del]

text \<open>
  A chunk of at most 16384 bytes is read anew for each call.  At the end of the file the loop ends, and
  the file counts as sent whatever was left of its size.
\<close>

fun ssl_file :: "bytes \<Rightarrow> ssl_result list \<Rightarrow> HTTP1Session \<Rightarrow> int \<times> HTTP1Session \<times> bytes \<times> ssl_result list" where
  "ssl_file content rs s =
     (if 0 < h1_file_remaining s then
        let chunk = take (min (h1_file_remaining s) 16384) (drop (h1_file_offset s) content)
        in if chunk = [] then (1, s, [], rs)
           else
             (case rs of
                SslSent n # rs' \<Rightarrow>
                  let k = min n (length chunk)
                  in if 0 < k then
                       (case ssl_file content rs' (s\<lparr> h1_file_offset := h1_file_offset s + k,
                                                      h1_file_remaining := h1_file_remaining s - k \<rparr>) of
                          (r, s', out, rs'') \<Rightarrow> (r, s', take k chunk @ out, rs''))
                     else (ssl_refused rs, s, [], rs')
              | _ \<Rightarrow> (ssl_refused rs, s, [], tl rs))
      else (1, s, [], rs))"

declare ssl_file.simps [simp del]

definition http1_response_ssl :: "bytes \<Rightarrow> ssl_result list \<Rightarrow> HTTP1Session \<Rightarrow> int \<times> HTTP1Session \<times> bytes" where
  "http1_response_ssl content rs s =
     (case (if h1_is_header_sent s then (None, s, [], rs) else ssl_header rs s) of
        (Some r, s1, out, _) \<Rightarrow> (r, s1, out)
      | (None, s1, out, rs1) \<Rightarrow>
          if 0 \<le> h1_file_fd s1 \<and> 0 < h1_file_remaining s1 then
            (case ssl_file content rs1 s1 of (r, s2, out2, _) \<Rightarrow> (r, s2, out @ out2))
          else (1, s1, out))"

section \<open>Interface: a transfer that is resumed\<close>

text \<open>
  Both senders are called again each time the socket has room.  Their contract is that what goes out is
  taken from the front of what there is to send, and that a call that reports the end has sent all of
  it.  A whole transfer, whatever interrupted it, is then what was to send at the start.
\<close>

fun transfer :: "('e \<Rightarrow> 's \<Rightarrow> int \<times> 's \<times> bytes) \<Rightarrow> 'e list \<Rightarrow> 's \<Rightarrow> int \<times> 's \<times> bytes" where
  "transfer sender [] s = (3, s, [])"
| "transfer sender (e # es) s =
     (case sender e s of
        (r, s', out) \<Rightarrow>
          if r = 2 \<or> r = 3 then (case transfer sender es s' of (r', s'', out') \<Rightarrow> (r', s'', out @ out'))
          else (r, s', out))"

locale resumable =
  fixes sender :: "'e \<Rightarrow> 's \<Rightarrow> int \<times> 's \<times> bytes"
    and pending :: "'s \<Rightarrow> bytes"
    and ready :: "'s \<Rightarrow> bool"
  assumes sender_keeps: "ready s \<Longrightarrow> sender e s = (r, s', out) \<Longrightarrow> ready s' \<and> out @ pending s' = pending s"
    and sender_ends: "ready s \<Longrightarrow> sender e s = (1, s', out) \<Longrightarrow> pending s' = []"
begin

lemma transfer_keeps: "ready s \<Longrightarrow> transfer sender es s = (r, s', out) \<Longrightarrow> out @ pending s' = pending s"
proof (induction es arbitrary: s r s' out)
  case (Cons e es)
  obtain r1 s1 out1 where step: "sender e s = (r1, s1, out1)" by (metis prod_cases3)
  note k = sender_keeps [OF Cons.prems(1) step]
  show ?case
  proof (cases "r1 = 2 \<or> r1 = 3")
    case True
    obtain r2 s2 out2 where "transfer sender es s1 = (r2, s2, out2)" by (metis prod_cases3)
    moreover from this have "out2 @ pending s2 = pending s1" using k Cons.IH by blast
    ultimately show ?thesis using Cons.prems(2) step True k by auto
  qed (use Cons.prems step k in auto)
qed simp

lemma transfer_ends: "ready s \<Longrightarrow> transfer sender es s = (1, s', out) \<Longrightarrow> out = pending s"
proof (induction es arbitrary: s s' out)
  case (Cons e es)
  obtain r1 s1 out1 where step: "sender e s = (r1, s1, out1)" by (metis prod_cases3)
  note k = sender_keeps [OF Cons.prems(1) step]
  show ?case
  proof (cases "r1 = 2 \<or> r1 = 3")
    case True
    obtain r2 s2 out2 where t: "transfer sender es s1 = (r2, s2, out2)" by (metis prod_cases3)
    with True step Cons.prems(2) have "r2 = 1" "out = out1 @ out2" by auto
    then show ?thesis using Cons.IH [of s1 s2 out2] k t by auto
  next
    case False
    then have "r1 = 1" "s' = s1" "out = out1" using Cons.prems(2) step by auto
    then show ?thesis using k sender_ends [OF Cons.prems(1)] step by auto
  qed
qed simp

end

text \<open>
  A sender that gets on: given room, it ends or has less to send.  A transfer with enough calls that find
  room then ends.
\<close>

locale lively_resumable = resumable +
  fixes lively :: "'a \<Rightarrow> bool"
  assumes sender_gets_on: "ready s \<Longrightarrow> lively e \<Longrightarrow> sender e s = (r, s', out) \<Longrightarrow>
      r = 1 \<or> (r = 2 \<or> r = 3) \<and> length (pending s') < length (pending s)"
begin

lemma transfer_finishes:
  "ready s \<Longrightarrow> \<forall>e \<in> set es. lively e \<Longrightarrow> length (pending s) < length es \<Longrightarrow> fst (transfer sender es s) = 1"
proof (induction es arbitrary: s)
  case (Cons e es)
  obtain r s' out where step: "sender e s = (r, s', out)" by (metis prod_cases3)
  with sender_gets_on [OF Cons.prems(1) _ step] Cons.prems(2)
  consider "r = 1" | "r = 2 \<or> r = 3" "length (pending s') < length (pending s)" by auto
  then show ?case
  proof cases
    case 2
    then have "fst (transfer sender es s') = 1"
      using Cons.prems sender_keeps [OF Cons.prems(1) step] by (intro Cons.IH) auto
    then show ?thesis using step 2 by (auto simp: case_prod_unfold)
  qed (simp add: step)
qed simp

end

text \<open>What a session has left to send.  The descriptor counts only for the file.\<close>

definition h1_pending :: "bytes \<Rightarrow> HTTP1Session \<Rightarrow> bytes" where
  "h1_pending content s =
     (if h1_is_header_sent s then [] else drop (h1_header_sent_offset s) (h1_header_buf s))
     @ take (h1_file_remaining s) (drop (h1_file_offset s) content)"

definition h1_sending :: "bytes \<Rightarrow> HTTP1Session \<Rightarrow> bool" where
  "h1_sending content s \<longleftrightarrow> 0 \<le> h1_file_fd s \<and> h1_file_offset s + h1_file_remaining s \<le> length content"

lemma take_take_drop: "k \<le> n \<Longrightarrow> take k (take n (drop m xs)) @ take (n - k) (drop (m + k) xs) = take n (drop m xs)"
  by (metis add.commute drop_drop le_add_diff_inverse min.absorb1 take_add take_take)

lemma take_drop_more: "take k (drop m xs) @ drop (m + k) xs = drop m xs"
  by (metis add.commute append_take_drop_id drop_drop)

definition header_kept :: "HTTP1Session \<Rightarrow> int option \<Rightarrow> HTTP1Session \<Rightarrow> bytes \<Rightarrow> bool" where
  "header_kept s r s' out \<longleftrightarrow>
     s' = s\<lparr> h1_header_sent_offset := h1_header_sent_offset s', h1_is_header_sent := h1_is_header_sent s' \<rparr>
     \<and> out @ drop (h1_header_sent_offset s') (h1_header_buf s) = drop (h1_header_sent_offset s) (h1_header_buf s)
     \<and> (case r of None \<Rightarrow> h1_is_header_sent s' \<and> length (h1_header_buf s) \<le> h1_header_sent_offset s'
          | Some v \<Rightarrow> v \<noteq> 1 \<and> h1_is_header_sent s' = h1_is_header_sent s)"

definition file_kept :: "bytes \<Rightarrow> HTTP1Session \<Rightarrow> int \<Rightarrow> HTTP1Session \<Rightarrow> bytes \<Rightarrow> bool" where
  "file_kept content s r s' out \<longleftrightarrow>
     s' = s\<lparr> h1_file_offset := h1_file_offset s', h1_file_remaining := h1_file_remaining s' \<rparr>
     \<and> h1_file_offset s' + h1_file_remaining s' = h1_file_offset s + h1_file_remaining s
     \<and> out @ take (h1_file_remaining s') (drop (h1_file_offset s') content)
         = take (h1_file_remaining s) (drop (h1_file_offset s) content)
     \<and> (r = 1 \<longrightarrow> h1_file_remaining s' = 0)"

lemma header_kept_end [intro]:
  "length (h1_header_buf s) \<le> h1_header_sent_offset s \<Longrightarrow> header_kept s None (s\<lparr> h1_is_header_sent := True \<rparr>) []"
  "v \<noteq> 1 \<Longrightarrow> header_kept s (Some v) s []"
  by (simp_all add: header_kept_def)

lemma header_kept_more:
  assumes "header_kept (s\<lparr> h1_header_sent_offset := h1_header_sent_offset s + k \<rparr>) r s' out"
  shows "header_kept s r s' (take k (drop (h1_header_sent_offset s) (h1_header_buf s)) @ out)"
proof -
  have "s' = s\<lparr> h1_header_sent_offset := h1_header_sent_offset s', h1_is_header_sent := h1_is_header_sent s' \<rparr>"
    using assms by (simp add: header_kept_def)
  moreover have "(take k (drop (h1_header_sent_offset s) (h1_header_buf s)) @ out) @ drop (h1_header_sent_offset s') (h1_header_buf s)
      = drop (h1_header_sent_offset s) (h1_header_buf s)"
    using assms take_drop_more [of k "h1_header_sent_offset s" "h1_header_buf s"] by (simp add: header_kept_def)
  ultimately show ?thesis using assms by (simp add: header_kept_def split: option.splits)
qed

lemma file_kept_end [intro]: "r = 1 \<longrightarrow> h1_file_remaining s = 0 \<Longrightarrow> file_kept content s r s []"
  by (simp add: file_kept_def)

lemma file_kept_more:
  assumes "k \<le> n" "n \<le> h1_file_remaining s"
    and "file_kept content (s\<lparr> h1_file_offset := h1_file_offset s + k, h1_file_remaining := h1_file_remaining s - k \<rparr>) r s' out"
  shows "file_kept content s r s' (take k (take n (drop (h1_file_offset s) content)) @ out)"
proof -
  have "s' = s\<lparr> h1_file_offset := h1_file_offset s', h1_file_remaining := h1_file_remaining s' \<rparr>"
    using assms(3) by (simp add: file_kept_def)
  moreover have "take k (take n xs) = take k (take (h1_file_remaining s) xs)" for xs :: bytes
    using assms(1,2) by (simp add: min_def)
  then have "(take k (take n (drop (h1_file_offset s) content)) @ out)
        @ take (h1_file_remaining s') (drop (h1_file_offset s') content)
      = take (h1_file_remaining s) (drop (h1_file_offset s) content)"
    using assms take_take_drop [of k "h1_file_remaining s" "h1_file_offset s" content] by (simp add: file_kept_def)
  ultimately show ?thesis using assms by (simp add: file_kept_def)
qed

lemma plain_header_kept: "plain_header rs s = (r, s', out, rs') \<Longrightarrow> header_kept s r s' out"
proof (induction rs arbitrary: s r s' out rs')
  case Nil
  then show ?case by (subst (asm) plain_header.simps) (auto split: if_splits)
next
  case (Cons e rs)
  show ?case
  proof (cases e)
    case (Sent n)
    let ?left = "drop (h1_header_sent_offset s) (h1_header_buf s)"
    let ?k = "min n (length ?left)"
    show ?thesis
    proof (cases "h1_header_sent_offset s < length (h1_header_buf s) \<and> 0 < ?k")
      case True
      obtain r1 s1 out1 rs1 where rec: "plain_header rs (s\<lparr> h1_header_sent_offset := h1_header_sent_offset s + ?k \<rparr>) = (r1, s1, out1, rs1)"
        by (metis prod_cases4)
      with Cons.prems True Sent have "r = r1" "s' = s1" "out = take ?k ?left @ out1"
        by (subst (asm) plain_header.simps, simp)+
      then show ?thesis using header_kept_more [OF Cons.IH [OF rec]] by simp
    next
      case False
      then show ?thesis using Cons.prems Sent by (subst (asm) plain_header.simps) (auto simp: Let_def split: if_splits)
    qed
  qed (use Cons.prems in \<open>subst (asm) plain_header.simps, auto split: if_splits\<close>)+
qed

lemma ssl_refused_ne [simp]: "ssl_refused rs \<noteq> 1"
  by (cases rs rule: ssl_refused.cases) simp_all

lemma ssl_header_kept: "ssl_header rs s = (r, s', out, rs') \<Longrightarrow> header_kept s r s' out"
proof (induction rs arbitrary: s r s' out rs')
  case Nil
  then show ?case by (subst (asm) ssl_header.simps) (auto split: if_splits)
next
  case (Cons e rs)
  show ?case
  proof (cases e)
    case (SslSent n)
    let ?left = "drop (h1_header_sent_offset s) (h1_header_buf s)"
    let ?k = "min n (length ?left)"
    show ?thesis
    proof (cases "h1_header_sent_offset s < length (h1_header_buf s) \<and> 0 < ?k")
      case True
      obtain r1 s1 out1 rs1 where rec: "ssl_header rs (s\<lparr> h1_header_sent_offset := h1_header_sent_offset s + ?k \<rparr>) = (r1, s1, out1, rs1)"
        by (metis prod_cases4)
      with Cons.prems True SslSent have "r = r1" "s' = s1" "out = take ?k ?left @ out1"
        by (subst (asm) ssl_header.simps, simp)+
      then show ?thesis using header_kept_more [OF Cons.IH [OF rec]] by simp
    next
      case False
      then show ?thesis using Cons.prems SslSent by (subst (asm) ssl_header.simps) (auto simp: Let_def split: if_splits)
    qed
  qed (use Cons.prems in \<open>subst (asm) ssl_header.simps, auto split: if_splits\<close>)+
qed

lemma plain_file_kept: "plain_file content rs s = (r, s', out, rs') \<Longrightarrow> file_kept content s r s' out"
proof (induction rs arbitrary: s r s' out rs')
  case Nil
  then show ?case by (subst (asm) plain_file.simps) (auto split: if_splits)
next
  case (Cons e rs)
  show ?case
  proof (cases e)
    case (Sent n)
    let ?left = "take (h1_file_remaining s) (drop (h1_file_offset s) content)"
    let ?k = "min n (length ?left)"
    show ?thesis
    proof (cases "0 < h1_file_remaining s \<and> 0 < ?k")
      case True
      obtain r1 s1 out1 rs1 where rec: "plain_file content rs
          (s\<lparr> h1_file_offset := h1_file_offset s + ?k, h1_file_remaining := h1_file_remaining s - ?k \<rparr>) = (r1, s1, out1, rs1)"
        by (metis prod_cases4)
      with Cons.prems True Sent have "r = r1" "s' = s1" "out = take ?k ?left @ out1"
        by (subst (asm) plain_file.simps, simp)+
      then show ?thesis using file_kept_more [OF _ order.refl Cons.IH [OF rec]] by simp
    next
      case False
      then show ?thesis using Cons.prems Sent by (subst (asm) plain_file.simps) (auto simp: Let_def split: if_splits)
    qed
  qed (use Cons.prems in \<open>subst (asm) plain_file.simps, auto split: if_splits\<close>)+
qed

lemma ssl_file_step:
  assumes "0 < h1_file_remaining s"
    and "take (min (h1_file_remaining s) 16384) (drop (h1_file_offset s) content) = chunk" and "min n (length chunk) = k" and "0 < k"
  shows "ssl_file content (SslSent n # rs) s =
    (case ssl_file content rs (s\<lparr> h1_file_offset := h1_file_offset s + k, h1_file_remaining := h1_file_remaining s - k \<rparr>) of
       (r, s', out, rs'') \<Rightarrow> (r, s', take k chunk @ out, rs''))"
proof -
  have "chunk \<noteq> []" using assms(3,4) by auto
  then show ?thesis using assms(1,4) by (subst ssl_file.simps) (simp add: assms(2,3) Let_def del: take_eq_Nil)
qed

lemma ssl_file_simps:
  "h1_file_remaining s = 0 \<Longrightarrow> ssl_file content rs s = (1, s, [], rs)"
  "0 < h1_file_remaining s \<Longrightarrow> h1_file_offset s < length content \<Longrightarrow> ssl_file content [] s = (3, s, [], [])"
  "0 < h1_file_remaining s \<Longrightarrow> h1_file_offset s < length content \<Longrightarrow> ssl_file content (SslSent 0 # rs) s = (0, s, [], rs)"
  "0 < h1_file_remaining s \<Longrightarrow> h1_file_offset s < length content \<Longrightarrow> ssl_file content (SslWantRead # rs) s = (2, s, [], rs)"
  "0 < h1_file_remaining s \<Longrightarrow> h1_file_offset s < length content \<Longrightarrow> ssl_file content (SslWantWrite # rs) s = (3, s, [], rs)"
  "0 < h1_file_remaining s \<Longrightarrow> h1_file_offset s < length content \<Longrightarrow> ssl_file content (SslFail # rs) s = (0, s, [], rs)"
  by (subst ssl_file.simps, simp add: Let_def min_def)+

lemma ssl_file_stop:
  assumes "ssl_file content rs s = (r, s', out, rs')"
    and "h1_file_offset s + h1_file_remaining s \<le> length content"
    and "h1_file_remaining s = 0 \<or> (case rs of SslSent n # _ \<Rightarrow> n = 0 | _ \<Rightarrow> True)"
  shows "file_kept content s r s' out"
proof (cases "h1_file_remaining s = 0")
  case False
  with assms(2) have "0 < h1_file_remaining s" "h1_file_offset s < length content" by simp_all
  note stops = ssl_file_simps(2-) [OF this]
  show ?thesis
    using assms(1,3) False by (cases rs; cases "hd rs") (auto simp: stops file_kept_end)
qed (use assms in \<open>auto simp: ssl_file_simps file_kept_end\<close>)

lemma ssl_file_kept:
  "h1_file_offset s + h1_file_remaining s \<le> length content \<Longrightarrow> ssl_file content rs s = (r, s', out, rs')
     \<Longrightarrow> file_kept content s r s' out"
proof (induction rs arbitrary: s r s' out rs')
  case Nil
  then show ?case by (simp add: ssl_file_stop)
next
  case (Cons e rs)
  let ?n = "min (h1_file_remaining s) 16384"
  obtain chunk where chunk: "take ?n (drop (h1_file_offset s) content) = chunk" by blast
  show ?case
  proof (cases "0 < h1_file_remaining s \<and> (\<exists>n. e = SslSent n \<and> 0 < n)")
    case True
    then obtain n where n: "e = SslSent n" "0 < n" "0 < h1_file_remaining s" by blast
    obtain k where k: "min n (length chunk) = k" by blast
    have len: "length chunk = ?n" using Cons.prems(1) chunk by auto
    then have pos: "0 < k" using n k by auto
    obtain r1 s1 out1 rs1 where rec: "ssl_file content rs
        (s\<lparr> h1_file_offset := h1_file_offset s + k, h1_file_remaining := h1_file_remaining s - k \<rparr>) = (r1, s1, out1, rs1)"
      by (metis prod_cases4)
    have eqs: "r = r1" "s' = s1" "out = take k chunk @ out1"
      using Cons.prems(2) ssl_file_step [OF n(3) chunk k pos, of rs] rec n(1) by simp_all
    have "h1_file_offset s + k + (h1_file_remaining s - k) \<le> length content" using Cons.prems(1) k len by auto
    then have "file_kept content (s\<lparr> h1_file_offset := h1_file_offset s + k, h1_file_remaining := h1_file_remaining s - k \<rparr>) r1 s1 out1"
      by (intro Cons.IH [OF _ rec]) simp
    moreover have "k \<le> ?n" using k len by auto
    ultimately show ?thesis unfolding eqs chunk [symmetric] by (intro file_kept_more) simp_all
  next
    case False
    then show ?thesis using Cons.prems by (intro ssl_file_stop [of content "e # rs" s r s' out rs']) (auto split: ssl_result.splits)
  qed
qed

definition answered :: "bytes \<Rightarrow> HTTP1Session \<Rightarrow> int \<Rightarrow> HTTP1Session \<Rightarrow> bytes \<Rightarrow> bool" where
  "answered content s r s' out \<longleftrightarrow>
     h1_sending content s' \<and> out @ h1_pending content s' = h1_pending content s \<and> (r = 1 \<longrightarrow> h1_pending content s' = [])"

lemma header_kept_fields:
  assumes "header_kept s r s' out"
  shows "h1_header_buf s' = h1_header_buf s \<and> h1_file_fd s' = h1_file_fd s \<and> h1_file_offset s' = h1_file_offset s
    \<and> h1_file_remaining s' = h1_file_remaining s"
proof -
  obtain a b where "s' = s\<lparr> h1_header_sent_offset := a, h1_is_header_sent := b \<rparr>"
    using assms unfolding header_kept_def by blast
  then show ?thesis by simp
qed

lemma file_kept_fields:
  assumes "file_kept content s r s' out"
  shows "h1_header_buf s' = h1_header_buf s \<and> h1_file_fd s' = h1_file_fd s
    \<and> h1_header_sent_offset s' = h1_header_sent_offset s \<and> h1_is_header_sent s' = h1_is_header_sent s"
proof -
  obtain a b where "s' = s\<lparr> h1_file_offset := a, h1_file_remaining := b \<rparr>"
    using assms unfolding file_kept_def by blast
  then show ?thesis by simp
qed

lemma header_part_answered:
  assumes "header_kept s (Some v) s' out" and "\<not> h1_is_header_sent s" and "h1_sending content s"
  shows "answered content s v s' out"
  using header_kept_fields [OF assms(1)] assms
  by (auto simp: answered_def header_kept_def h1_sending_def h1_pending_def)

lemma header_done:
  assumes "header_kept s None s' out" and "\<not> h1_is_header_sent s"
  shows "h1_is_header_sent s' \<and> (h1_sending content s' \<longleftrightarrow> h1_sending content s)
    \<and> out @ h1_pending content s' = h1_pending content s"
  using header_kept_fields [OF assms(1)] assms
  by (auto simp: header_kept_def h1_sending_def h1_pending_def)

lemma file_answered:
  assumes "file_kept content s r s' out" and "h1_is_header_sent s" and "h1_sending content s"
  shows "answered content s r s' out"
  using file_kept_fields [OF assms(1)] assms
  by (auto simp: answered_def file_kept_def h1_sending_def h1_pending_def)

text \<open>The header, when it is not out yet, and then the file: the shape both senders have.\<close>

lemma response_answered:
  assumes "(if h1_is_header_sent s then (None, s, [], rs) else header) = (r1, s1, out1, rs1)"
    and "\<And>r s' out rs'. header = (r, s', out, rs') \<Longrightarrow> header_kept s r s' out"
    and "\<And>r s' out rs'. body = (r, s', out, rs') \<Longrightarrow> file_kept content s1 r s' out"
    and "h1_sending content s"
    and "(case r1 of Some r \<Rightarrow> (r, s1, out1)
       | None \<Rightarrow> if 0 \<le> h1_file_fd s1 \<and> 0 < h1_file_remaining s1
                then (case body of (r, s2, out2, _) \<Rightarrow> (r, s2, out1 @ out2)) else (1, s1, out1)) = (r, s', out)"
  shows "answered content s r s' out"
proof (cases r1)
  case (Some v)
  then show ?thesis using assms header_part_answered by (fastforce split: if_splits)
next
  case None
  have start: "h1_is_header_sent s1 \<and> h1_sending content s1 \<and> out1 @ h1_pending content s1 = h1_pending content s"
  proof (cases "h1_is_header_sent s")
    case True
    then show ?thesis using assms(1,4) by auto
  next
    case False
    then have "header_kept s None s1 out1" using assms(1,2) None by auto
    from header_done [OF this False] assms(4) show ?thesis by blast
  qed
  obtain r2 s2 out2 rs2 where f: "body = (r2, s2, out2, rs2)" by (metis prod_cases4)
  show ?thesis
  proof (cases "0 < h1_file_remaining s1")
    case True
    then have "r = r2" "s' = s2" "out = out1 @ out2" using assms(5) None f start by (auto simp: h1_sending_def)
    moreover have "answered content s1 r2 s2 out2" using file_answered [OF assms(3) [OF f]] start by blast
    ultimately show ?thesis using start by (auto simp: answered_def)
  next
    case False
    then have "r = 1" "s' = s1" "out = out1" using assms(5) None by auto
    then show ?thesis using start False by (auto simp: answered_def h1_pending_def)
  qed
qed

lemma plain_answered:
  assumes "h1_sending content s" and "http1_response_plain content rs s = (r, s', out)"
  shows "answered content s r s' out"
proof -
  obtain r1 s1 out1 rs1 where head: "(if h1_is_header_sent s then (None, s, [], rs) else plain_header rs s) = (r1, s1, out1, rs1)"
    by (metis prod_cases4)
  show ?thesis
    by (rule response_answered [OF head plain_header_kept plain_file_kept assms(1)
          assms(2) [unfolded http1_response_plain_def head prod.case]])
qed

lemma ssl_answered:
  assumes "h1_sending content s" and "http1_response_ssl content rs s = (r, s', out)"
  shows "answered content s r s' out"
proof -
  obtain r1 s1 out1 rs1 where head: "(if h1_is_header_sent s then (None, s, [], rs) else ssl_header rs s) = (r1, s1, out1, rs1)"
    by (metis prod_cases4)
  have "h1_file_offset s1 = h1_file_offset s \<and> h1_file_remaining s1 = h1_file_remaining s"
    using head ssl_header_kept [THEN header_kept_fields] by (fastforce split: if_splits)
  then have fits: "h1_file_offset s1 + h1_file_remaining s1 \<le> length content" using assms(1) by (simp add: h1_sending_def)
  show ?thesis
    by (rule response_answered [OF head ssl_header_kept ssl_file_kept [OF fits] assms(1)
          assms(2) [unfolded http1_response_ssl_def head prod.case]])
qed

text \<open>Given room for at least a byte first, and no error, a call sends something or ends.\<close>

fun room :: "send_result \<Rightarrow> bool" where
  "room (Sent n) \<longleftrightarrow> 0 < n"
| "room SendAgain \<longleftrightarrow> True"
| "room SendFail \<longleftrightarrow> False"

definition willing :: "send_result list \<Rightarrow> bool" where
  "willing rs \<longleftrightarrow> rs \<noteq> [] \<and> hd rs \<noteq> SendAgain \<and> (\<forall>a \<in> set rs. room a)"

lemma plain_header_simps:
  "length (h1_header_buf s) \<le> h1_header_sent_offset s \<Longrightarrow> plain_header rs s = (None, s\<lparr> h1_is_header_sent := True \<rparr>, [], rs)"
  "h1_header_sent_offset s < length (h1_header_buf s) \<Longrightarrow> plain_header [] s = (Some 3, s, [], [])"
  "h1_header_sent_offset s < length (h1_header_buf s) \<Longrightarrow> plain_header (SendAgain # rs) s = (Some 3, s, [], rs)"
  by (subst plain_header.simps, simp)+

lemma plain_header_step:
  assumes "h1_header_sent_offset s < length (h1_header_buf s)"
    and "min n (length (drop (h1_header_sent_offset s) (h1_header_buf s))) = k" and "0 < k"
  shows "plain_header (Sent n # rs) s =
    (case plain_header rs (s\<lparr> h1_header_sent_offset := h1_header_sent_offset s + k \<rparr>) of
       (r, s', out, rs'') \<Rightarrow> (r, s', take k (drop (h1_header_sent_offset s) (h1_header_buf s)) @ out, rs''))"
proof -
  have "n \<noteq> 0" using assms(2,3) by auto
  then show ?thesis using assms(1,3) by (subst plain_header.simps) (simp add: assms(2) Let_def del: length_drop)
qed

lemma plain_file_simps:
  "h1_file_remaining s = 0 \<Longrightarrow> plain_file content rs s = (1, s, [], rs)"
  "0 < h1_file_remaining s \<Longrightarrow> plain_file content [] s = (3, s, [], [])"
  "0 < h1_file_remaining s \<Longrightarrow> plain_file content (SendAgain # rs) s = (3, s, [], rs)"
  by (subst plain_file.simps, simp)+

lemma plain_file_step:
  assumes "0 < h1_file_remaining s"
    and "take (h1_file_remaining s) (drop (h1_file_offset s) content) = left" and "min n (length left) = k" and "0 < k"
  shows "plain_file content (Sent n # rs) s =
    (case plain_file content rs (s\<lparr> h1_file_offset := h1_file_offset s + k, h1_file_remaining := h1_file_remaining s - k \<rparr>) of
       (r, s', out, rs'') \<Rightarrow> (r, s', take k left @ out, rs''))"
proof -
  have "n \<noteq> 0" "left \<noteq> []" using assms(3,4) by auto
  then show ?thesis using assms(1,4) by (subst plain_file.simps) (simp add: assms(2,3) Let_def)
qed

lemma plain_header_room:
  "plain_header rs s = (r, s', out, rs') \<Longrightarrow> \<forall>a \<in> set rs. room a \<Longrightarrow>
     r \<in> {None, Some 3} \<and> set rs' \<subseteq> set rs
     \<and> (h1_header_sent_offset s < length (h1_header_buf s) \<longrightarrow> willing rs \<longrightarrow> out \<noteq> [])
     \<and> (length (h1_header_buf s) \<le> h1_header_sent_offset s \<longrightarrow> rs' = rs \<and> r = None)"
proof (induction rs arbitrary: s r s' out rs')
  case Nil
  then show ?case by (subst (asm) plain_header.simps) (auto simp: willing_def split: if_splits)
next
  case (Cons e rs)
  show ?case
  proof (cases "h1_header_sent_offset s < length (h1_header_buf s) \<and> (\<exists>n. e = Sent n)")
    case True
    then obtain n where n: "e = Sent n" "0 < n" using Cons.prems(2) by auto
    let ?left = "drop (h1_header_sent_offset s) (h1_header_buf s)"
    obtain k where k: "min n (length ?left) = k" "0 < k" using True n by auto
    obtain r1 s1 out1 rs1 where rec: "plain_header rs (s\<lparr> h1_header_sent_offset := h1_header_sent_offset s + k \<rparr>) = (r1, s1, out1, rs1)"
      by (metis prod_cases4)
    with Cons.prems(1) plain_header_step [of s n k rs] True n k have "r = r1" "rs' = rs1" "out = take k ?left @ out1"
      by simp_all
    then show ?thesis using Cons.IH [OF rec] Cons.prems(2) True k by auto
  next
    case False
    then show ?thesis using Cons.prems
      by (cases e; cases "h1_header_sent_offset s < length (h1_header_buf s)") (auto simp: willing_def plain_header_simps not_less)
  qed
qed

lemma plain_file_room:
  "plain_file content rs s = (r, s', out, rs') \<Longrightarrow> \<forall>a \<in> set rs. room a \<Longrightarrow>
     h1_file_offset s + h1_file_remaining s \<le> length content \<Longrightarrow>
     r \<in> {1, 3} \<and> (0 < h1_file_remaining s \<longrightarrow> willing rs \<longrightarrow> out \<noteq> [])"
proof (induction rs arbitrary: s r s' out rs')
  case Nil
  then show ?case by (subst (asm) plain_file.simps) (auto simp: willing_def split: if_splits)
next
  case (Cons e rs)
  show ?case
  proof (cases "0 < h1_file_remaining s \<and> (\<exists>n. e = Sent n)")
    case True
    then obtain n where n: "e = Sent n" "0 < n" using Cons.prems(2) by auto
    obtain left where left: "take (h1_file_remaining s) (drop (h1_file_offset s) content) = left" by blast
    have len: "length left = h1_file_remaining s" using Cons.prems(3) left by auto
    obtain k where k: "min n (length left) = k" "0 < k" "k \<le> h1_file_remaining s" using True n len by auto
    obtain r1 s1 out1 rs1 where rec: "plain_file content rs
        (s\<lparr> h1_file_offset := h1_file_offset s + k, h1_file_remaining := h1_file_remaining s - k \<rparr>) = (r1, s1, out1, rs1)"
      by (metis prod_cases4)
    with Cons.prems(1) plain_file_step [OF _ left k(1,2), of rs] True n have "r = r1" "out = take k left @ out1"
      by simp_all
    then show ?thesis using Cons.IH [OF rec] Cons.prems k len by auto
  next
    case False
    then show ?thesis using Cons.prems
      by (cases e; cases "0 < h1_file_remaining s") (auto simp: willing_def plain_file_simps)
  qed
qed

lemma plain_gets_on:
  assumes "h1_sending content s" and "willing rs" and "http1_response_plain content rs s = (r, s', out)"
  shows "r = 1 \<or> r = 3 \<and> length (h1_pending content s') < length (h1_pending content s)"
proof -
  have rooms: "\<forall>a \<in> set rs. room a" using assms(2) by (simp add: willing_def)
  obtain r1 s1 out1 rs1 where head: "(if h1_is_header_sent s then (None, s, [], rs) else plain_header rs s) = (r1, s1, out1, rs1)"
    by (metis prod_cases4)
  have h: "r1 \<in> {None, Some 3} \<and> set rs1 \<subseteq> set rs \<and> (out1 = [] \<longrightarrow> rs1 = rs \<and> r1 = None)"
    using head plain_header_room [of rs s, OF _ rooms] assms(2) by (force split: if_splits simp: not_less)
  have ready: "h1_file_offset s1 + h1_file_remaining s1 \<le> length content"
    using head plain_header_kept [THEN header_kept_fields] assms(1) by (fastforce simp: h1_sending_def split: if_splits)
  obtain r2 s2 out2 rs2 where f: "plain_file content rs1 s1 = (r2, s2, out2, rs2)" by (metis prod_cases4)
  have g: "r2 \<in> {1, 3} \<and> (0 < h1_file_remaining s1 \<longrightarrow> willing rs1 \<longrightarrow> out2 \<noteq> [])"
    using plain_file_room [OF f _ ready] h rooms by blast
  have "(r, s', out) = (case r1 of Some v \<Rightarrow> (v, s1, out1)
      | None \<Rightarrow> if 0 \<le> h1_file_fd s1 \<and> 0 < h1_file_remaining s1 then (r2, s2, out1 @ out2) else (1, s1, out1))"
    using assms(3) by (auto simp: http1_response_plain_def head f split: option.splits if_splits)
  then have "r = 1 \<or> r = 3 \<and> out \<noteq> []"
    using assms(2) h g by (auto split: option.splits if_splits)
  moreover have "length out + length (h1_pending content s') = length (h1_pending content s)"
    using plain_answered [OF assms(1,3)] by (metis answered_def length_append)
  ultimately show ?thesis by (cases out) auto
qed

interpretation plain: lively_resumable "http1_response_plain content" "h1_pending content" "h1_sending content" willing for content
  by unfold_locales (use plain_answered plain_gets_on in \<open>fastforce simp: answered_def\<close>)+

interpretation tls: resumable "http1_response_ssl content" "h1_pending content" "h1_sending content" for content
  by unfold_locales (use ssl_answered in \<open>fastforce simp: answered_def\<close>)+

section \<open>Properties\<close>

text \<open>A session that is about to send a file, and what it is to send.\<close>

definition serving :: "bytes \<Rightarrow> nat \<Rightarrow> HTTP1Session" where
  "serving header n = \<lparr> h1_buffer = [], h1_buf_capacity = 8192, h1_req = empty_request, h1_state = STATE_SEND_STATIC_FILE,
     h1_file_fd = 9, h1_file_offset = 0, h1_file_remaining = n, h1_header_buf = header, h1_header_sent_offset = 0,
     h1_is_header_sent = False, h1_fcgi_sess = None, h1_outside = False \<rparr>"

text \<open>C33: a file reaches an HTTP/1 client whole: over a plain socket or over TLS, however the writes are cut and
  however often they have to wait, a transfer that reports its end has sent the header and then the
  bytes of the file from where it stood, each once and in order; one that is still under way has sent a
  beginning of them; and over a plain socket that finds room again and again it does end.\<close>

theorem static_file_sent_whole:
  assumes "h1_sending content s"
  shows "(case transfer (http1_response_plain content) es s of
            (r, s', out) \<Rightarrow> out @ h1_pending content s' = h1_pending content s \<and> (r = 1 \<longrightarrow> out = h1_pending content s)
              \<and> ((\<forall>e \<in> set es. willing e) \<and> length (h1_pending content s) < length es \<longrightarrow> r = 1))
    \<and> (case transfer (http1_response_ssl content) fs s of
            (r, s', out) \<Rightarrow> out @ h1_pending content s' = h1_pending content s \<and> (r = 1 \<longrightarrow> out = h1_pending content s))"
proof -
  obtain r s' out where t: "transfer (http1_response_plain content) es s = (r, s', out)" by (metis prod_cases3)
  obtain r2 s2 out2 where u: "transfer (http1_response_ssl content) fs s = (r2, s2, out2)" by (metis prod_cases3)
  show ?thesis
    using plain.transfer_keeps [OF assms t] plain.transfer_ends [OF assms, of es] plain.transfer_finishes [OF assms, of es]
      tls.transfer_keeps [OF assms u] tls.transfer_ends [OF assms, of fs] t u by auto
qed

theorem static_file_sent_whole_witness:
  "case transfer (http1_response_plain [1, 2, 3]) [[Sent 3, Sent 1], [Sent 9]] (serving [7, 8] 3) of
     (r, s', out) \<Rightarrow> r = 1 \<and> out = [7, 8, 1, 2, 3]"
proof -
  have "h1_sending [1, 2, 3] (serving [7, 8] 3)" by (simp add: h1_sending_def serving_def)
  note whole = static_file_sent_whole [OF this, of "[[Sent 3, Sent 1], [Sent 9]]" "[]"]
  have "fst (transfer (http1_response_plain [1, 2, 3]) [[Sent 3, Sent 1], [Sent 9]] (serving [7, 8] 3)) = 1"
    by code_simp
  moreover have "h1_pending [1, 2, 3] (serving [7, 8] 3) = [7, 8, 1, 2, 3]" by (simp add: h1_pending_def serving_def)
  ultimately show ?thesis using whole by (simp add: case_prod_unfold)
qed

text \<open>Over TLS a file that has become shorter than its announced size counts as sent: the call reports the end
  with bytes outstanding, so that the connection is kept and the client takes the next answer for the
  missing part.  Over a plain socket the same transfer fails and the connection is closed.\<close>

theorem tls_short_file_counts_as_sent:
  assumes "h1_is_header_sent s" and "0 \<le> h1_file_fd s" and "0 < h1_file_remaining s"
    and "length content \<le> h1_file_offset s"
  shows "http1_response_ssl content rs s = (1, s, []) \<and> fst (http1_response_plain content (Sent n # rs') s) = 0"
  using assms by (simp add: http1_response_ssl_def http1_response_plain_def ssl_file.simps plain_file.simps)

theorem tls_short_file_counts_as_sent_witness:
  "http1_response_ssl [] [SslSent 5] ((serving [] 5)\<lparr> h1_is_header_sent := True \<rparr>)
     = (1, (serving [] 5)\<lparr> h1_is_header_sent := True \<rparr>, [])
   \<and> fst (http1_response_plain [] [Sent 5] ((serving [] 5)\<lparr> h1_is_header_sent := True \<rparr>)) = 0"
  by (rule tls_short_file_counts_as_sent) (simp_all add: serving_def)

end
