(* ===== verification/Http1_Parser.thy ===== *)
theory Http1_Parser
  imports Http_Route Multipart
begin

text \<open>
  Requests of HTTP/1: src/protocol/http1/halmos_http1_parser.c.

  The parser works in the buffer of the connection and puts terminators into it; here the texts its
  pointers then reach are values.  \<open>path_info\<close> is the end of the text of the URI.  The result is \<open>None\<close>
  where the C function writes past the end of one of its arrays or of \<open>route_result\<close>.
\<close>

section \<open>Texts\<close>

definition NL1 :: string where "NL1 = [CHR 0x0D, CHR 0x0A]"

definition space :: "char \<Rightarrow> bool" where "space c \<longleftrightarrow> c = CHR '' ''"

definition fast_trim :: "string \<Rightarrow> string" where
  "fast_trim s = trim_end space (dropWhile space s)"

text \<open>What stands before the first occurrence of a character; \<open>None\<close> when there is none.\<close>

definition before :: "char \<Rightarrow> string \<Rightarrow> string option" where
  "before c s = (if c \<in> set s then Some (takeWhile (\<lambda>x. x \<noteq> c) s) else None)"

definition c_strchr :: "char \<Rightarrow> string \<Rightarrow> string option" where
  "c_strchr c s = (if c \<in> set s then Some (dropWhile (\<lambda>x. x \<noteq> c) s) else None)"

text \<open>The lines of a header, which ends where the empty line starts.\<close>

function header_lines :: "string \<Rightarrow> string list" where
  "header_lines s =
     (if s = [] then []
      else case memmem s NL1 of
        None \<Rightarrow> [s]
      | Some t \<Rightarrow> take (length s - length t) s # header_lines (drop 2 t))"
  by pat_completeness auto
termination
proof (relation "measure length", goal_cases)
  case (2 s t)
  then have "length t \<le> length s" "2 \<le> length t"
    using memmem_length [of s NL1 t] memmem_long [of s NL1 t] by (simp_all add: NL1_def)
  then show ?case by simp
qed simp

declare header_lines.simps [simp del]

section \<open>The request line\<close>

definition route_default :: "Config \<Rightarrow> string option" where
  "route_default cfg =
     (let def_page = (if cf_default_page cfg \<noteq> [] then cf_default_page cfg else ''index.html'')
      in if length def_page + 1 < 512 then Some (CHR ''/'' # def_page) else None)"

definition path_info_of :: "string \<Rightarrow> string option" where
  "path_info_of u = (case last_dot u of None \<Rightarrow> None | Some e \<Rightarrow> c_strchr (CHR ''/'') e)"

definition set_uri :: "Config \<Rightarrow> string \<Rightarrow> RequestHeader \<Rightarrow> RequestHeader" where
  "set_uri cfg target req =
     (let u = takeWhile (\<lambda>c. c \<noteq> CHR ''?'') target;
          q = map_option tl (c_strchr (CHR ''?'') target);
          uri = (if u = ''/'' then (case route_default cfg of Some d \<Rightarrow> d | None \<Rightarrow> u) else u)
      in req\<lparr> rh_query_string := q, rh_uri := Some uri, rh_directory := Some uri, rh_path_info := path_info_of u,
              rh_is_valid := True \<rparr>)"

definition request_line :: "Config \<Rightarrow> string \<Rightarrow> RequestHeader \<Rightarrow> RequestHeader" where
  "request_line cfg line req =
     (case c_strchr (CHR '' '') line of
        None \<Rightarrow> req
      | Some rest \<Rightarrow>
          let m = takeWhile (\<lambda>c. c \<noteq> CHR '' '') line;
              req1 = (if length m < METHOD_MAX then req\<lparr> rh_method := m \<rparr> else req)
          in (case c_strchr (CHR '' '') (tl rest) of
                None \<Rightarrow> req1
              | Some rest2 \<Rightarrow>
                  let v = tl rest2;
                      req2 = (if length v < 16 then req1\<lparr> rh_http_version := v \<rparr> else req1)
                  in set_uri cfg (takeWhile (\<lambda>c. c \<noteq> CHR '' '') (tl rest)) req2))"

section \<open>The fields\<close>

definition forwarded_ip :: "string \<Rightarrow> string \<Rightarrow> string" where
  "forwarded_ip val old =
     (case before (CHR '','') val of
        Some ip \<Rightarrow> if length ip < CLIENT_IP_MAX then trim_end space ip else old
      | None \<Rightarrow> c_copy CLIENT_IP_MAX val)"

definition content_length_of :: "string \<Rightarrow> int" where
  "content_length_of val = (let n = c_int (c_strtol10 val) in if n < 0 then 0 else n)"

definition header_field :: "Config \<Rightarrow> string \<Rightarrow> RequestHeader \<times> VHostEntry list \<Rightarrow> RequestHeader \<times> VHostEntry list" where
  "header_field cfg line st =
     (case st of (req, vhosts) \<Rightarrow>
        (case c_strchr (CHR '':'') line of
           None \<Rightarrow> st
         | Some rest \<Rightarrow>
             let key = c_strcasecmp_eq (takeWhile (\<lambda>c. c \<noteq> CHR '':'') line);
                 val = fast_trim (tl rest);
                 has = (\<lambda>w. c_strcasestr val w \<noteq> None)
             in if key ''Host'' then
                  (case http_vhost_get_context (Some val) vhosts of
                     (i, vhosts') \<Rightarrow> (req\<lparr> rh_host := Some val, rh_vhost := i \<rparr>, vhosts'))
                else if key ''Content-Type'' then (req\<lparr> rh_content_type := Some val \<rparr>, vhosts)
                else if key ''Content-Length'' then (req\<lparr> rh_content_length := content_length_of val \<rparr>, vhosts)
                else if key ''Cookie'' then (req\<lparr> rh_cookie_data := Some val \<rparr>, vhosts)
                else if key ''Upgrade'' then (if has ''websocket'' then req\<lparr> rh_is_upgrade := True \<rparr> else req, vhosts)
                else if key ''Sec-WebSocket-Key'' then (req\<lparr> rh_ws_key := Some val \<rparr>, vhosts)
                else if key ''Connection'' then
                  (req\<lparr> rh_is_upgrade := rh_is_upgrade req \<or> has ''Upgrade'',
                        rh_is_keep_alive := rh_is_keep_alive req \<and> \<not> has ''close'' \<rparr>, vhosts)
                else if key ''X-Forwarded-For'' \<and> cf_trust_proxy cfg then
                  (req\<lparr> rh_client_ip := forwarded_ip val (rh_client_ip req) \<rparr>, vhosts)
                else st))"

section \<open>The route\<close>

text \<open>
  The rewritten texts go through arrays of 128 and 256 bytes on the stack; the query of the client is
  appended to the one of the route.  Then path and query are put one behind the other into
  \<open>route_result\<close>, and the path info is appended to the path, over the query.
\<close>

definition apply_route :: "RouteTable \<Rightarrow> string \<Rightarrow> RequestHeader \<Rightarrow> RequestHeader option" where
  "apply_route r uri req =
     (case http_route_apply_logic r uri of
        (t_uri, t_query0, t_path) \<Rightarrow>
          let t_query = (case rh_query_string req of
                           Some q \<Rightarrow> if q = [] then t_query0
                                     else (if t_query0 \<noteq> [] then t_query0 @ ''&'' else t_query0) @ q
                         | None \<Rightarrow> t_query0)
          in if 128 \<le> length t_uri \<or> 256 \<le> length t_query \<or> 128 \<le> length t_path then None
             else Some (req\<lparr> rh_uri := Some (t_uri @ t_path), rh_directory := Some (t_uri @ t_path),
                             rh_query_string := Some (if t_path = [] then t_query else tl t_path),
                             rh_path_info := (if t_path = [] then None else Some t_path),
                             rh_backend_type := rt_fcgi_type r \<rparr>))"

definition route_request :: "VHostEntry list \<Rightarrow> RequestHeader \<Rightarrow> RequestHeader option" where
  "route_request vhosts req =
     (if \<not> rh_is_valid req then Some req
      else case http_route_match (case rh_vhost req of Some i \<Rightarrow> Some (vhosts ! i) | None \<Rightarrow> None)
                  (case rh_uri req of Some u \<Rightarrow> u | None \<Rightarrow> []) of
             Some r \<Rightarrow> apply_route r (case rh_uri req of Some u \<Rightarrow> u | None \<Rightarrow> []) req
           | None \<Rightarrow> Some (req\<lparr> rh_backend_type := FCGI_PHP \<rparr>))"

section \<open>The parser\<close>

text \<open>The header: what stands before the first empty line, with no NUL before it.\<close>

definition header_of :: "bytes \<Rightarrow> string option" where
  "header_of raw =
     (let s = cstr (text_of raw)
      in map_option (\<lambda>t. take (length s - length t) s) (memmem s (NL1 @ NL1)))"

definition parse_header_text :: "Config \<Rightarrow> string \<Rightarrow> RequestHeader \<Rightarrow> RequestHeader \<times> VHostEntry list" where
  "parse_header_text cfg header req =
     (let ls = header_lines (header @ NL1);
          req0 = req\<lparr> rh_vhost := None, rh_is_keep_alive := True \<rparr>
      in fold (header_field cfg) (tl ls) (request_line cfg (hd ls) req0, cf_vhosts cfg))"

definition parse_multipart :: "RequestHeader \<Rightarrow> RequestHeader option" where
  "parse_multipart req =
     (case rh_content_type req of
        Some t \<Rightarrow> if c_strstr t ''multipart/form-data'' \<noteq> None then http_multipart_parse_body req else Some req
      | None \<Rightarrow> Some req)"

definition http1_parser_parse_header ::
  "Config \<Rightarrow> bytes \<Rightarrow> RequestHeader \<Rightarrow> (bool \<times> RequestHeader \<times> VHostEntry list) option" where
  "http1_parser_parse_header cfg raw req =
     (case header_of raw of
        None \<Rightarrow> Some (False, req\<lparr> rh_vhost := None, rh_is_keep_alive := True \<rparr>, cf_vhosts cfg)
      | Some header \<Rightarrow>
          (case parse_header_text cfg header req of
             (req1, vhosts) \<Rightarrow>
               (case route_request vhosts req1 of
                  None \<Rightarrow> None
                | Some req2 \<Rightarrow> map_option (\<lambda>r. (rh_is_valid r, r, vhosts))
                                 (parse_multipart (req2\<lparr> rh_body := drop (length header + 4) raw \<rparr>)))))"

definition http1_parser_free_memory :: "RequestHeader \<Rightarrow> RequestHeader" where
  "http1_parser_free_memory req = req\<lparr> rh_parts := [] \<rparr>"

lemma parse_with_header:
  "header_of raw = Some h \<Longrightarrow> parse_header_text cfg h req = (r1, vs) \<Longrightarrow>
     http1_parser_parse_header cfg raw req =
       (case route_request vs r1 of None \<Rightarrow> None
        | Some r2 \<Rightarrow> map_option (\<lambda>r. (rh_is_valid r, r, vs)) (parse_multipart (r2\<lparr> rh_body := drop (length h + 4) raw \<rparr>)))"
  by (simp add: http1_parser_parse_header_def)

lemma parse_multipart_none:
  "\<forall>t. rh_content_type r = Some t \<longrightarrow> c_strstr t ''multipart/form-data'' = None \<Longrightarrow> parse_multipart r = Some r"
  by (simp add: parse_multipart_def split: option.split)

lemma parse_multipart_type: "parse_multipart req = Some r \<Longrightarrow> rh_content_type r = rh_content_type req"
  by (auto simp: parse_multipart_def http_multipart_parse_body_def split: option.splits if_splits)

section \<open>A request as a text\<close>

type_synonym field = "string \<times> string"

definition field_line :: "field \<Rightarrow> string" where
  "field_line f = fst f @ '': '' @ snd f"

definition target :: "string \<Rightarrow> string option \<Rightarrow> string" where
  "target p q = p @ (case q of None \<Rightarrow> [] | Some s \<Rightarrow> ''?'' @ s)"

definition first_line :: "string \<Rightarrow> string \<Rightarrow> string option \<Rightarrow> string \<Rightarrow> string" where
  "first_line m p q v = m @ '' '' @ target p q @ '' '' @ v"

definition ended :: "string list \<Rightarrow> string" where
  "ended ls = concat (map (\<lambda>l. l @ NL1) ls)"

definition request_text :: "string \<Rightarrow> string \<Rightarrow> string option \<Rightarrow> string \<Rightarrow> field list \<Rightarrow> string" where
  "request_text m p q v fs = ended (first_line m p q v # map field_line fs) @ NL1"

text \<open>Names, values and the words of the first line: printable enough to be told apart.\<close>

definition plain_text :: "string \<Rightarrow> bool" where
  "plain_text s \<longleftrightarrow> CHR 0x00 \<notin> set s \<and> CHR 0x0D \<notin> set s"

definition field_ok :: "field \<Rightarrow> bool" where
  "field_ok f \<longleftrightarrow> plain_text (fst f) \<and> plain_text (snd f) \<and> CHR '':'' \<notin> set (fst f)
     \<and> (snd f = [] \<or> hd (snd f) \<noteq> CHR '' '' \<and> last (snd f) \<noteq> CHR '' '')"

definition words_ok :: "string \<Rightarrow> string \<Rightarrow> string option \<Rightarrow> string \<Rightarrow> bool" where
  "words_ok m p q v \<longleftrightarrow>
     (\<forall>s \<in> {m, target p q, v}. plain_text s) \<and> CHR '' '' \<notin> set m \<and> CHR '' '' \<notin> set (target p q)
     \<and> CHR ''?'' \<notin> set p \<and> length m < METHOD_MAX \<and> length v < 16 \<and> p \<noteq> ''/''"

text \<open>The value of a field: the last one of that name, whatever the case of its letters.\<close>

fun last_value :: "string \<Rightarrow> field list \<Rightarrow> string option" where
  "last_value key [] = None"
| "last_value key (f # fs) =
     (case last_value key fs of Some x \<Rightarrow> Some x
      | None \<Rightarrow> if c_strcasecmp_eq (fst f) key then Some (snd f) else None)"

lemma memmem_skip: "c \<notin> set l \<Longrightarrow> memmem (l @ t) (c # n) = memmem t (c # n)"
proof (induction l)
  case (Cons x l)
  then show ?case by (subst append_Cons, subst memmem.simps) auto
qed simp

lemma memmem_line: "CHR 0x0D \<notin> set l \<Longrightarrow> memmem (l @ NL1 @ t) NL1 = Some (NL1 @ t)"
  using memmem_skip [of "CHR 0x0D" l "NL1 @ t"] memmem_here [of NL1 t] by (simp add: NL1_def)

lemma header_lines_ended: "\<forall>l \<in> set ls. CHR 0x0D \<notin> set l \<Longrightarrow> header_lines (ended ls) = ls"
proof (induction ls)
  case Nil
  then show ?case by (simp add: ended_def header_lines.simps)
next
  case (Cons l ls)
  then have "memmem (l @ NL1 @ ended ls) NL1 = Some (NL1 @ ended ls)" by (simp add: memmem_line)
  with Cons show ?case by (subst header_lines.simps) (simp add: ended_def NL1_def)
qed

lemma memmem_header_end:
  assumes "\<forall>l \<in> set ls. CHR 0x0D \<notin> set l \<and> l \<noteq> []" and "ls \<noteq> []"
  shows "memmem (ended ls @ NL1 @ rest) (NL1 @ NL1) = Some (NL1 @ NL1 @ rest)"
  using assms
proof (induction ls)
  case (Cons l ls)
  have skip: "memmem (l @ NL1 @ ended ls @ NL1 @ rest) (NL1 @ NL1) = memmem (NL1 @ ended ls @ NL1 @ rest) (NL1 @ NL1)"
    using memmem_skip [of "CHR 0x0D" l] Cons.prems(1) by (simp add: NL1_def)
  show ?case
  proof (cases ls)
    case Nil
    then show ?thesis using skip memmem_here [of "NL1 @ NL1" rest] by (simp add: ended_def)
  next
    case (Cons l2 ls2)
    then obtain c cs where l2: "l2 = c # cs" "c \<noteq> CHR 0x0D" using Cons.prems(1) by (cases l2) auto
    have "memmem (NL1 @ ended ls @ NL1 @ rest) (NL1 @ NL1) = memmem (ended ls @ NL1 @ rest) (NL1 @ NL1)"
      using l2 by (subst memmem.simps) (simp add: Cons ended_def NL1_def, subst memmem.simps, simp)
    then show ?thesis using skip Cons.IH Cons.prems Cons by (simp add: ended_def)
  qed
qed simp

lemma ended_split: "ls \<noteq> [] \<Longrightarrow> \<exists>h. ended ls = h @ NL1"
  by (cases ls rule: rev_cases) (simp_all add: ended_def)

lemma header_of_lines:
  assumes "\<forall>l \<in> set ls. plain_text l \<and> l \<noteq> []" and "ls \<noteq> []"
  shows "\<exists>h. header_of (bytes_of (ended ls @ NL1) @ body) = Some h \<and> h @ NL1 = ended ls"
proof -
  obtain h where h: "ended ls = h @ NL1" using ended_split assms(2) by blast
  let ?rest = "cstr (text_of body)"
  have "CHR 0x00 \<notin> set (ended ls @ NL1)"
    using assms(1) by (auto simp: ended_def plain_text_def NL1_def)
  then have "cstr (text_of (bytes_of (ended ls @ NL1) @ body)) = ended ls @ NL1 @ ?rest"
    using cstr_append [of "ended ls @ NL1" "text_of body"] by simp
  moreover have "memmem (ended ls @ NL1 @ ?rest) (NL1 @ NL1) = Some (NL1 @ NL1 @ ?rest)"
    using assms by (intro memmem_header_end) (auto simp: plain_text_def)
  ultimately have "header_of (bytes_of (ended ls @ NL1) @ body) = Some h"
    by (simp add: header_of_def h)
  then show ?thesis using h by auto
qed

lemma fast_trim_value: "x = [] \<or> hd x \<noteq> CHR '' '' \<and> last x \<noteq> CHR '' '' \<Longrightarrow> fast_trim (CHR '' '' # x) = x"
proof (cases "x = []")
  case False
  assume "x = [] \<or> hd x \<noteq> CHR '' '' \<and> last x \<noteq> CHR '' ''"
  with False have hd: "\<not> space (hd x)" and last: "\<not> space (last x)" by (auto simp: space_def)
  from hd False have "dropWhile space x = x" by (cases x) simp_all
  moreover from last False have "dropWhile space (rev x) = rev x" by (cases x rule: rev_cases) simp_all
  ultimately show ?thesis by (simp add: fast_trim_def trim_end_def space_def [of "CHR '' ''"])
qed (simp add: fast_trim_def trim_end_def space_def)

lemma c_strchr_append: "c \<notin> set a \<Longrightarrow> c_strchr c (a @ c # b) = Some (c # b)"
  by (simp add: c_strchr_def dropWhile_append2 [where P = "\<lambda>x. x \<noteq> c"] dropWhile_append)

lemma takeWhile_stop: "c \<notin> set a \<Longrightarrow> takeWhile (\<lambda>x. x \<noteq> c) (a @ c # b) = a"
  by (subst takeWhile_append2) auto

lemma field_parts:
  assumes "field_ok f"
  shows "c_strchr (CHR '':'') (field_line f) = Some (CHR '':'' # CHR '' '' # snd f)"
    and "takeWhile (\<lambda>c. c \<noteq> CHR '':'') (field_line f) = fst f"
    and "fast_trim (CHR '' '' # snd f) = snd f"
  using assms by (simp_all add: field_ok_def field_line_def c_strchr_append takeWhile_stop fast_trim_value)

lemma lower_names:
  "map c_tolower ''Host'' = ''host''" "map c_tolower ''Content-Type'' = ''content-type''"
  "map c_tolower ''Content-Length'' = ''content-length''" "map c_tolower ''Cookie'' = ''cookie''"
  "map c_tolower ''Upgrade'' = ''upgrade''" "map c_tolower ''Sec-WebSocket-Key'' = ''sec-websocket-key''"
  "map c_tolower ''Connection'' = ''connection''" "map c_tolower ''X-Forwarded-For'' = ''x-forwarded-for''"
  by code_simp+

lemma names_eq:
  "c_strcasecmp_eq k ''Host'' \<longleftrightarrow> map c_tolower k = ''host''"
  "c_strcasecmp_eq k ''Content-Type'' \<longleftrightarrow> map c_tolower k = ''content-type''"
  "c_strcasecmp_eq k ''Content-Length'' \<longleftrightarrow> map c_tolower k = ''content-length''"
  "c_strcasecmp_eq k ''Cookie'' \<longleftrightarrow> map c_tolower k = ''cookie''"
  "c_strcasecmp_eq k ''Upgrade'' \<longleftrightarrow> map c_tolower k = ''upgrade''"
  "c_strcasecmp_eq k ''Sec-WebSocket-Key'' \<longleftrightarrow> map c_tolower k = ''sec-websocket-key''"
  "c_strcasecmp_eq k ''Connection'' \<longleftrightarrow> map c_tolower k = ''connection''"
  "c_strcasecmp_eq k ''X-Forwarded-For'' \<longleftrightarrow> map c_tolower k = ''x-forwarded-for''"
  by (simp_all only: c_strcasecmp_eq_def lower_names)

lemma header_field_at:
  assumes "field_ok f"
  shows "rh_host (fst (header_field cfg (field_line f) st)) = (if c_strcasecmp_eq (fst f) ''Host'' then Some (snd f) else rh_host (fst st))"
    and "rh_content_type (fst (header_field cfg (field_line f) st)) =
      (if c_strcasecmp_eq (fst f) ''Content-Type'' then Some (snd f) else rh_content_type (fst st))"
    and "rh_content_length (fst (header_field cfg (field_line f) st)) =
      (if c_strcasecmp_eq (fst f) ''Content-Length'' then content_length_of (snd f) else rh_content_length (fst st))"
    and "rh_cookie_data (fst (header_field cfg (field_line f) st)) =
      (if c_strcasecmp_eq (fst f) ''Cookie'' then Some (snd f) else rh_cookie_data (fst st))"
    and "rh_ws_key (fst (header_field cfg (field_line f) st)) =
      (if c_strcasecmp_eq (fst f) ''Sec-WebSocket-Key'' then Some (snd f) else rh_ws_key (fst st))"
  by (cases st; simp only: header_field_def field_parts [OF assms] prod.case option.case list.sel Let_def names_eq;
      simp split: prod.splits; fail)+

lemma fold_last:
  assumes "\<And>f st. field_ok f \<Longrightarrow>
      proj (step (field_line f) st) = (if c_strcasecmp_eq (fst f) key then g (snd f) else proj st)"
    and "\<forall>f \<in> set fs. field_ok f"
  shows "proj (fold step (map field_line fs) st) = (case last_value key fs of Some x \<Rightarrow> g x | None \<Rightarrow> proj st)"
  using assms(2) by (induction fs arbitrary: st) (simp_all add: assms(1) split: option.splits)

lemma fold_same: "(\<And>l st. proj (step l st) = proj st) \<Longrightarrow> proj (fold step ls st) = proj st"
  by (induction ls arbitrary: st) simp_all

lemma header_field_keeps:
  "rh_method (fst (header_field cfg l st)) = rh_method (fst st)"
  "rh_uri (fst (header_field cfg l st)) = rh_uri (fst st)"
  "rh_query_string (fst (header_field cfg l st)) = rh_query_string (fst st)"
  "rh_http_version (fst (header_field cfg l st)) = rh_http_version (fst st)"
  "rh_is_valid (fst (header_field cfg l st)) = rh_is_valid (fst st)"
  by (cases st; simp add: header_field_def Let_def split: option.splits prod.splits; fail)+

lemmas fields_kept =
  fold_same [where step = "header_field cfg" and proj = "\<lambda>st. rh_method (fst st)" for cfg, OF header_field_keeps(1)]
  fold_same [where step = "header_field cfg" and proj = "\<lambda>st. rh_uri (fst st)" for cfg, OF header_field_keeps(2)]
  fold_same [where step = "header_field cfg" and proj = "\<lambda>st. rh_query_string (fst st)" for cfg, OF header_field_keeps(3)]
  fold_same [where step = "header_field cfg" and proj = "\<lambda>st. rh_http_version (fst st)" for cfg, OF header_field_keeps(4)]
  fold_same [where step = "header_field cfg" and proj = "\<lambda>st. rh_is_valid (fst st)" for cfg, OF header_field_keeps(5)]

lemma fields_read:
  assumes "\<forall>f \<in> set fs. field_ok f"
  shows "rh_host (fst (fold (header_field cfg) (map field_line fs) st)) =
      (case last_value ''Host'' fs of Some x \<Rightarrow> Some x | None \<Rightarrow> rh_host (fst st))"
    and "rh_content_type (fst (fold (header_field cfg) (map field_line fs) st)) =
      (case last_value ''Content-Type'' fs of Some x \<Rightarrow> Some x | None \<Rightarrow> rh_content_type (fst st))"
    and "rh_content_length (fst (fold (header_field cfg) (map field_line fs) st)) =
      (case last_value ''Content-Length'' fs of Some x \<Rightarrow> content_length_of x | None \<Rightarrow> rh_content_length (fst st))"
    and "rh_cookie_data (fst (fold (header_field cfg) (map field_line fs) st)) =
      (case last_value ''Cookie'' fs of Some x \<Rightarrow> Some x | None \<Rightarrow> rh_cookie_data (fst st))"
    and "rh_ws_key (fst (fold (header_field cfg) (map field_line fs) st)) =
      (case last_value ''Sec-WebSocket-Key'' fs of Some x \<Rightarrow> Some x | None \<Rightarrow> rh_ws_key (fst st))"
  using fold_last [where step = "header_field cfg" and proj = "\<lambda>st. rh_host (fst st)", OF header_field_at(1) assms]
    fold_last [where step = "header_field cfg" and proj = "\<lambda>st. rh_content_type (fst st)", OF header_field_at(2) assms]
    fold_last [where step = "header_field cfg" and proj = "\<lambda>st. rh_cookie_data (fst st)", OF header_field_at(4) assms]
    fold_last [where step = "header_field cfg" and proj = "\<lambda>st. rh_ws_key (fst st)", OF header_field_at(5) assms]
    fold_last [where step = "header_field cfg" and proj = "\<lambda>st. rh_content_length (fst st)", OF header_field_at(3) assms]
  by simp_all

text \<open>The hosts keep their routes, and the host of the request is one of them.\<close>

definition hosts_ok :: "RequestHeader \<times> VHostEntry list \<Rightarrow> bool" where
  "hosts_ok st \<longleftrightarrow> (\<forall>vh \<in> set (snd st). vh_routes vh = []) \<and> (\<forall>i. rh_vhost (fst st) = Some i \<longrightarrow> i < length (snd st))"

lemma vhost_index_less: "vhost_index vs h q i = Some j \<Longrightarrow> i \<le> j \<and> j < i + length vs"
proof (induction vs arbitrary: i)
  case (Cons v vs)
  then show ?case by (auto split: if_splits dest!: Cons.IH)
qed simp

lemma vhost_context_ok:
  assumes "\<forall>vh \<in> set vs. vh_routes vh = []" and "http_vhost_get_context (Some h) vs = (i, vs')"
  shows "(\<forall>vh \<in> set vs'. vh_routes vh = []) \<and> (\<forall>j. i = Some j \<longrightarrow> j < length vs') \<and> length vs' = length vs"
proof (cases "vhost_index vs (clean_host h) (skip_www (clean_host h)) 0")
  case (Some j)
  then have "j < length vs" using vhost_index_less by fastforce
  then show ?thesis
    using assms Some by (auto simp: http_vhost_get_context_def dest!: set_update_subset_insert [THEN subsetD])
qed (use assms in \<open>auto simp: http_vhost_get_context_def\<close>)

lemma header_field_hosts: "hosts_ok st \<Longrightarrow> hosts_ok (header_field cfg l st)"
proof (cases st)
  case (Pair req vs)
  assume ok: "hosts_ok st"
  show ?thesis
  proof (cases "c_strchr (CHR '':'') l")
    case (Some rest)
    obtain i vs' where ctx: "http_vhost_get_context (Some (fast_trim (tl rest))) vs = (i, vs')" by force
    have "\<forall>vh \<in> set vs. vh_routes vh = []" using ok Pair by (simp add: hosts_ok_def)
    from vhost_context_ok [OF this ctx] ok show ?thesis
      by (auto simp: Pair header_field_def Some Let_def ctx hosts_ok_def)
  qed (use ok Pair in \<open>simp add: header_field_def\<close>)
qed

lemma fold_hosts: "hosts_ok st \<Longrightarrow> hosts_ok (fold (header_field cfg) ls st)"
  by (induction ls arbitrary: st) (simp_all add: header_field_hosts)

lemma route_none: "hosts_ok (req, vs) \<Longrightarrow> rh_is_valid req \<Longrightarrow> route_request vs req = Some (req\<lparr> rh_backend_type := FCGI_PHP \<rparr>)"
  by (auto simp: hosts_ok_def route_request_def http_route_match_def split: option.splits)

lemma target_parts:
  assumes "CHR ''?'' \<notin> set p"
  shows "takeWhile (\<lambda>c. c \<noteq> CHR ''?'') (target p q) = p" and "map_option tl (c_strchr (CHR ''?'') (target p q)) = q"
proof -
  have all: "takeWhile (\<lambda>c. c \<noteq> CHR ''?'') p = p" using assms by (auto simp: takeWhile_eq_all_conv)
  show "takeWhile (\<lambda>c. c \<noteq> CHR ''?'') (target p q) = p"
    using all takeWhile_stop [OF assms] by (cases q) (simp_all add: target_def)
  show "map_option tl (c_strchr (CHR ''?'') (target p q)) = q"
    using assms c_strchr_append [OF assms] by (cases q) (simp_all add: target_def c_strchr_def)
qed

lemma request_line_of:
  assumes "words_ok m p q v"
  shows "request_line cfg (first_line m p q v) req =
    req\<lparr> rh_method := m, rh_http_version := v, rh_query_string := q, rh_uri := Some p, rh_directory := Some p,
         rh_path_info := path_info_of p, rh_is_valid := True \<rparr>"
proof -
  let ?rest = "target p q @ CHR '' '' # v"
  have first: "first_line m p q v = m @ CHR '' '' # ?rest" by (simp add: first_line_def)
  have "CHR '' '' \<notin> set m" "CHR '' '' \<notin> set (target p q)" using assms by (simp_all add: words_ok_def)
  note parts = c_strchr_append [OF this(1), of ?rest] takeWhile_stop [OF this(1), of ?rest]
    c_strchr_append [OF this(2), of v] takeWhile_stop [OF this(2), of v]
  have "CHR ''?'' \<notin> set p" using assms by (simp add: words_ok_def)
  note t = target_parts [OF this, of q]
  show ?thesis
    using assms unfolding request_line_def first
    by (simp only: parts option.case list.sel Let_def set_uri_def t) (simp add: words_ok_def)
qed

lemma request_text_header:
  assumes "words_ok m p q v" and "\<forall>f \<in> set fs. field_ok f"
  shows "\<exists>h. header_of (bytes_of (request_text m p q v fs) @ body) = Some h
    \<and> length h + 4 = length (request_text m p q v fs)
    \<and> header_lines (h @ NL1) = first_line m p q v # map field_line fs"
proof -
  let ?ls = "first_line m p q v # map field_line fs"
  have plain: "plain_text l \<and> l \<noteq> []" if "l \<in> set ?ls" for l
    using that assms by (auto simp: words_ok_def first_line_def field_ok_def field_line_def plain_text_def)
  then obtain h where h: "header_of (bytes_of (ended ?ls @ NL1) @ body) = Some h" "h @ NL1 = ended ?ls"
    using header_of_lines [of ?ls body] by blast
  moreover have "header_lines (ended ?ls) = ?ls"
    using plain by (intro header_lines_ended) (auto simp: plain_text_def)
  moreover have "length h + 4 = length (ended ?ls @ NL1)" unfolding h(2) [symmetric] by (simp add: NL1_def)
  ultimately show ?thesis unfolding request_text_def by auto
qed

section \<open>Properties\<close>


definition post_fields :: "field list" where
  "post_fields = [(''host'', ''h''), (''Content-Length'', ''7''), (''content-length'', ''3'')]"


text \<open>A query of 256 bytes or more overruns the stack: for a request whose host has a route for its path, the
  query of the client is appended to the array of 256 bytes that holds the query of the route, whatever
  its length and whatever the type of the route.\<close>

theorem http1_long_query_overflows:
  assumes "words_ok m p (Some q) v" and "field_ok (''Host'', host)" and "256 \<le> length q"
    and "http_vhost_get_context (Some host) (cf_vhosts cfg) = (Some i, vs)" and "http_route_match (Some (vs ! i)) p = Some r"
  shows "http1_parser_parse_header cfg (bytes_of (request_text m p (Some q) v [(''Host'', host)]) @ body) empty_request = None"
proof -
  obtain h where h: "header_of (bytes_of (request_text m p (Some q) v [(''Host'', host)]) @ body) = Some h"
      "header_lines (h @ NL1) = [first_line m p (Some q) v, field_line (''Host'', host)]"
    using request_text_header [OF assms(1), of "[(''Host'', host)]" body] assms(2) by auto
  note req = request_line_of [OF assms(1), of cfg "empty_request\<lparr> rh_vhost := None, rh_is_keep_alive := True \<rparr>"]
  let ?req = "request_line cfg (first_line m p (Some q) v) (empty_request\<lparr> rh_vhost := None, rh_is_keep_alive := True \<rparr>)"
  have "header_field cfg (field_line (''Host'', host)) (?req, cf_vhosts cfg) = (?req\<lparr> rh_host := Some host, rh_vhost := Some i \<rparr>, vs)"
    using field_parts [OF assms(2)] assms(4) by (simp add: header_field_def Let_def c_strcasecmp_eq_def)
  moreover have "apply_route r p (?req\<lparr> rh_host := Some host, rh_vhost := Some i \<rparr>) = None"
    using assms(3) by (auto simp: apply_route_def req Let_def split: prod.splits)
  ultimately show ?thesis
    using assms(5) by (simp add: http1_parser_parse_header_def h parse_header_text_def route_request_def req)
qed

definition routed_host :: Config where
  "routed_host = empty_config\<lparr> cf_vhosts := [empty_vhost\<lparr> vh_host := ''h'',
     vh_routes := [\<lparr> rt_type = RT_NONE, rt_source = ''/p'', rt_target = ''/p.php'', rt_fcgi_type = FCGI_PHP, rt_var_names = [] \<rparr>] \<rparr>] \<rparr>"

theorem http1_long_query_overflows_witness:
  "http1_parser_parse_header routed_host
     (bytes_of (request_text ''GET'' ''/p'' (Some (replicate 300 (CHR ''a''))) ''HTTP/1.1'' [(''Host'', ''h'')]) @ []) empty_request = None"
proof (rule http1_long_query_overflows)
  show "words_ok ''GET'' ''/p'' (Some (replicate 300 (CHR ''a''))) ''HTTP/1.1''"
    by (simp add: words_ok_def plain_text_def target_def METHOD_MAX_def)
  show "field_ok (''Host'', ''h'')" by code_simp
  have "vhost_index (cf_vhosts routed_host) (clean_host ''h'') (skip_www (clean_host ''h'')) 0 = Some 0" by code_simp
  then show "http_vhost_get_context (Some ''h'') (cf_vhosts routed_host)
      = (Some 0, (cf_vhosts routed_host)[0 := (cf_vhosts routed_host ! 0)\<lparr> vh_request_count := vh_request_count (cf_vhosts routed_host ! 0) + 1 \<rparr>])"
    by (simp add: http_vhost_get_context_def)
qed (simp_all add: routed_host_def http_route_match_def)

end
