(* ===== verification/Http1_Manager.thy ===== *)
theory Http1_Manager
  imports Http1_Response Http1_Parser
begin

text \<open>
  Connections of HTTP/1: src/protocol/http1/halmos_http1_manager.c.

  One call of the manager takes what the socket has, moves the session on as far as it can and says
  what to wait for (0 and less: close, 1: stay silent, 2: input, 3: room for output).  What the calls of
  the operating system answer is in the environment of the call; the world is what outlives the call.
  The result is \<open>None\<close> where the memory of the process is damaged: by the parser, or by pointers that
  are moved with the buffer but do not point into it.
\<close>

section \<open>Environment and world\<close>

text \<open>What \<open>poll\<close> says of the socket of the backend: readable, writable, and gone.\<close>

datatype poll_answer = PollIntr | PollFail | PollTimeout | PollReady bool bool bool

record h1_env =
  me_is_tls :: bool
  me_peer :: "string option"
  me_realloc_ok :: bool
  me_moved :: bool
  me_realpath :: "string \<Rightarrow> string option"
  me_file :: "string \<Rightarrow> file_state"
  me_contents :: "int \<Rightarrow> bytes"
  me_mem1 :: send_result
  me_mem2 :: send_result
  me_sends :: "send_result list"
  me_ssl_sends :: "ssl_result list"
  me_quiet :: "int \<Rightarrow> bool"
  me_created :: int
  me_malloc_ok :: bool
  me_healthy :: bool
  me_polls :: "(poll_answer \<times> step_env) list"
  me_backend :: bytes
  me_relayed :: "client_result list"

record h1_world =
  hw_config :: Config
  hw_pool :: HalmosFCGI_Pool
  hw_input :: "recv_result list"
  hw_to_client :: bytes
  hw_to_backend :: bytes
  hw_closed :: "int list"
  hw_handshake :: "RequestHeader option"

definition send_mem :: "h1_env \<Rightarrow> int \<Rightarrow> string \<Rightarrow> string \<Rightarrow> h1_world \<Rightarrow> h1_world" where
  "send_mem e code status content w =
     w\<lparr> hw_to_client := hw_to_client w
          @ http1_response_send_mem (me_mem1 e) (me_mem2 e) code status content False (me_is_tls e) \<rparr>"

definition h1_new :: "Config \<Rightarrow> HTTP1Session" where
  "h1_new cfg =
     \<lparr> h1_buffer = [], h1_buf_capacity = (if 0 < cf_request_buffer_size cfg then nat (cf_request_buffer_size cfg) else 8192),
       h1_req = empty_request, h1_state = STATE_READ_HEADERS, h1_file_fd = -1, h1_file_offset = 0,
       h1_file_remaining = 0, h1_header_buf = [], h1_header_sent_offset = 0, h1_is_header_sent = False,
       h1_fcgi_sess = None, h1_outside = False \<rparr>"

definition http1_session_destroy :: "Config \<Rightarrow> bool \<Rightarrow> HTTP1Session \<Rightarrow> HalmosFCGI_Pool \<Rightarrow> int list \<times> HalmosFCGI_Pool" where
  "http1_session_destroy cfg healthy s p =
     (let closed = (if 0 \<le> h1_file_fd s then [h1_file_fd s] else [])
      in case h1_fcgi_sess s of
           None \<Rightarrow> (closed, p)
         | Some f \<Rightarrow> (case fcgi_session_destroy cfg healthy f p of (closed', p') \<Rightarrow> (closed @ closed', p')))"

text \<open>After an answer: the bytes that follow the request in the buffer are dropped.\<close>

definition h1_reset :: "HTTP1Session \<Rightarrow> HTTP1Session" where
  "h1_reset s = s\<lparr> h1_req := empty_request, h1_buffer := [], h1_state := STATE_READ_HEADERS, h1_outside := False \<rparr>"

section \<open>Reading\<close>

text \<open>One call of \<open>recv\<close> for at most \<open>k\<close> bytes; what it leaves stays in the socket.\<close>

fun take_input :: "nat \<Rightarrow> recv_result list \<Rightarrow> recv_result \<times> recv_result list" where
  "take_input k [] = (RecvAgain, [])"
| "take_input k (Received b # rs) =
     (if k = 0 then (Received [], Received b # rs)
      else if length b \<le> k then (Received b, rs) else (Received (take k b), Received (drop k b) # rs))"
| "take_input k (r # rs) = (r, rs)"

fun input_size :: "recv_result list \<Rightarrow> nat" where
  "input_size [] = 0"
| "input_size (Received b # rs) = Suc (length b) + input_size rs"
| "input_size (_ # rs) = Suc (input_size rs)"

lemma take_input_less: "take_input k rs = (Received b, rs') \<Longrightarrow> b \<noteq> [] \<Longrightarrow> input_size rs' < input_size rs"
  by (cases "(k, rs)" rule: take_input.cases) (auto split: if_splits)

text \<open>The buffer is doubled when it is full; the request may then be left with pointers into nothing.\<close>

datatype growth = Grown HTTP1Session | NoMemory | Dangling

definition h1_grow :: "h1_env \<Rightarrow> HTTP1Session \<Rightarrow> growth" where
  "h1_grow e s =
     (if h1_buf_capacity s - 1 \<le> length (h1_buffer s) then
        (if \<not> me_realloc_ok e then NoMemory
         else if me_moved e \<and> h1_outside s then Dangling
         else Grown (s\<lparr> h1_buf_capacity := 2 * h1_buf_capacity s \<rparr>))
      else Grown s)"

datatype read_end = ReadMore | ReadClosed | ReadFailed | ReadFull | ReadNoMemory | ReadDangling

function read_until :: "(bytes \<Rightarrow> bool) \<Rightarrow> h1_env \<Rightarrow> recv_result list \<Rightarrow> HTTP1Session \<Rightarrow> read_end \<times> HTTP1Session \<times> recv_result list" where
  "read_until full e rs s =
     (case h1_grow e s of
        NoMemory \<Rightarrow> (ReadNoMemory, s, rs)
      | Dangling \<Rightarrow> (ReadDangling, s, rs)
      | Grown s1 \<Rightarrow>
          (case take_input (h1_buf_capacity s1 - length (h1_buffer s1) - 1) rs of
             (Received b, rs') \<Rightarrow>
               if b = [] then (ReadClosed, s1, rs')
               else let s2 = s1\<lparr> h1_buffer := h1_buffer s1 @ b \<rparr>
                    in if full (h1_buffer s2) then (ReadFull, s2, rs') else read_until full e rs' s2
           | (RecvAgain, rs') \<Rightarrow> (ReadMore, s1, rs')
           | (RecvFail, rs') \<Rightarrow> (ReadFailed, s1, rs')
           | (RecvEof, rs') \<Rightarrow> (ReadClosed, s1, rs')))"
  by pat_completeness auto
termination
  by (relation "measure (\<lambda>(_, _, rs, _). input_size rs)") (auto dest: take_input_less [OF sym])

declare read_until.simps [simp del]

text \<open>The header is there when the empty line is, in the text before the first NUL.\<close>

definition has_header :: "bytes \<Rightarrow> bool" where
  "has_header b \<longleftrightarrow> header_of b \<noteq> None"

text \<open>Whether the path of the request was written to \<open>route_result\<close>: for "/", and when a route matches.\<close>

definition asks_root :: "string \<Rightarrow> bool" where
  "asks_root line =
     (case c_strchr (CHR '' '') line of
        None \<Rightarrow> False
      | Some rest \<Rightarrow> takeWhile (\<lambda>c. c \<noteq> CHR ''?'') (takeWhile (\<lambda>c. c \<noteq> CHR '' '') (tl rest)) = ''/'')"

definition rewritten :: "Config \<Rightarrow> bytes \<Rightarrow> RequestHeader \<Rightarrow> bool" where
  "rewritten cfg raw req =
     (case header_of raw of
        None \<Rightarrow> False
      | Some h \<Rightarrow>
          (case parse_header_text cfg h req of
             (r, vhosts) \<Rightarrow> rh_is_valid r
               \<and> (asks_root (hd (header_lines (h @ NL1))) \<and> route_default cfg \<noteq> None
                  \<or> http_route_match (case rh_vhost r of Some i \<Rightarrow> Some (vhosts ! i) | None \<Rightarrow> None)
                       (case rh_uri r of Some u \<Rightarrow> u | None \<Rightarrow> []) \<noteq> None)))"

text \<open>
  The two phases of reading.  A phase ends with a status for the caller, or goes on (\<open>None\<close>); the outer
  \<open>None\<close> is damaged memory.
\<close>

type_synonym h1_step = "(int option \<times> HTTP1Session \<times> h1_world) option"

definition seen_from :: "h1_env \<Rightarrow> RequestHeader \<Rightarrow> RequestHeader" where
  "seen_from e req =
     req\<lparr> rh_is_tls := me_is_tls e, rh_client_ip := (case me_peer e of Some ip \<Rightarrow> ip | None \<Rightarrow> rh_client_ip req) \<rparr>"

definition parse_received :: "h1_env \<Rightarrow> HTTP1Session \<Rightarrow> h1_world \<Rightarrow> h1_step" where
  "parse_received e s w =
     (let req = seen_from e (h1_req s)
      in case http1_parser_parse_header (hw_config w) (h1_buffer s) req of
           None \<Rightarrow> None
         | Some (ok, r, vhosts) \<Rightarrow>
             let w1 = w\<lparr> hw_config := (hw_config w)\<lparr> cf_vhosts := vhosts \<rparr> \<rparr>;
                 s1 = s\<lparr> h1_req := r, h1_outside := rewritten (hw_config w) (h1_buffer s) req \<rparr>
             in if \<not> ok then Some (Some 0, s1, send_mem e 400 ''Bad Request'' ''400 Bad Request'' w1)
                else Some (None, s1\<lparr> h1_state := (if 0 < rh_content_length r then STATE_READ_BODY else STATE_HANDLE_REQUEST) \<rparr>, w1))"

definition h1_read_headers :: "h1_env \<Rightarrow> HTTP1Session \<Rightarrow> h1_world \<Rightarrow> h1_step" where
  "h1_read_headers e s w =
     (case read_until has_header e (hw_input w) s of
        (why, s1, rest) \<Rightarrow>
          let w1 = w\<lparr> hw_input := rest \<rparr>
          in if why = ReadNoMemory then Some (Some (-1), s1, w1)
             else if why = ReadDangling then None
             else if why = ReadClosed \<and> h1_buffer s1 = [] then Some (Some 0, s1, w1)
             else if \<not> has_header (h1_buffer s1) then
               Some (Some (if why = ReadClosed then 0 else if why = ReadMore then 2 else -1), s1, w1)
             else parse_received e s1 w1)"

definition body_full :: "RequestHeader \<Rightarrow> nat \<Rightarrow> bytes \<Rightarrow> bool" where
  "body_full req header_len b \<longleftrightarrow> nat (rh_content_length req) \<le> length b - header_len"

definition h1_read_body :: "h1_env \<Rightarrow> HTTP1Session \<Rightarrow> h1_world \<Rightarrow> h1_step" where
  "h1_read_body e s w =
     (let header_len = length (h1_buffer s) - length (rh_body (h1_req s));
          full = body_full (h1_req s) header_len;
          with_body = (\<lambda>s. s\<lparr> h1_req := (h1_req s)\<lparr> rh_body := drop header_len (h1_buffer s) \<rparr> \<rparr>)
      in if full (h1_buffer s) then Some (None, s\<lparr> h1_state := STATE_HANDLE_REQUEST \<rparr>, w)
         else
           (case read_until full e (hw_input w) s of
              (why, s1, rest) \<Rightarrow>
                let w1 = w\<lparr> hw_input := rest \<rparr>; s2 = with_body s1
                in case why of
                     ReadFull \<Rightarrow> Some (None, s2\<lparr> h1_state := STATE_HANDLE_REQUEST \<rparr>, w1)
                   | ReadMore \<Rightarrow> Some (Some 2, s2, w1)
                   | ReadClosed \<Rightarrow> Some (Some 0, s2, w1)
                   | ReadDangling \<Rightarrow> None
                   | _ \<Rightarrow> Some (Some (-1), s2, w1)))"

section \<open>Answering\<close>

definition request_host :: "Config \<Rightarrow> RequestHeader \<Rightarrow> VHostEntry option" where
  "request_host cfg req = map_option (\<lambda>i. cf_vhosts cfg ! i) (rh_vhost req)"

definition file_header :: "string \<Rightarrow> nat \<Rightarrow> bool \<Rightarrow> string" where
  "file_header uri n ka =
     c_copy 1024 (''HTTP/1.1 200 OK'' @ CRLF @ ''Content-Type: '' @ get_mime_type uri @ CRLF
       @ ''Content-Length: '' @ dec_nat n @ CRLF @ ''Server: Halmos/1.0.0'' @ CRLF
       @ ''Connection: '' @ (if ka then ''keep-alive'' else ''close'') @ CRLF @ CRLF)"

definition start_fastcgi :: "h1_env \<Rightarrow> int \<Rightarrow> nat \<Rightarrow> HTTP1Session \<Rightarrow> h1_world \<Rightarrow> int \<times> HTTP1Session option \<times> h1_world" where
  "start_fastcgi e fd backend_type s w =
     (let req = h1_req s
      in case fcgi_session_http1_create (hw_config w) (request_host (hw_config w) req) (me_quiet e) (me_created e) (me_malloc_ok e)
                fd backend_type req (Some (rh_body req)) (nat (rh_content_length req)) 1 (hw_pool w) of
           (sess, closed, p, vhosts) \<Rightarrow>
             let w1 = w\<lparr> hw_pool := p, hw_closed := hw_closed w @ closed,
                          hw_config := (hw_config w)\<lparr> cf_vhosts := vhosts \<rparr> \<rparr>
             in case sess of
                  None \<Rightarrow> (0, Some s, send_mem e 502 ''Bad Gateway'' ''502 Bad Gateway'' w1)
                | Some f \<Rightarrow> (3, Some (s\<lparr> h1_fcgi_sess := Some f, h1_state := STATE_FCGI_PROCESSING \<rparr>), w1))"

definition start_file :: "h1_env \<Rightarrow> HTTP1Session \<Rightarrow> h1_world \<Rightarrow> int \<times> HTTP1Session option \<times> h1_world" where
  "start_file e s w =
     (let req = h1_req s; vh = request_host (hw_config w) req;
          uri = (case rh_uri req of Some u \<Rightarrow> u | None \<Rightarrow> []);
          active_root = (case vh of Some h \<Rightarrow> if vh_root h \<noteq> [] then vh_root h else cf_document_root (hw_config w)
                         | None \<Rightarrow> cf_document_root (hw_config w));
          found = (case sanitize_path (me_realpath e) active_root uri of Some path \<Rightarrow> me_file e path | None \<Rightarrow> NoFile)
      in case found of
           NoFile \<Rightarrow> (0, Some s, send_mem e 404 ''Not Found'' ''<h1>404 Not Found</h1>'' w)
         | NotOpened \<Rightarrow> (0, Some (s\<lparr> h1_file_fd := -1 \<rparr>), w)
         | File fd n \<Rightarrow>
             (3, Some (s\<lparr> h1_file_fd := fd, h1_file_remaining := n, h1_file_offset := 0,
                           h1_header_buf := bytes_of (file_header uri n (rh_is_keep_alive req)),
                           h1_header_sent_offset := 0, h1_is_header_sent := False, h1_state := STATE_SEND_STATIC_FILE \<rparr>), w))"

text \<open>An upgrade hands the connection to the WebSocket module; the session itself is left behind.\<close>

definition http1_manager_routing_bridge :: "h1_env \<Rightarrow> int \<Rightarrow> HTTP1Session \<Rightarrow> h1_world \<Rightarrow> int \<times> HTTP1Session option \<times> h1_world" where
  "http1_manager_routing_bridge e fd s w =
     (if rh_is_upgrade (h1_req s) \<and> rh_uri (h1_req s) = Some ''/ws'' then
        (1, None, w\<lparr> hw_handshake := Some (h1_req s) \<rparr>)
      else case backend_type_of (hw_config w) (h1_req s) of
             Some backend_type \<Rightarrow> start_fastcgi e fd backend_type s w
           | None \<Rightarrow> start_file e s w)"

text \<open>The steps of a FastCGI request, all in one call: a hundred attempts of a second.\<close>

fun fcgi_attempts ::
  "nat \<Rightarrow> (poll_answer \<times> step_env) list \<Rightarrow> HalmosFCGISession \<Rightarrow> relay
     \<Rightarrow> FCGISessionStatus \<times> HalmosFCGISession \<times> bytes \<times> int list \<times> relay" where
  "fcgi_attempts 0 ts f rl = (FCGI_SES_STATUS_CONTINUE, f, [], [], rl)"
| "fcgi_attempts (Suc n) [] f rl = fcgi_attempts n [] f rl"
| "fcgi_attempts (Suc n) ((a, se) # ts) f rl =
     (case a of
        PollIntr \<Rightarrow> fcgi_attempts n ts f rl
      | PollTimeout \<Rightarrow> fcgi_attempts n ts f rl
      | PollFail \<Rightarrow> (FCGI_SES_STATUS_ERROR, f, [], [], rl)
      | PollReady readable writable gone \<Rightarrow>
          if gone then (FCGI_SES_STATUS_ERROR, f, [], [], rl)
          else
            let receiving = (fs_state f = FCGI_SES_STATE_RECEIVING)
            in case fcgi_session_http1_step (se\<lparr> se_pollin := readable \<and> receiving, se_pollout := writable \<and> \<not> receiving \<rparr>) rl f of
                 (status, f1, out, closed, rl1) \<Rightarrow>
                   if status \<noteq> FCGI_SES_STATUS_CONTINUE then (status, f1, out, closed, rl1)
                   else if fs_state f1 = FCGI_SES_STATE_FINISHED then (FCGI_SES_STATUS_COMPLETED, f1, out, closed, rl1)
                   else (case fcgi_attempts n ts f1 rl1 of
                           (status', f2, out', closed', rl2) \<Rightarrow> (status', f2, out @ out', closed @ closed', rl2)))"

definition run_fastcgi :: "h1_env \<Rightarrow> HalmosFCGISession \<Rightarrow> HTTP1Session \<Rightarrow> h1_world \<Rightarrow> int \<times> HTTP1Session option \<times> h1_world" where
  "run_fastcgi e f s w =
     (case fcgi_attempts 100 (me_polls e) f \<lparr> rl_backend = me_backend e, rl_client = me_relayed e, rl_out = [] \<rparr> of
        (status, f1, out, closed, rl) \<Rightarrow>
          let w1 = w\<lparr> hw_to_backend := hw_to_backend w @ out, hw_closed := hw_closed w @ closed,
                       hw_to_client := hw_to_client w @ rl_out rl \<rparr>;
              w2 = (if status \<noteq> FCGI_SES_STATUS_COMPLETED \<and> \<not> h1_is_header_sent s
                    then send_mem e 502 ''Bad Gateway'' ''502 Bad Gateway'' w1 else w1)
          in case fcgi_session_destroy (hw_config w2) (me_healthy e) f1 (hw_pool w2) of
               (closed', p) \<Rightarrow>
                 (if rh_is_keep_alive (h1_req s) then 2 else 0, Some (h1_reset (s\<lparr> h1_fcgi_sess := None \<rparr>)),
                  w2\<lparr> hw_pool := p, hw_closed := hw_closed w2 @ closed' \<rparr>))"

definition h1_close_file :: "HTTP1Session \<Rightarrow> int list \<times> HTTP1Session" where
  "h1_close_file s = (if 0 \<le> h1_file_fd s then ([h1_file_fd s], s\<lparr> h1_file_fd := -1 \<rparr>) else ([], s))"

definition send_static :: "h1_env \<Rightarrow> HTTP1Session \<Rightarrow> h1_world \<Rightarrow> int \<times> HTTP1Session option \<times> h1_world" where
  "send_static e s w =
     (let content = me_contents e (h1_file_fd s)
      in case (if me_is_tls e then http1_response_ssl content (me_ssl_sends e) s
               else http1_response_plain content (me_sends e) s) of
           (res, s1, out) \<Rightarrow>
             let w1 = w\<lparr> hw_to_client := hw_to_client w @ out \<rparr>
             in if res = 2 \<or> res = 3 then (res, Some s1, w1)
                else (case h1_close_file s1 of
                        (closed, s2) \<Rightarrow>
                          let w2 = w1\<lparr> hw_closed := hw_closed w1 @ closed \<rparr>
                          in if res \<le> 0 then (0, Some (s2\<lparr> h1_req := http1_parser_free_memory (h1_req s2) \<rparr>), w2)
                             else (if rh_is_keep_alive (h1_req s2) then 2 else 0, Some (h1_reset s2), w2)))"

section \<open>The manager\<close>

definition and_phase :: "h1_step \<Rightarrow> (HTTP1Session \<Rightarrow> h1_world \<Rightarrow> h1_step) \<Rightarrow> h1_step" where
  "and_phase r f = (case r of Some (None, s, w) \<Rightarrow> f s w | _ \<Rightarrow> r)"

definition h1_read :: "h1_env \<Rightarrow> HTTP1Session \<Rightarrow> h1_world \<Rightarrow> h1_step" where
  "h1_read e s w =
     and_phase (if h1_state s = STATE_READ_HEADERS then h1_read_headers e s w else Some (None, s, w))
       (\<lambda>s1 w1. if h1_state s1 = STATE_READ_BODY then h1_read_body e s1 w1 else Some (None, s1, w1))"

definition http1_manager_session ::
  "h1_env \<Rightarrow> int \<Rightarrow> HTTP1Session option \<Rightarrow> h1_world \<Rightarrow> (int \<times> HTTP1Session option \<times> h1_world) option" where
  "http1_manager_session e fd session w =
     (let s0 = (case session of Some s \<Rightarrow> s | None \<Rightarrow> h1_new (hw_config w))
      in case h1_read e s0 w of
           None \<Rightarrow> None
         | Some (Some r, s, w1) \<Rightarrow> Some (r, Some s, w1)
         | Some (None, s, w1) \<Rightarrow>
             Some (if h1_state s = STATE_HANDLE_REQUEST then http1_manager_routing_bridge e fd s w1
                   else if h1_state s = STATE_FCGI_PROCESSING then
                     (case h1_fcgi_sess s of Some f \<Rightarrow> run_fastcgi e f s w1 | None \<Rightarrow> (-1, Some s, w1))
                   else if h1_state s = STATE_SEND_STATIC_FILE then send_static e s w1
                   else (2, Some s, w1)))"

section \<open>Requests in pieces\<close>

text \<open>The socket becomes readable again and again; each time the reading phases take what there is.\<close>

fun feed :: "h1_env \<Rightarrow> bytes list list \<Rightarrow> HTTP1Session \<Rightarrow> h1_world \<Rightarrow> h1_step" where
  "feed e [] s w = Some (Some 2, s, w)"
| "feed e (bs # wakes) s w =
     (case h1_read e s (w\<lparr> hw_input := map Received bs \<rparr>) of
        Some (Some r, s', w') \<Rightarrow> if r = 2 then feed e wakes s' w' else Some (Some r, s', w')
      | x \<Rightarrow> x)"

lemma cstr_take: "cstr (take k x) = take k (cstr x)"
  unfolding cstr_def by (induction x arbitrary: k) (auto simp: take_Cons split: nat.splits)

lemma memmem_first: "memmem s b = Some t \<Longrightarrow> \<exists>u v. s = u @ b @ v \<and> t = b @ v \<and> memmem (u @ b) b = Some b"
proof (induction s arbitrary: t)
  case Nil
  then show ?case using memmem_here [of b "[]"] by (subst (asm) memmem.simps) (auto split: if_splits)
next
  case (Cons x s)
  show ?case
  proof (cases "take (length b) (x # s) = b")
    case True
    then obtain v where v: "x # s = b @ v" by (metis append_take_drop_id)
    moreover have "t = x # s" using Cons.prems True by (subst (asm) memmem.simps) simp
    moreover have "memmem ([] @ b) b = Some b" using memmem_here [of b "[]"] by simp
    ultimately show ?thesis by (metis append_Nil)
  next
    case False
    then have "memmem s b = Some t" using Cons.prems by (subst (asm) memmem.simps) simp
    then obtain u v where s: "s = u @ b @ v" "t = b @ v" "memmem (u @ b) b = Some b" using Cons.IH by blast
    have "take (length b) (x # u @ b) = take (length b) (x # s)"
      unfolding s(1) by (cases "length b") (simp_all add: take_Cons')
    then have "memmem (x # u @ b) b = Some b" using False s(3) by (subst memmem.simps) simp
    then show ?thesis using s(1,2) by (intro exI [of _ "x # u"] exI [of _ v]) simp
  qed
qed

lemma length_NL1 [simp]: "length NL1 = 2"
  by (simp add: NL1_def)

lemma header_of_prefix:
  assumes "header_of raw = Some h"
  shows "header_of (take k raw) = (if length h + 4 \<le> k then Some h else None)"
proof -
  let ?s = "cstr (text_of raw)" and ?N = "NL1 @ NL1"
  obtain t where t: "memmem ?s ?N = Some t" "h = take (length ?s - length t) ?s"
    using assms by (auto simp: header_of_def Let_def)
  obtain u v where uv: "?s = u @ ?N @ v" "t = ?N @ v" "memmem (u @ ?N) ?N = Some ?N" using memmem_first [OF t(1)] by blast
  have h: "h = u" using t(2) uv by simp
  have cut: "cstr (text_of (take k raw)) = take k ?s" using cstr_take [of k "text_of raw"] by simp
  have len: "length ?N = 4" by (simp add: NL1_def)
  show ?thesis
  proof (cases "length h + 4 \<le> k")
    case True
    then have "take k ?s = u @ ?N @ take (k - (length u + 4)) v" using uv(1) h by (simp add: eval_nat_numeral)
    then have "memmem (take k ?s) ?N = Some (?N @ take (k - (length u + 4)) v)" using memmem_extend [OF uv(3)] by simp
    then show ?thesis using True h uv(1) \<open>take k ?s = _\<close> by (simp add: header_of_def cut Let_def)
  next
    case False
    have "memmem (take k ?s) ?N = None"
    proof (rule ccontr)
      assume "memmem (take k ?s) ?N \<noteq> None"
      then obtain t' where "memmem (take k ?s) ?N = Some t'" by blast
      then obtain u' v' where w: "take k ?s = u' @ ?N @ v'" "memmem (u' @ ?N) ?N = Some ?N" using memmem_first by blast
      then have "?s = u' @ ?N @ (v' @ drop k ?s)" by (metis append.assoc append_take_drop_id)
      with memmem_extend [OF w(2), of "v' @ drop k ?s"] t(1) uv(2) have "?N @ v = ?N @ v' @ drop k ?s" by simp
      then have "length v = length v' + (length ?s - k)" by simp
      moreover have "min (length ?s) k = length u' + 4 + length v'" using arg_cong [OF w(1), of length] by simp
      moreover have "length ?s = length u + 4 + length v" using arg_cong [OF uv(1), of length] by simp
      ultimately show False using False h by (simp add: min_def split: if_splits)
    qed
    then show ?thesis using False by (simp add: header_of_def cut Let_def)
  qed
qed

text \<open>A request whose header is complete is the same request whatever part of its body is there.\<close>

lemma header_of_short: "header_of raw = Some h \<Longrightarrow> length h + 4 \<le> length raw"
  using header_of_prefix [of raw h "length raw"] by (simp split: if_splits)

lemma parse_prefix:
  assumes "http1_parser_parse_header cfg raw req = Some (True, r, vhosts)" and "header_of raw = Some h" and "length h + 4 \<le> k"
    and "\<forall>t. rh_content_type r = Some t \<longrightarrow> c_strstr t ''multipart/form-data'' = None"
  shows "http1_parser_parse_header cfg (take k raw) req = Some (True, r\<lparr> rh_body := drop (length h + 4) (take k raw) \<rparr>, vhosts)
    \<and> rh_body r = drop (length h + 4) raw"
proof -
  obtain r1 vs where p: "parse_header_text cfg h req = (r1, vs)" by force
  obtain r2 where r2: "route_request vs r1 = Some r2"
    using assms(1) unfolding parse_with_header [OF assms(2) p] by (cases "route_request vs r1") simp_all
  have whole: "parse_multipart (r2\<lparr> rh_body := drop (length h + 4) raw \<rparr>) = Some r" and v: "rh_is_valid r" "vhosts = vs"
    using assms(1) unfolding parse_with_header [OF assms(2) p] r2 by auto
  have "rh_content_type r2 = rh_content_type r" using parse_multipart_type [OF whole] by simp
  then have none: "parse_multipart (r2\<lparr> rh_body := b \<rparr>) = Some (r2\<lparr> rh_body := b \<rparr>)" for b
    using assms(4) by (intro parse_multipart_none) simp
  then have r: "r = r2\<lparr> rh_body := drop (length h + 4) raw \<rparr>" using whole by simp
  have "header_of (take k raw) = Some h" using header_of_prefix [OF assms(2)] assms(3) by simp
  from parse_with_header [OF this p] show ?thesis
    using v by (simp add: r2 none r)
qed

section \<open>Any pieces, the same request\<close>

text \<open>
  One reading phase, on a socket that delivers a part of \<open>raw\<close>: it stops with \<open>m\<close> bytes or more in the
  buffer, or takes everything there is.
\<close>

abbreviation holding :: "bytes \<Rightarrow> nat \<Rightarrow> nat \<Rightarrow> HTTP1Session \<Rightarrow> HTTP1Session" where
  "holding raw k cap s \<equiv> s\<lparr> h1_buffer := take k raw, h1_buf_capacity := cap \<rparr>"

lemma read_until_prefix:
  assumes full: "\<And>k. k \<le> length raw \<Longrightarrow> full (take k raw) = (m \<le> k)"
    and ok: "me_realloc_ok e" "\<not> (me_moved e \<and> h1_outside s)"
  shows "k < m \<Longrightarrow> m \<le> length raw \<Longrightarrow> k < cap \<Longrightarrow> 2 \<le> cap \<Longrightarrow> [] \<notin> set bs \<Longrightarrow> drop k raw = concat bs @ later \<Longrightarrow>
    \<exists>why k' cap' bs'. read_until full e (map Received bs) (holding raw k cap s) = (why, holding raw k' cap' s, map Received bs')
      \<and> k \<le> k' \<and> k' \<le> length raw \<and> k' < cap' \<and> 2 \<le> cap' \<and> [] \<notin> set bs' \<and> drop k' raw = concat bs' @ later
      \<and> (why = ReadFull \<and> m \<le> k' \<or> why = ReadMore \<and> k' < m \<and> bs' = [])"
proof (induction "input_size (map Received bs)" arbitrary: bs k cap rule: less_induct)
  case less
  define cap1 where "cap1 = (if cap - 1 \<le> k then 2 * cap else cap)"
  have cap: "k < cap1" "2 \<le> cap1" "0 < cap1 - k - 1" using less.prems(3,4) by (auto simp: cap1_def)
  have grow: "h1_grow e (holding raw k cap s) = Grown (holding raw k cap1 s)"
    using ok less.prems(1,2) by (auto simp: h1_grow_def cap1_def)
  show ?case
  proof (cases bs)
    case Nil
    then have "read_until full e (map Received bs) (holding raw k cap s) = (ReadMore, holding raw k cap1 s, map Received [])"
      by (subst read_until.simps) (simp add: grow)
    then show ?thesis using less.prems cap Nil by (intro exI [of _ ReadMore] exI [of _ k] exI [of _ cap1] exI [of _ "[]"]) auto
  next
    case (Cons b bs1)
    define n where "n = min (length b) (cap1 - k - 1)"
    define bs2 where "bs2 = (if length b \<le> cap1 - k - 1 then bs1 else drop n b # bs1)"
    have b: "b \<noteq> []" using less.prems(5) Cons by auto
    have n: "0 < n" "n \<le> length b" using b cap(3) by (auto simp: n_def)
    have rest: "drop k raw = b @ concat bs1 @ later" using less.prems(6) Cons by simp
    have "length raw - k = length b + length (concat bs1 @ later)" using arg_cong [OF rest, of length] by (simp only: length_drop length_append)
    then have kn: "k + length b \<le> length raw" using less.prems(1,2) by linarith
    have n_cases: "length b \<le> cap1 - k - 1 \<Longrightarrow> n = length b" "\<not> length b \<le> cap1 - k - 1 \<Longrightarrow> n = cap1 - k - 1"
      by (auto simp: n_def)
    have taken_in: "take_input (cap1 - k - 1) (map Received bs) = (Received (take n b), map Received bs2)"
      using cap(3) by (auto simp: Cons bs2_def n_def)
    have bs2: "[] \<notin> set bs2" "input_size (map Received bs2) < input_size (map Received bs)"
      using less.prems(5) n n_cases Cons b cap(3) by (auto simp: bs2_def)
    have rest': "drop (k + n) raw = concat bs2 @ later"
      using rest by (simp add: drop_drop [symmetric] add.commute [of k] bs2_def n_def)
    have more_read: "take k raw @ take n b = take (k + n) raw" using rest n(2) by (simp add: take_add)
    have taken_next: "take_input (cap1 - Suc k) (map Received bs) = (Received (take n b), map Received bs2)" using taken_in by simp
    have swap: "s\<lparr> h1_buf_capacity := cap1, h1_buffer := x \<rparr> = s\<lparr> h1_buffer := x, h1_buf_capacity := cap1 \<rparr>" for x by simp
    have at: "length (take k raw) = k" using less.prems(1,2) by simp
    have "k + n \<le> length raw" using kn n(2) by simp
    then have step: "read_until full e (map Received bs) (holding raw k cap s) =
      (if m \<le> k + n then (ReadFull, holding raw (k + n) cap1 s, map Received bs2)
       else read_until full e (map Received bs2) (holding raw (k + n) cap1 s))"
      using full [of "k + n"]
      by (subst read_until.simps) (use b n(1) in \<open>simp add: grow at taken_next more_read swap Let_def\<close>)
    have room: "k + n < cap1" using cap n_def by simp
    show ?thesis
    proof (cases "m \<le> k + n")
      case True
      then show ?thesis using step rest' bs2 kn n cap room by (intro exI [of _ ReadFull] exI [of _ "k + n"] exI [of _ cap1] exI [of _ bs2]) auto
    next
      case False
      from less.hyps [OF bs2(2) _ less.prems(2) room cap(2) bs2(1) rest'] False
      obtain why k' cap' bs' where "read_until full e (map Received bs2) (holding raw (k + n) cap1 s) = (why, holding raw k' cap' s, map Received bs')
        \<and> k + n \<le> k' \<and> k' \<le> length raw \<and> k' < cap' \<and> 2 \<le> cap' \<and> [] \<notin> set bs' \<and> drop k' raw = concat bs' @ later
        \<and> (why = ReadFull \<and> m \<le> k' \<or> why = ReadMore \<and> k' < m \<and> bs' = [])" by fastforce
      then show ?thesis using step False by (intro exI [of _ why] exI [of _ k'] exI [of _ cap'] exI [of _ bs']) auto
    qed
  qed
qed

abbreviation reading_body :: "bytes \<Rightarrow> string \<Rightarrow> RequestHeader \<Rightarrow> nat \<Rightarrow> nat \<Rightarrow> HTTP1Session \<Rightarrow> HTTP1Session" where
  "reading_body raw h r k cap s \<equiv> holding raw k cap (s\<lparr> h1_req := r\<lparr> rh_body := drop (length h + 4) (take k raw) \<rparr> \<rparr>)"

text \<open>The body phase, at one wake-up and over all of them.\<close>

lemma body_wake:
  assumes ok: "me_realloc_ok e" "\<not> (me_moved e \<and> h1_outside s)"
    and len: "length raw = length h + 4 + nat (rh_content_length r)"
    and k: "length h + 4 \<le> k" "k < length raw" "k < cap" "2 \<le> cap"
    and bs: "[] \<notin> set bs" "drop k raw = concat bs @ later"
  shows "\<exists>k' cap'. k' \<le> length raw \<and> length h + 4 \<le> k' \<and> k' < cap' \<and> 2 \<le> cap' \<and> drop k' raw = later \<and>
    h1_read_body e (reading_body raw h r k cap s) (w\<lparr> hw_input := map Received bs \<rparr>) =
      (if k' = length raw then Some (None, (reading_body raw h r k' cap' s)\<lparr> h1_state := STATE_HANDLE_REQUEST \<rparr>, w\<lparr> hw_input := [] \<rparr>)
       else Some (Some 2, reading_body raw h r k' cap' s, w\<lparr> hw_input := [] \<rparr>))"
proof -
  let ?N = "length h + 4" and ?s = "s\<lparr> h1_req := r\<lparr> rh_body := drop (length h + 4) (take k raw) \<rparr> \<rparr>"
  let ?full = "body_full (r\<lparr> rh_body := drop ?N (take k raw) \<rparr>) ?N"
  have full_at: "j \<le> length raw \<Longrightarrow> ?full (take j raw) = (length raw \<le> j)" for j
    using len k(1,2) by (auto simp: body_full_def)
  have outside: "\<not> (me_moved e \<and> h1_outside ?s)" using ok(2) by simp
  obtain why k' cap' bs' where run: "read_until ?full e (map Received bs) (holding raw k cap ?s) = (why, holding raw k' cap' ?s, map Received bs')"
    and k': "k \<le> k'" "k' \<le> length raw" "k' < cap'" "2 \<le> cap'" "[] \<notin> set bs'" "drop k' raw = concat bs' @ later"
      "why = ReadFull \<and> length raw \<le> k' \<or> why = ReadMore \<and> k' < length raw \<and> bs' = []"
    using read_until_prefix [where full = ?full, OF full_at ok(1) outside k(2) order_refl k(3,4) bs] by blast
  have none: "bs' = []" using k'(2,5-7) by (cases bs') auto
  have header_len: "length (take k raw) - length (rh_body (h1_req (holding raw k cap ?s))) = ?N" using k(1,2) by simp
  have "\<not> ?full (take k raw)" using full_at [of k] k(2) by simp
  then show ?thesis using k' k(1) run none
    by (intro exI [of _ k'] exI [of _ cap'])
      (auto simp: h1_read_body_def header_len Let_def split: if_splits)
qed

lemma feed_body:
  assumes ok: "me_realloc_ok e" and len: "length raw = length h + 4 + nat (rh_content_length r)"
  shows "\<not> (me_moved e \<and> h1_outside s) \<Longrightarrow> h1_state s = STATE_READ_BODY \<Longrightarrow> length h + 4 \<le> k \<Longrightarrow> k < length raw \<Longrightarrow> k < cap
    \<Longrightarrow> 2 \<le> cap \<Longrightarrow> [] \<notin> set (concat wakes) \<Longrightarrow> drop k raw = concat (concat wakes) \<Longrightarrow>
    \<exists>cap'. feed e wakes (reading_body raw h r k cap s) w =
      Some (None, (reading_body raw h r (length raw) cap' s)\<lparr> h1_state := STATE_HANDLE_REQUEST \<rparr>, w\<lparr> hw_input := [] \<rparr>)"
proof (induction wakes arbitrary: k cap w)
  case Nil
  then show ?case by simp
next
  case (Cons bs wakes)
  have "[] \<notin> set bs" "drop k raw = concat bs @ concat (concat wakes)" using Cons.prems(7,8) by auto
  from body_wake [OF ok Cons.prems(1) len Cons.prems(3-6) this, of w]
  obtain k' cap' where k': "k' \<le> length raw" "length h + 4 \<le> k'" "k' < cap'" "2 \<le> cap'" "drop k' raw = concat (concat wakes)"
    and run: "h1_read_body e (reading_body raw h r k cap s) (w\<lparr> hw_input := map Received bs \<rparr>) =
      (if k' = length raw then Some (None, (reading_body raw h r k' cap' s)\<lparr> h1_state := STATE_HANDLE_REQUEST \<rparr>, w\<lparr> hw_input := [] \<rparr>)
       else Some (Some 2, reading_body raw h r k' cap' s, w\<lparr> hw_input := [] \<rparr>))" by blast
  have read: "h1_read e (reading_body raw h r k cap s) v = h1_read_body e (reading_body raw h r k cap s) v" for v
    using Cons.prems(2) by (simp add: h1_read_def and_phase_def)
  show ?case
  proof (cases "k' = length raw")
    case True
    then show ?thesis by (intro exI [of _ cap']) (simp add: read run)
  next
    case False
    then have "k' < length raw" using k'(1) by simp
    from Cons.IH [OF Cons.prems(1,2) k'(2) this k'(3,4) _ k'(5), of "w\<lparr> hw_input := [] \<rparr>"] Cons.prems(7) False
    show ?thesis by (simp add: read run)
  qed
qed

lemma hw_swap: "w\<lparr> hw_config := c, hw_input := i \<rparr> = w\<lparr> hw_input := i, hw_config := c \<rparr>"
  by simp

text \<open>The header phase: it ends in one of three ways.\<close>

lemma header_wake:
  assumes ok: "me_realloc_ok e" and parsed: "http1_parser_parse_header (hw_config w) raw (seen_from e (h1_req s)) = Some (True, r, vhosts)"
    and h: "header_of raw = Some h"
    and one_part: "\<forall>t. rh_content_type r = Some t \<longrightarrow> c_strstr t ''multipart/form-data'' = None"
    and len: "length raw = length h + 4 + nat (rh_content_length r)"
    and outside: "\<not> h1_outside s" "me_moved e \<Longrightarrow> \<not> rewritten (hw_config w) raw (seen_from e (h1_req s))"
    and st: "h1_state s = STATE_READ_HEADERS"
    and k: "k < length h + 4" "k < cap" "2 \<le> cap" and bs: "[] \<notin> set bs" "drop k raw = concat bs @ later"
  defines "s1 \<equiv> s\<lparr> h1_outside := rewritten (hw_config w) raw (seen_from e (h1_req s)), h1_state := STATE_READ_BODY \<rparr>"
    and "w1 \<equiv> w\<lparr> hw_input := [], hw_config := (hw_config w)\<lparr> cf_vhosts := vhosts \<rparr> \<rparr>"
  shows "\<exists>k' cap'. k' \<le> length raw \<and> k' < cap' \<and> 2 \<le> cap' \<and> drop k' raw = later \<and>
    h1_read e (holding raw k cap s) (w\<lparr> hw_input := map Received bs \<rparr>) =
      (if k' = length raw then Some (None, (reading_body raw h r k' cap' s1)\<lparr> h1_state := STATE_HANDLE_REQUEST \<rparr>, w1)
       else if length h + 4 \<le> k' then Some (Some 2, reading_body raw h r k' cap' s1, w1)
       else Some (Some 2, holding raw k' cap' s, w\<lparr> hw_input := [] \<rparr>))"
proof -
  let ?N = "length h + 4"
  have full_at: "j \<le> length raw \<Longrightarrow> has_header (take j raw) = (?N \<le> j)" for j
    by (simp add: has_header_def header_of_prefix [OF h])
  have quiet: "\<not> (me_moved e \<and> h1_outside s)" using outside(1) by simp
  have "?N \<le> length raw" using len by simp
  then obtain why k1 cap1 bs1 where run: "read_until has_header e (map Received bs) (holding raw k cap s) = (why, holding raw k1 cap1 s, map Received bs1)"
    and k1: "k \<le> k1" "k1 \<le> length raw" "k1 < cap1" "2 \<le> cap1" "[] \<notin> set bs1" "drop k1 raw = concat bs1 @ later"
      "why = ReadFull \<and> ?N \<le> k1 \<or> why = ReadMore \<and> k1 < ?N \<and> bs1 = []"
    using read_until_prefix [OF full_at ok quiet k(1) _ k(2,3) bs] by blast
  show ?thesis
  proof (cases "?N \<le> k1")
    case False
    then have "why = ReadMore" "bs1 = []" "\<not> has_header (take k1 raw)" using k1(7) full_at [OF k1(2)] by auto
    then show ?thesis using False k1 run st \<open>?N \<le> length raw\<close>
      by (intro exI [of _ k1] exI [of _ cap1]) (simp add: h1_read_def h1_read_headers_def and_phase_def Let_def)
  next
    case True
    let ?w = "w\<lparr> hw_input := map Received bs1, hw_config := (hw_config w)\<lparr> cf_vhosts := vhosts \<rparr> \<rparr>"
    have full: "why = ReadFull" "has_header (take k1 raw)" "take k1 raw \<noteq> []"
      using True k1(7) full_at [OF k1(2)] \<open>?N \<le> length raw\<close> by auto
    have here: "header_of (take k1 raw) = Some h" using header_of_prefix [OF h, of k1] True by simp
    have rew: "rewritten cfg (take k1 raw) req = rewritten cfg raw req" for cfg req by (simp add: rewritten_def here h)
    have header: "h1_read_headers e (holding raw k cap s) (w\<lparr> hw_input := map Received bs \<rparr>) =
      Some (None, (reading_body raw h r k1 cap1 s1)\<lparr> h1_state := (if 0 < rh_content_length r then STATE_READ_BODY else STATE_HANDLE_REQUEST) \<rparr>, ?w)"
      using run full parse_prefix [OF parsed h True one_part]
      by (simp add: h1_read_headers_def parse_received_def Let_def rew s1_def)
    show ?thesis
    proof (cases "k1 = length raw")
      case True
      then have "bs1 = []" using k1(5,6) by (cases bs1) auto
      then have "h1_read e (holding raw k cap s) (w\<lparr> hw_input := map Received bs \<rparr>) =
        Some (None, (reading_body raw h r k1 cap1 s1)\<lparr> h1_state := STATE_HANDLE_REQUEST \<rparr>, w1)"
        using True len st header by (simp add: h1_read_def and_phase_def h1_read_body_def body_full_def Let_def w1_def)
      then show ?thesis using True k1 by (intro exI [of _ k1] exI [of _ cap1]) simp
    next
      case False
      then have more: "k1 < length raw" "0 < rh_content_length r" using k1(2) len True by auto
      have "\<not> (me_moved e \<and> h1_outside s1)" using outside(2) by (auto simp: s1_def)
      note wake = body_wake [OF ok this len True more(1) k1(3-6), of "w\<lparr> hw_config := (hw_config w)\<lparr> cf_vhosts := vhosts \<rparr> \<rparr>"]
      from wake
      obtain k' cap' where k': "k' \<le> length raw" "?N \<le> k'" "k' < cap'" "2 \<le> cap'" "drop k' raw = later"
        and body: "h1_read_body e (reading_body raw h r k1 cap1 s1) ?w =
          (if k' = length raw then Some (None, (reading_body raw h r k' cap' s1)\<lparr> h1_state := STATE_HANDLE_REQUEST \<rparr>, w1)
           else Some (Some 2, reading_body raw h r k' cap' s1, w1))" unfolding hw_swap w1_def by blast
      have same: "(reading_body raw h r k1 cap1 s1)\<lparr> h1_state := STATE_READ_BODY \<rparr> = reading_body raw h r k1 cap1 s1" by (simp add: s1_def)
      have "h1_read e (holding raw k cap s) (w\<lparr> hw_input := map Received bs \<rparr>) = h1_read_body e (reading_body raw h r k1 cap1 s1) ?w"
        using st header more same by (simp add: h1_read_def and_phase_def) (simp add: s1_def)
      then show ?thesis using k' body by (intro exI [of _ k'] exI [of _ cap']) simp
    qed
  qed
qed

lemma feed_request:
  assumes ok: "me_realloc_ok e"
    and h: "header_of raw = Some h"
    and one_part: "\<forall>t. rh_content_type r = Some t \<longrightarrow> c_strstr t ''multipart/form-data'' = None"
    and len: "length raw = length h + 4 + nat (rh_content_length r)"
    and outside: "\<not> h1_outside s" and st: "h1_state s = STATE_READ_HEADERS"
  shows "http1_parser_parse_header (hw_config w) raw (seen_from e (h1_req s)) = Some (True, r, vhosts) \<Longrightarrow>
    (me_moved e \<Longrightarrow> \<not> rewritten (hw_config w) raw (seen_from e (h1_req s))) \<Longrightarrow>
    k < length h + 4 \<Longrightarrow> k < cap \<Longrightarrow> 2 \<le> cap \<Longrightarrow> [] \<notin> set (concat wakes) \<Longrightarrow> drop k raw = concat (concat wakes) \<Longrightarrow>
    \<exists>cap'. feed e wakes (holding raw k cap s) w =
      Some (None, (reading_body raw h r (length raw) cap'
          (s\<lparr> h1_outside := rewritten (hw_config w) raw (seen_from e (h1_req s)) \<rparr>))\<lparr> h1_state := STATE_HANDLE_REQUEST \<rparr>,
        w\<lparr> hw_input := [], hw_config := (hw_config w)\<lparr> cf_vhosts := vhosts \<rparr> \<rparr>)"
proof (induction wakes arbitrary: k cap w)
  case Nil
  have "length raw \<le> k" using Nil.prems(7) by simp
  then show ?case using Nil.prems(3) len by linarith
next
  case (Cons bs wakes)
  let ?o = "rewritten (hw_config w) raw (seen_from e (h1_req s))"
  let ?s = "s\<lparr> h1_outside := ?o, h1_state := STATE_READ_BODY \<rparr>"
  let ?w = "w\<lparr> hw_input := [], hw_config := (hw_config w)\<lparr> cf_vhosts := vhosts \<rparr> \<rparr>"
  have bs: "[] \<notin> set bs" "drop k raw = concat bs @ concat (concat wakes)" using Cons.prems(6,7) by auto
  from header_wake [OF ok Cons.prems(1) h one_part len outside Cons.prems(2) st Cons.prems(3-5) bs]
  obtain k' cap' where k': "k' \<le> length raw" "k' < cap'" "2 \<le> cap'" "drop k' raw = concat (concat wakes)"
    and run: "h1_read e (holding raw k cap s) (w\<lparr> hw_input := map Received bs \<rparr>) =
      (if k' = length raw then Some (None, (reading_body raw h r k' cap' ?s)\<lparr> h1_state := STATE_HANDLE_REQUEST \<rparr>, ?w)
       else if length h + 4 \<le> k' then Some (Some 2, reading_body raw h r k' cap' ?s, ?w)
       else Some (Some 2, holding raw k' cap' s, w\<lparr> hw_input := [] \<rparr>))" by blast
  show ?case
  proof (cases "k' = length raw")
    case True
    then show ?thesis by (intro exI [of _ cap']) (simp add: run)
  next
    case unfinished: False
    have rest: "[] \<notin> set (concat wakes)" using Cons.prems(6) by simp
    show ?thesis
    proof (cases "length h + 4 \<le> k'")
      case True
      have "\<not> (me_moved e \<and> h1_outside ?s)" "h1_state ?s = STATE_READ_BODY" using Cons.prems(2) by auto
      from feed_body [OF ok len this True _ k'(2,3) rest k'(4), of ?w] unfinished k'(1)
      show ?thesis by (simp add: run True hw_swap)
    next
      case False
      from Cons.IH [of "w\<lparr> hw_input := [] \<rparr>" k' cap'] Cons.prems(1,2) False k'(2-4) rest
      show ?thesis by (simp add: run unfinished)
    qed
  qed
qed


definition calm_env :: h1_env where
  "calm_env = \<lparr> me_is_tls = False, me_peer = None, me_realloc_ok = True, me_moved = False, me_realpath = (\<lambda>_. None),
     me_file = (\<lambda>_. NoFile), me_contents = (\<lambda>_. []), me_mem1 = SendAgain, me_mem2 = SendAgain, me_sends = [], me_ssl_sends = [],
     me_quiet = (\<lambda>_. True), me_created = 5, me_malloc_ok = True, me_healthy = True, me_polls = [], me_backend = [], me_relayed = [] \<rparr>"

definition calm_world :: h1_world where
  "calm_world = \<lparr> hw_config = empty_config, hw_pool = \<lparr> fp_connections = [], fp_active_counts = (\<lambda>_. 0), fp_next_idx = (\<lambda>_. 0), fp_quota = (\<lambda>_. 0) \<rparr>, hw_input = [], hw_to_client = [], hw_to_backend = [], hw_closed = [],
     hw_handshake = None \<rparr>"

definition short_post :: string where
  "short_post = ''P /a H'' @ NL1 @ ''Content-Length: 3'' @ NL1 @ NL1 @ ''abc''"

definition short_post_parsed :: RequestHeader where
  "short_post_parsed = empty_request\<lparr> rh_method := ''P'', rh_uri := Some ''/a'', rh_directory := Some ''/a'',
     rh_http_version := ''H'', rh_is_valid := True, rh_is_keep_alive := True, rh_content_length := 3,
     rh_backend_type := FCGI_PHP, rh_body := bytes_of ''abc'' \<rparr>"


section \<open>Where the manager fails\<close>

text \<open>C35: A body that does not fit the buffer destroys the pointers of a rewritten request: when the path was
  replaced by a route (or by the default page), so that the request points outside the buffer, and the
  buffer moves when it is doubled for the rest of the body, the shift that is applied to every pointer
  of the request makes them point into nothing.\<close>
theorem http1_body_moves_pointers:
  assumes "me_realloc_ok e" and "me_moved e" and "h1_buffer s = []" and "2 \<le> h1_buf_capacity s" and "\<not> h1_outside s"
    and "h1_state s = STATE_READ_HEADERS"
    and "http1_parser_parse_header (hw_config w) raw (seen_from e (h1_req s)) = Some (True, r, vhosts)"
    and "header_of raw = Some h"
    and "length raw = length h + 4 + nat (rh_content_length r)"
    and "\<forall>t. rh_content_type r = Some t \<longrightarrow> c_strstr t ''multipart/form-data'' = None"
    and "rewritten (hw_config w) raw (seen_from e (h1_req s))"
    and "length h + 4 < h1_buf_capacity s" and "h1_buf_capacity s \<le> length raw" and "hw_input w = [Received raw]"
  shows "http1_manager_session e fd (Some s) w = None"
proof -
  let ?k = "h1_buf_capacity s - Suc 0"
  have k: "length h + 4 \<le> ?k" "?k < length raw" "0 < ?k" "raw \<noteq> []" using assms(4,12,13) by auto
  have here: "header_of (take ?k raw) = Some h" using header_of_prefix [OF assms(8), of ?k] k(1) by simp
  then have rew: "rewritten cfg (take ?k raw) req = rewritten cfg raw req" for cfg req by (simp add: rewritten_def assms(8))
  have "h1_grow e s = Grown s" using assms(3,4) by (simp add: h1_grow_def)
  then have run: "read_until has_header e (hw_input w) s = (ReadFull, s\<lparr> h1_buffer := take ?k raw \<rparr>, [Received (drop ?k raw)])"
    using assms(3) k here by (subst read_until.simps) (simp add: assms(14) has_header_def)
  let ?r = "r\<lparr> rh_body := drop (length h + 4) (take ?k raw) \<rparr>"
  let ?s = "s\<lparr> h1_buffer := take ?k raw, h1_req := ?r, h1_outside := True, h1_state := STATE_READ_BODY \<rparr>"
  let ?w = "w\<lparr> hw_input := [Received (drop ?k raw)], hw_config := (hw_config w)\<lparr> cf_vhosts := vhosts \<rparr> \<rparr>"
  have "0 < rh_content_length r" using k assms(9) by linarith
  moreover have "has_header (take ?k raw)" "take ?k raw \<noteq> []" using here k by (auto simp: has_header_def)
  ultimately have header: "h1_read_headers e s w = Some (None, ?s, ?w)"
    using run parse_prefix [OF assms(7,8) k(1) assms(10)] assms(11)
    by (simp add: h1_read_headers_def parse_received_def Let_def rew)
  have "h1_grow e ?s = Dangling" using assms(1,2,4) k(2) by (simp add: h1_grow_def)
  then have "read_until full e rs ?s = (ReadDangling, ?s, rs)" for full rs by (subst read_until.simps) simp
  moreover have "\<not> body_full ?r (length h + 4) (take ?k raw)" using k assms(9) by (simp add: body_full_def)
  moreover have "?k - (?k - (length h + 4)) = length h + 4" using k by simp
  ultimately have "h1_read_body e ?s ?w = None" using k by (simp add: h1_read_body_def Let_def min_absorb2 add.commute [of 4])
  then have "h1_read e s w = None" using assms(6) header by (simp add: h1_read_def and_phase_def)
  then show ?thesis by (simp add: http1_manager_session_def)
qed

definition root_post :: string where
  "root_post = ''P / H'' @ NL1 @ ''Content-Length: 3'' @ NL1 @ NL1 @ ''abc''"

definition small_buffer :: Config where
  "small_buffer = empty_config\<lparr> cf_request_buffer_size := 30 \<rparr>"

theorem http1_body_moves_pointers_witness:
  "http1_manager_session (calm_env\<lparr> me_moved := True \<rparr>) 5 (Some (h1_new small_buffer))
     (calm_world\<lparr> hw_config := small_buffer, hw_input := [Received (bytes_of root_post)] \<rparr>) = None"
proof -
  let ?e = "calm_env\<lparr> me_moved := True \<rparr>" and ?h = "''P / H'' @ NL1 @ ''Content-Length: 3''"
  let ?r = "short_post_parsed\<lparr> rh_uri := Some ''/index.html'', rh_directory := Some ''/index.html'' \<rparr>"
  have parsed: "http1_parser_parse_header small_buffer (bytes_of root_post) (seen_from ?e empty_request) = Some (True, ?r, [])"
    by code_simp
  have rew: "rewritten small_buffer (bytes_of root_post) (seen_from ?e empty_request)" by code_simp
  have h: "header_of (bytes_of root_post) = Some ?h" by code_simp
  have len: "length (bytes_of root_post) = length ?h + 4 + nat (rh_content_length ?r)" by code_simp
  have fits: "length ?h + 4 < h1_buf_capacity (h1_new small_buffer)" "h1_buf_capacity (h1_new small_buffer) \<le> length (bytes_of root_post)"
    by code_simp+
  show ?thesis
    using http1_body_moves_pointers [OF _ _ _ _ _ _ _ h len _ _ fits, of ?e "calm_world\<lparr> hw_config := small_buffer, hw_input := [Received (bytes_of root_post)] \<rparr>" "[]"] parsed rew
    by (simp add: calm_env_def h1_new_def short_post_parsed_def empty_request_def small_buffer_def)
qed

text \<open>A backend that does not answer: each attempt of the loop only waits.\<close>

lemma attempts_wait: "\<forall>(a, se) \<in> set ts. a = PollTimeout \<or> a = PollIntr \<Longrightarrow>
    fcgi_attempts n ts f rl = (FCGI_SES_STATUS_CONTINUE, f, [], [], rl)"
  by (induction n ts f rl rule: fcgi_attempts.induct) auto

lemma reuse_scan_first:
  assumes "\<And>fd. quiet fd"
  shows "i < length cs \<Longrightarrow> fc_sockfd (cs ! i) \<noteq> -1 \<and> \<not> fc_in_use (cs ! i) \<and> belongs goal port (cs ! i) \<Longrightarrow>
    \<forall>j < i. \<not> (fc_sockfd (cs ! j) \<noteq> -1 \<and> \<not> fc_in_use (cs ! j) \<and> belongs goal port (cs ! j)) \<Longrightarrow>
    fst (reuse_scan quiet goal port cs) = Some (fc_sockfd (cs ! i))"
proof (induction cs arbitrary: i)
  case (Cons c cs)
  show ?case
  proof (cases i)
    case 0
    then show ?thesis using Cons.prems assms by simp
  next
    case (Suc j)
    have "\<not> (fc_sockfd c \<noteq> -1 \<and> \<not> fc_in_use c \<and> belongs goal port c)" using Cons.prems(3) Suc by (metis nth_Cons_0 zero_less_Suc)
    moreover have "\<forall>k < j. \<not> (fc_sockfd (cs ! k) \<noteq> -1 \<and> \<not> fc_in_use (cs ! k) \<and> belongs goal port (cs ! k))"
      using Cons.prems(3) Suc by (metis Suc_less_eq nth_Cons_Suc)
    ultimately show ?thesis using Cons.IH [of j] Cons.prems(1,2) Suc by (auto split: prod.splits)
  qed
qed simp

text \<open>C36: A request that its backend does not answer in a hundred seconds leaves its connection to the next one: the
  client is told 502 (or nothing, when an answer on the connection was a static file before), the session
  waits for the next request, and the connection on which the answer is still to come goes back to the
  pool as idle, where the next request to that backend finds it and will read the old answer as its own.\<close>
theorem http1_timeout_poisons_pool:
  assumes "h1_state s = STATE_FCGI_PROCESSING" and "h1_fcgi_sess s = Some f" and "fs_state f = FCGI_SES_STATE_RECEIVING"
    and "\<forall>(a, se) \<in> set (me_polls e). a = PollTimeout \<or> a = PollIntr" and "me_healthy e"
    and "0 \<le> fs_fpm_sock f" and "slot_of (fs_fpm_sock f) (fp_connections (hw_pool w)) = Some i"
    and "belongs goal port (fp_connections (hw_pool w) ! i)"
    and "\<forall>j < i. let c = fp_connections (hw_pool w) ! j in \<not> (fc_sockfd c \<noteq> -1 \<and> \<not> fc_in_use c \<and> belongs goal port c)"
    and "fp_active_counts (hw_pool w) (get_backend_index (hw_config w) (Some goal) port)
           < fp_quota (hw_pool w) (get_backend_index (hw_config w) (Some goal) port)"
  shows "\<exists>s' w'. http1_manager_session e fd (Some s) w = Some (if rh_is_keep_alive (h1_req s) then 2 else 0, Some s', w')
    \<and> h1_state s' = STATE_READ_HEADERS \<and> hw_closed w' = hw_closed w
    \<and> hw_to_client w' = hw_to_client w @ (if h1_is_header_sent s then []
         else http1_response_send_mem (me_mem1 e) (me_mem2 e) 502 ''Bad Gateway'' ''502 Bad Gateway'' False (me_is_tls e))
    \<and> fst (fcgi_pool_conn_acquire (hw_config w') (\<lambda>_. True) created goal port (hw_pool w')) = fs_fpm_sock f"
proof -
  let ?cs = "fp_connections (hw_pool w)"
  let ?cs' = "?cs[i := (?cs ! i)\<lparr> fc_in_use := False \<rparr>]"
  note i = slot_of_Some [OF assms(7)]
  obtain k where k: "fcgi_session_destroy (hw_config w) (me_healthy e) f (hw_pool w)
      = ([], add_active k (- 1) ((hw_pool w)\<lparr> fp_connections := ?cs' \<rparr>))"
    using assms(3,5-7) by (simp add: fcgi_session_destroy_def fcgi_pool_conn_release_def Let_def)
  let ?p = "add_active k (- 1) ((hw_pool w)\<lparr> fp_connections := ?cs' \<rparr>)"
  have "fst (reuse_scan (\<lambda>_. True) goal port ?cs') = Some (fc_sockfd (?cs' ! i))"
    using i assms(6,8,9) by (intro reuse_scan_first) (auto simp: belongs_def Let_def)
  moreover have "fc_sockfd (?cs' ! i) = fs_fpm_sock f" using i by simp
  ultimately obtain closed cs where scan: "reuse_scan (\<lambda>_. True) goal port ?cs' = (Some (fs_fpm_sock f), closed, cs)"
    by (metis prod.collapse)
  have "fp_active_counts ?p idx \<le> fp_active_counts (hw_pool w) idx" for idx by (simp add: add_active_def)
  then have "fst (fcgi_pool_conn_acquire (hw_config w) (\<lambda>_. True) created goal port ?p) = fs_fpm_sock f"
    using assms(6,10) scan order_le_less_trans
    by (fastforce simp: fcgi_pool_conn_acquire_def acquire_reuse_def Let_def add_active_def)
  then show ?thesis
    using assms(1,2) k
    by (auto simp: http1_manager_session_def h1_read_def and_phase_def run_fastcgi_def attempts_wait [OF assms(4)] send_mem_def
        h1_reset_def Let_def)
qed

definition one_taken :: h1_world where
  "one_taken = calm_world\<lparr> hw_pool := acquire_store empty_config 7 ''h'' 9000 (fcgi_pool_init 2 two_slots) \<rparr>"

definition waiting :: HTTP1Session where
  "waiting = (h1_new empty_config)\<lparr> h1_state := STATE_FCGI_PROCESSING, h1_is_header_sent := True,
     h1_fcgi_sess := Some (posting_session\<lparr> fs_state := FCGI_SES_STATE_RECEIVING \<rparr>) \<rparr>"

theorem http1_timeout_poisons_pool_witness:
  "\<exists>s' w'. http1_manager_session calm_env 5 (Some waiting) one_taken = Some (0, Some s', w')
    \<and> hw_to_client w' = [] \<and> fst (fcgi_pool_conn_acquire (hw_config w') (\<lambda>_. True) 9 ''h'' 9000 (hw_pool w')) = 7"
proof -
  have pool: "slot_of 7 (fp_connections (hw_pool one_taken)) = Some 0" "belongs ''h'' 9000 (fp_connections (hw_pool one_taken) ! 0)"
      "fp_active_counts (hw_pool one_taken) (get_backend_index empty_config (Some ''h'') 9000)
        < fp_quota (hw_pool one_taken) (get_backend_index empty_config (Some ''h'') 9000)"
    by code_simp+
  show ?thesis
    using http1_timeout_poisons_pool [of waiting "posting_session\<lparr> fs_state := FCGI_SES_STATE_RECEIVING \<rparr>" calm_env one_taken 0
        "''h''" 9000 5 9] pool
    by (auto simp: waiting_def calm_env_def posting_session_def one_taken_def calm_world_def h1_new_def empty_request_def)
qed

end
