(* ===== verification/Sec_Tls.thy ===== *)
theory Sec_Tls
  imports Conn_Table H2_Socket Http1_Response
begin

text \<open>
  The TLS engine: src/security/halmos_sec_tls.c.

  OpenSSL is what its calls answer: \<open>SSL_write\<close> for a number of bytes, the choice of a protocol for two
  lists, and whether context, certificate and key could be had.  A TLS object is a number, kept in the
  slot of its connection.
\<close>

section \<open>The engine\<close>

text \<open>The protocols, each with its length in front: h2 and http/1.1.\<close>

definition tls_protos :: bytes where
  "tls_protos = 2 # bytes_of ''h2'' @ 8 # bytes_of ''http/1.1''"

definition SSL_TLSEXT_ERR_OK :: int where "SSL_TLSEXT_ERR_OK = 0"
definition SSL_TLSEXT_ERR_NOACK :: int where "SSL_TLSEXT_ERR_NOACK = 3"

definition alpn_select_cb :: "(bytes \<Rightarrow> bytes \<Rightarrow> bytes option) \<Rightarrow> bytes \<Rightarrow> int \<times> bytes option" where
  "alpn_select_cb select_next_proto client =
     (case select_next_proto (take 12 tls_protos) client of
        Some p \<Rightarrow> (SSL_TLSEXT_ERR_OK, Some p) | None \<Rightarrow> (SSL_TLSEXT_ERR_NOACK, None))"

lemma tls_protos_length: "length tls_protos = 12"
  by (simp add: tls_protos_def bytes_of_def)

record tls_env =
  te_ctx_ok :: bool
  te_cert_ok :: bool
  te_key_ok :: bool

text \<open>The result and whether there is a context; a failure with certificate or key leaves one.\<close>

definition ssl_init :: "bool \<Rightarrow> tls_env \<Rightarrow> bool \<Rightarrow> int \<times> bool" where
  "ssl_init tls_enabled e ctx =
     (if \<not> tls_enabled then (0, ctx)
      else if \<not> te_ctx_ok e then (-1, False)
      else if \<not> te_cert_ok e \<or> \<not> te_key_ok e then (-1, True)
      else (0, True))"

definition ssl_cleanup :: "bool \<Rightarrow> bool" where
  "ssl_cleanup ctx = False"

section \<open>TLS objects of connections\<close>

definition ssl_set_for_fd :: "int \<Rightarrow> nat option \<Rightarrow> conn_system \<Rightarrow> conn_system" where
  "ssl_set_for_fd fd ssl cs =
     (case core_conn_t_get cs fd of None \<Rightarrow> cs | Some c \<Rightarrow> put_slot cs fd (c\<lparr> cn_ssl := ssl \<rparr>))"

definition ssl_get_for_fd :: "int \<Rightarrow> conn_system \<Rightarrow> nat option" where
  "ssl_get_for_fd fd cs = (case core_conn_t_get cs fd of None \<Rightarrow> None | Some c \<Rightarrow> cn_ssl c)"

definition ssl_nullify_ptr :: "int \<Rightarrow> conn_system \<Rightarrow> conn_system" where
  "ssl_nullify_ptr fd cs =
     (case core_conn_t_get cs fd of None \<Rightarrow> cs | Some c \<Rightarrow> put_slot cs fd (c\<lparr> cn_ssl := None \<rparr>))"

text \<open>What is freed, and the table.\<close>

definition ssl_free_for_fd :: "int \<Rightarrow> conn_system \<Rightarrow> nat option \<times> conn_system" where
  "ssl_free_for_fd fd cs =
     (case core_conn_t_get cs fd of None \<Rightarrow> (None, cs) | Some c \<Rightarrow> (cn_ssl c, put_slot cs fd (c\<lparr> cn_ssl := None \<rparr>)))"

text \<open>\<open>EWOULDBLOCK\<close> is \<open>EAGAIN\<close>, so that both waits have the same answer.\<close>

definition ssl_send :: "int \<Rightarrow> (nat \<Rightarrow> ssl_result) \<Rightarrow> nat \<Rightarrow> conn_system \<Rightarrow> int" where
  "ssl_send fd ssl_write len cs =
     (case ssl_get_for_fd fd cs of
        None \<Rightarrow> -1
      | Some ssl \<Rightarrow>
          (case ssl_write (if 32768 < len then 32768 else len) of
             SslSent n \<Rightarrow> int n
           | SslWantWrite \<Rightarrow> - EAGAIN
           | SslWantRead \<Rightarrow> - EAGAIN
           | SslFail \<Rightarrow> -1))"

section \<open>One map from descriptors to objects\<close>

text \<open>A history of calls, and the map it stands for: only descriptors that have a slot are in it.\<close>

datatype ssl_call = SetSsl int nat | NullifySsl int | FreeSsl int

fun ssl_step :: "conn_system \<Rightarrow> ssl_call \<Rightarrow> nat option \<times> conn_system" where
  "ssl_step cs (SetSsl fd p) = (None, ssl_set_for_fd fd (Some p) cs)"
| "ssl_step cs (NullifySsl fd) = (None, ssl_nullify_ptr fd cs)"
| "ssl_step cs (FreeSsl fd) = ssl_free_for_fd fd cs"

fun ssl_spec :: "nat \<Rightarrow> (int \<rightharpoonup> nat) \<Rightarrow> ssl_call \<Rightarrow> nat option \<times> (int \<rightharpoonup> nat)" where
  "ssl_spec n m (SetSsl fd p) = (None, if 0 \<le> fd \<and> fd < int n then m(fd \<mapsto> p) else m)"
| "ssl_spec n m (NullifySsl fd) = (None, m(fd := None))"
| "ssl_spec n m (FreeSsl fd) = (m fd, m(fd := None))"

definition ssl_view :: "conn_system \<Rightarrow> (int \<rightharpoonup> nat)" where
  "ssl_view cs = (\<lambda>fd. ssl_get_for_fd fd cs)"

fun ssl_run :: "conn_system \<Rightarrow> ssl_call list \<Rightarrow> nat option list \<times> conn_system" where
  "ssl_run cs [] = ([], cs)"
| "ssl_run cs (c # calls) =
     (case ssl_step cs c of (freed, cs') \<Rightarrow> (case ssl_run cs' calls of (out, cs'') \<Rightarrow> (freed # out, cs'')))"

fun spec_run :: "nat \<Rightarrow> (int \<rightharpoonup> nat) \<Rightarrow> ssl_call list \<Rightarrow> nat option list \<times> (int \<rightharpoonup> nat)" where
  "spec_run n m [] = ([], m)"
| "spec_run n m (c # calls) =
     (case ssl_spec n m c of (freed, m') \<Rightarrow> (case spec_run n m' calls of (out, m'') \<Rightarrow> (freed # out, m'')))"

lemma get_slot_iff: "conn_ok cs \<Longrightarrow> core_conn_t_get cs fd = None \<longleftrightarrow> \<not> (0 \<le> fd \<and> fd < int (cs_max_fd cs))"
  by (auto simp: conn_ok_def core_conn_t_get_def)

lemma max_fd_put_slot [simp]: "cs_max_fd (put_slot cs fd c) = cs_max_fd cs"
  by (simp add: put_slot_def)

lemma ssl_set_view:
  assumes "conn_ok cs"
  shows "conn_ok (ssl_set_for_fd fd p cs) \<and> cs_max_fd (ssl_set_for_fd fd p cs) = cs_max_fd cs
    \<and> ssl_view (ssl_set_for_fd fd p cs) = (if 0 \<le> fd \<and> fd < int (cs_max_fd cs) then (ssl_view cs)(fd := p) else ssl_view cs)"
proof (cases "core_conn_t_get cs fd")
  case None
  then show ?thesis using assms get_slot_iff [OF assms, of fd] by (auto simp: ssl_set_for_fd_def)
next
  case (Some c)
  have "conn_ok (put_slot cs fd (c\<lparr> cn_ssl := p \<rparr>))"
    using conn_ok_session [OF assms Some] by (intro conn_ok_put_slot [OF assms Some]) auto
  moreover have "0 \<le> fd \<and> fd < int (cs_max_fd cs)" using get_slot_iff [OF assms, of fd] Some by simp
  ultimately show ?thesis
    by (auto simp: ssl_set_for_fd_def Some ssl_view_def ssl_get_for_fd_def get_put_slot [OF assms Some])
qed

lemma nullify_is_set: "ssl_nullify_ptr fd cs = ssl_set_for_fd fd None cs"
  by (simp add: ssl_nullify_ptr_def ssl_set_for_fd_def)

lemma free_is_set: "ssl_free_for_fd fd cs = (ssl_get_for_fd fd cs, ssl_set_for_fd fd None cs)"
  by (simp add: ssl_free_for_fd_def ssl_set_for_fd_def ssl_get_for_fd_def split: option.split)

lemma ssl_step_refines:
  assumes "conn_ok cs" and "ssl_step cs c = (freed, cs')"
  shows "conn_ok cs' \<and> cs_max_fd cs' = cs_max_fd cs \<and> ssl_spec (cs_max_fd cs) (ssl_view cs) c = (freed, ssl_view cs')"
proof -
  have outside: "(ssl_view cs)(fd := None) = ssl_view cs" if "\<not> (0 \<le> fd \<and> fd < int (cs_max_fd cs))" for fd
    using get_slot_iff [OF assms(1), of fd] that by (auto simp: ssl_view_def ssl_get_for_fd_def fun_eq_iff)
  show ?thesis
    using assms(2) ssl_set_view [OF assms(1)] outside
    by (cases c) (auto simp: nullify_is_set free_is_set ssl_view_def [of cs, THEN fun_cong, symmetric])
qed

text \<open>C40: The TLS objects in the slots are one map from descriptors to objects: whatever calls set, clear and free
  them, a lookup gives the object that was set last for that very descriptor and not cleared since, what
  a call frees is that object, and descriptors beyond the table never have one.\<close>
theorem tls_slots_are_map:
  assumes "conn_ok cs" and "ssl_run cs calls = (freed, cs')"
  shows "spec_run (cs_max_fd cs) (\<lambda>fd. ssl_get_for_fd fd cs) calls = (freed, (\<lambda>fd. ssl_get_for_fd fd cs'))"
  using assms
proof (induction calls arbitrary: cs freed)
  case (Cons c calls)
  obtain f cs1 where step: "ssl_step cs c = (f, cs1)" by force
  obtain out where run: "ssl_run cs1 calls = (out, cs')" "freed = f # out"
    using Cons.prems(2) step by (auto split: prod.splits)
  note r = ssl_step_refines [OF Cons.prems(1) step]
  show ?case using r Cons.IH [of cs1 out] run by (simp add: ssl_view_def)
qed simp

theorem tls_slots_are_map_witness:
  "\<exists>cs. conn_ok cs \<and> fst (ssl_run cs [SetSsl 1 7, SetSsl 5 8, FreeSsl 1, FreeSsl 1, FreeSsl 5]) = [None, None, Some 7, None, None]"
proof -
  define cs where "cs = snd (core_conn_t_init \<lparr> cs_max_fd = 3, cs_connections = None \<rparr> True (\<lambda>_. True))"
  have ok: "conn_ok cs" unfolding cs_def by (rule conn_ok_init) (simp add: core_conn_t_init_def)
  have size: "cs_max_fd cs = 3" by (simp add: cs_def core_conn_t_init_def)
  obtain freed cs' where run: "ssl_run cs [SetSsl 1 7, SetSsl 5 8, FreeSsl 1, FreeSsl 1, FreeSsl 5] = (freed, cs')" by force
  have "ssl_get_for_fd 5 cs = None" by (simp add: ssl_get_for_fd_def core_conn_t_get_def size)
  then have "freed = [None, None, Some 7, None, None]" using tls_slots_are_map [OF ok run] by (auto simp: size)
  then show ?thesis using ok run by auto
qed

text \<open>What the senders see: an answer that is to be tried again is one of the two waits.\<close>

lemma ssl_send_retry:
  "ssl_get_for_fd fd cs = Some p \<Longrightarrow> write_retry True \<lparr> sr_n = ssl_send fd w len cs, sr_errno = er \<rparr>
     \<longleftrightarrow> w (if 32768 < len then 32768 else len) \<in> {SslWantWrite, SslWantRead}"
  by (auto simp: ssl_send_def write_retry_def EAGAIN_def split: ssl_result.split)

end
