(* ===== verification/Ws_Ipc.thy ===== *)
theory Ws_Ipc
  imports Ws_System
begin

text \<open>
  The local socket over which backends send messages to WebSocket clients:
  src/protocol/websocket/halmos_ws_ipc.c.

  A client of the socket is what the calls on its connection answer, one after the other; when the list
  ends nothing more comes, and the wait times out until the reader gives up.  The set-up of the socket
  is what the system calls answer; the result is the descriptor, what was opened and closed, and
  whether the name was removed from the file system.
\<close>

section \<open>The socket\<close>

record uds_env =
  ue_socket :: int
  ue_stat :: "bool option"
  ue_bind_ok :: bool
  ue_listen_ok :: bool
  ue_nonblock_ok :: bool

text \<open>Result, descriptors opened, descriptors closed, and how often the path was unlinked.\<close>

definition setup_uds_bridge :: "uds_env \<Rightarrow> int \<times> int list \<times> int list \<times> nat" where
  "setup_uds_bridge e =
     (let fd = ue_socket e; old = (if ue_stat e = Some True then 1 else 0)
      in if fd < 0 then (-1, [], [], 0)
         else if ue_stat e = Some False then (-1, [fd], [fd], 0)
         else if \<not> ue_bind_ok e then (-1, [fd], [fd], old)
         else if \<not> ue_listen_ok e \<or> \<not> ue_nonblock_ok e then (-1, [fd], [fd], Suc old)
         else (fd, [fd], [], old))"

lemma setup_uds_bridge_closes: "setup_uds_bridge e = (-1, opened, closed, n) \<Longrightarrow> closed = opened"
  by (auto simp: setup_uds_bridge_def Let_def split: if_splits)

section \<open>One message\<close>

text \<open>\<open>Nothing ready\<close>: \<open>read\<close> had nothing, and \<open>poll\<close> says within ten milliseconds that there is something.\<close>

datatype bridge_read = Bytes bytes | Nothing bool | Interrupted | Broken | Hungup

definition IPC_MAX :: nat where "IPC_MAX = 65535"
definition IPC_RETRIES :: nat where "IPC_RETRIES = 5"

fun bridge_read_loop :: "nat \<Rightarrow> bytes \<Rightarrow> bridge_read list \<Rightarrow> bytes" where
  "bridge_read_loop retry acc [] = acc"
| "bridge_read_loop retry acc (x # xs) =
     (if IPC_MAX \<le> length acc then acc
      else case x of
        Bytes b \<Rightarrow>
          if b = [] then acc
          else let acc' = acc @ take (IPC_MAX - length acc) b
               in if last acc' = 10 then acc' else bridge_read_loop 0 acc' xs
      | Nothing ready \<Rightarrow>
          if ready then bridge_read_loop retry acc xs
          else if retry < IPC_RETRIES then bridge_read_loop (Suc retry) acc xs else acc
      | Interrupted \<Rightarrow> bridge_read_loop retry acc xs
      | Broken \<Rightarrow> acc
      | Hungup \<Rightarrow> acc)"

text \<open>Line ends are cut off; what is left is a text when it does not start with a NUL.\<close>

definition bridge_text :: "bytes \<Rightarrow> string option" where
  "bridge_text b =
     (let t = cstr (text_of (rev (dropWhile (\<lambda>x. x = 10 \<or> x = 13) (rev b)))) in if t = [] then None else Some t)"

fun handle_bridge_request ::
  "ws_env \<Rightarrow> bridge_read list list \<Rightarrow> HalmosWSRegistry \<Rightarrow> (ws_output list \<times> HalmosWSRegistry) ws_result" where
  "handle_bridge_request env [] r = Done ([], r)"
| "handle_bridge_request env (c # cs) r =
     (case (case bridge_text (bridge_read_loop 0 [] c) of
              None \<Rightarrow> Done ([], r) | Some t \<Rightarrow> ws_system_internal_dispatch env (Some t) r) of
        Done (out, r') \<Rightarrow>
          (case handle_bridge_request env cs r' of
             Done (out', r'') \<Rightarrow> Done (out @ out', r'') | StackOverflow \<Rightarrow> StackOverflow | UseAfterFree \<Rightarrow> UseAfterFree)
      | StackOverflow \<Rightarrow> StackOverflow
      | UseAfterFree \<Rightarrow> UseAfterFree)"

section \<open>Messages arrive as they were sent\<close>

text \<open>The specification: the messages, each handed to the dispatcher.\<close>

fun dispatch_all :: "ws_env \<Rightarrow> string list \<Rightarrow> HalmosWSRegistry \<Rightarrow> (ws_output list \<times> HalmosWSRegistry) ws_result" where
  "dispatch_all env [] r = Done ([], r)"
| "dispatch_all env (t # ts) r =
     (case ws_system_internal_dispatch env (Some t) r of
        Done (out, r') \<Rightarrow>
          (case dispatch_all env ts r' of
             Done (out', r'') \<Rightarrow> Done (out @ out', r'') | StackOverflow \<Rightarrow> StackOverflow | UseAfterFree \<Rightarrow> UseAfterFree)
      | StackOverflow \<Rightarrow> StackOverflow
      | UseAfterFree \<Rightarrow> UseAfterFree)"

text \<open>A client that sends \<open>m\<close> and never pauses for more than five waits.\<close>

fun sends :: "nat \<Rightarrow> bridge_read list \<Rightarrow> bytes \<Rightarrow> bool" where
  "sends retry [] m \<longleftrightarrow> m = []"
| "sends retry (Bytes b # xs) m \<longleftrightarrow> b \<noteq> [] \<and> (\<exists>rest. m = b @ rest \<and> sends 0 xs rest)"
| "sends retry (Nothing ready # xs) m \<longleftrightarrow> (if ready then sends retry xs m else retry < IPC_RETRIES \<and> sends (Suc retry) xs m)"
| "sends retry (Interrupted # xs) m \<longleftrightarrow> sends retry xs m"
| "sends retry (_ # xs) m \<longleftrightarrow> False"

definition message_ok :: "bytes \<Rightarrow> bool" where
  "message_ok m \<longleftrightarrow> m \<noteq> [] \<and> 10 \<notin> set m \<and> 0 \<notin> set m \<and> last m \<noteq> 13 \<and> length m < IPC_MAX"

lemma bridge_read_loop_all:
  assumes "10 \<notin> set m" "length m < IPC_MAX"
  shows "sends retry xs rest \<Longrightarrow> acc @ rest = m @ [10] \<Longrightarrow> rest \<noteq> [] \<Longrightarrow> bridge_read_loop retry acc xs = m @ [10]"
proof (induction retry xs rest arbitrary: acc rule: sends.induct)
  case (2 retry b xs rest)
  then obtain rest' where rest': "rest = b @ rest'" "sends 0 xs rest'" "b \<noteq> []" by auto
  have len: "length acc + length rest = Suc (length m)" using arg_cong [OF "2.prems"(2), of length] by simp
  have part: "acc @ take (IPC_MAX - length acc) b = acc @ b" "\<not> IPC_MAX \<le> length acc"
    using len assms(2) rest'(1,3) by (cases b; simp)+
  show ?case
  proof (cases "rest' = []")
    case True
    then have "acc @ b = m @ [10]" using "2.prems"(2) rest'(1) by simp
    then show ?thesis using part rest'(3) by (simp add: Let_def)
  next
    case False
    then obtain r where r: "rest' = r @ [last rest']" by (metis append_butlast_last_id)
    then have "(acc @ b @ r) @ [last rest'] = m @ [10]" using "2.prems"(2) rest'(1) by (metis append.assoc)
    then have "acc @ b @ r = m" by simp
    then have "10 \<notin> set (acc @ b)" using assms(1) by auto
    then have "last (acc @ b) \<noteq> 10" using rest'(3) by (metis append_is_Nil_conv last_in_set)
    then show ?thesis using "2.IH" [OF rest'(2), of "acc @ b"] "2.prems"(2) rest'(1,3) False part by (simp add: Let_def)
  qed
next
  case (3 retry ready xs rest)
  have "length acc \<le> length m" using arg_cong [OF "3.prems"(2), of length] "3.prems"(3) by (cases rest) auto
  then show ?case using 3 assms(2) by (auto split: if_splits)
next
  case (4 retry xs rest)
  have "length acc \<le> length m" using arg_cong [OF "4.prems"(2), of length] "4.prems"(3) by (cases rest) auto
  then show ?case using 4 assms(2) by auto
qed auto

lemma text_of_no_nul: "0 \<notin> set m \<Longrightarrow> CHR 0x00 \<notin> set (text_of m)"
proof
  assume "CHR 0x00 \<in> set (text_of m)" and m: "0 \<notin> set m"
  then obtain b where b: "b \<in> set m" "char_of (unat b) = CHR 0x00" by (auto simp: text_of_def)
  have "unat b < 256" using unsigned_less [of b] by simp
  then have "unat b = of_char (char_of (unat b))" by simp
  also have "\<dots> = 0" by (simp add: b(2))
  finally show False using b(1) m by (simp add: unat_eq_zero)
qed

lemma bridge_text_message:
  assumes "message_ok m"
  shows "bridge_text (m @ [10]) = Some (text_of m)"
proof -
  have "last m \<noteq> 10" "last m \<noteq> 13" "m \<noteq> []" using assms by (auto simp: message_ok_def dest: last_in_set)
  then have "dropWhile (\<lambda>x. x = 10 \<or> x = 13) (rev (m @ [10])) = rev m"
    by (cases m rule: rev_cases) auto
  moreover have "cstr (text_of m) = text_of m" using assms by (intro cstr_id text_of_no_nul) (auto simp: message_ok_def)
  ultimately show ?thesis using assms by (simp add: bridge_text_def Let_def message_ok_def text_of_def)
qed



end
