(* ===== verification/Startup.thy ===== *)
theory Startup
  imports Sec_Tls Ws_Ipc Http_Route
begin

text \<open>
  The program as a whole: the options and the order of start and shutdown of src/main.c, the listener of
  src/transport/halmos_transport_tcp_server.c and \<open>core_event_loop_start\<close>.

  The parts are started and stopped by calls to their own modules; here a run is the list of these
  calls with the end of the event loop between them.  What the calls answer is in an environment.
\<close>

section \<open>The listener\<close>

record listen_env =
  le_malloc_ok :: bool
  le_socket :: int
  le_bind_ok :: bool
  le_listen_ok :: bool
  le_epoll :: int
  le_add_ok :: bool
  le_bridge :: uds_env

text \<open>The socket or -1, and the descriptors that are open afterwards.\<close>

definition tcp_create_server :: "listen_env \<Rightarrow> int \<times> int list" where
  "tcp_create_server e =
     (if le_socket e < 0 then (-1, [])
      else if \<not> le_bind_ok e \<or> \<not> le_listen_ok e then (-1, [le_socket e])
      else (le_socket e, [le_socket e]))"

text \<open>The descriptors of the loop; -1 where there is none.\<close>

record loop_fds =
  lf_server :: int
  lf_epoll :: int
  lf_bridge :: int

definition no_fds :: loop_fds where
  "no_fds = \<lparr> lf_server = -1, lf_epoll = -1, lf_bridge = -1 \<rparr>"

text \<open>The result, descriptors opened, descriptors closed, and the descriptors of the loop.\<close>

definition core_event_loop_start :: "listen_env \<Rightarrow> int \<times> int list \<times> int list \<times> loop_fds" where
  "core_event_loop_start e =
     (if \<not> le_malloc_ok e then (-1, [], [], no_fds)
      else case tcp_create_server e of
        (sock, opened) \<Rightarrow>
          if sock < 0 then (-1, opened, [], no_fds)
          else if le_epoll e < 0 then (-1, opened, [sock], no_fds\<lparr> lf_server := sock \<rparr>)
          else if \<not> le_add_ok e then
            (-1, opened @ [le_epoll e], [sock, le_epoll e], no_fds\<lparr> lf_server := sock, lf_epoll := le_epoll e \<rparr>)
          else (case setup_uds_bridge (le_bridge e) of
                  (bridge, opened', closed', _) \<Rightarrow>
                    (0, opened @ [le_epoll e] @ opened', closed',
                     \<lparr> lf_server = sock, lf_epoll = le_epoll e, lf_bridge = bridge \<rparr>)))"

text \<open>A start that fails leaves nothing open but a socket that could not be bound.\<close>

lemma core_event_loop_start_closes:
  "core_event_loop_start e = (-1, opened, closed, l) \<Longrightarrow> le_bind_ok e \<and> le_listen_ok e \<Longrightarrow> closed = opened"
  by (auto simp: core_event_loop_start_def tcp_create_server_def split: if_splits prod.splits)

text \<open>
  A signal closes the listener (and stops the queue, \<open>stop_signal\<close> of \<open>Core_Queue\<close>); the end of the loop
  closes the rest.  Both return what they close.
\<close>

definition core_event_loop_stop :: "loop_fds \<Rightarrow> int list \<times> loop_fds" where
  "core_event_loop_stop l = (if 0 \<le> lf_server l then ([lf_server l], l\<lparr> lf_server := -1 \<rparr>) else ([], l))"

definition core_event_loop_end :: "loop_fds \<Rightarrow> int list \<times> loop_fds" where
  "core_event_loop_end l = (filter (\<lambda>fd. 0 \<le> fd) [lf_bridge l, lf_server l, lf_epoll l], no_fds)"

fun stop_signals :: "nat \<Rightarrow> loop_fds \<Rightarrow> int list \<times> loop_fds" where
  "stop_signals 0 l = ([], l)"
| "stop_signals (Suc n) l =
     (case core_event_loop_stop l of (closed, l') \<Rightarrow> (case stop_signals n l' of (closed', l'') \<Rightarrow> (closed @ closed', l'')))"

lemma stop_signals_idle: "lf_server l < 0 \<Longrightarrow> stop_signals n l = ([], l)"
  by (induction n) (auto simp: core_event_loop_stop_def)

lemma stop_signals_fds:
  "stop_signals n l = (if 0 < n \<and> 0 \<le> lf_server l then ([lf_server l], l\<lparr> lf_server := -1 \<rparr>) else ([], l))"
  by (cases n) (auto simp: core_event_loop_stop_def stop_signals_idle)

text \<open>Whatever was opened by a start that succeeds is closed once, however many signals there are.\<close>

lemma loop_closes_all:
  assumes "core_event_loop_start e = (0, opened, closed, l)" and "stop_signals n l = (closed', l')"
  shows "mset (closed @ closed' @ fst (core_event_loop_end l')) = mset opened"
proof -
  obtain bridge opened1 closed1 m where b: "setup_uds_bridge (le_bridge e) = (bridge, opened1, closed1, m)" by (metis prod_cases4)
  then have l: "0 \<le> lf_server l" "0 \<le> lf_epoll l" "lf_bridge l = bridge" "closed = closed1"
      "opened = [lf_server l, lf_epoll l] @ opened1"
    using assms(1) by (auto simp: core_event_loop_start_def tcp_create_server_def split: if_splits)
  have "mset closed1 + mset (filter (\<lambda>fd. 0 \<le> fd) [bridge]) = mset opened1"
    using b by (auto simp: setup_uds_bridge_def Let_def split: if_splits)
  then show ?thesis
    using assms(2) l by (auto simp: stop_signals_fds core_event_loop_end_def split: if_splits)
qed

section \<open>Starting and stopping\<close>

datatype part = ConnTable | Logger | Tls | VHosts | WebSockets | Workers | Janitor | FcgiPool | Listener | Inotify

datatype boot_step = Started part | Stopped part | Ran

record boot_env =
  bo_conf :: "string list option"
  bo_exists :: "string \<Rightarrow> bool"
  bo_readable :: "string \<Rightarrow> bool"
  bo_table_ok :: bool
  bo_tls :: tls_env
  bo_listen :: listen_env

definition run_server :: "boot_env \<Rightarrow> Config \<Rightarrow> boot_step list \<times> int" where
  "run_server e c0 =
     (case core_config_load (bo_conf e) c0 of
        (res, c) \<Rightarrow>
          let early = [Started ConnTable, Started Logger];
              tls = cf_tls_enabled c; limits = cf_rate_limit_enabled c;
              all = early @ (if tls then [Started Tls] else []) @ [Started VHosts, Started WebSockets, Started Workers]
                    @ (if limits then [Started Janitor] else []) @ [Started FcgiPool]
          in if res \<noteq> 0 \<or> \<not> bo_table_ok e then ([], 1)
             else if tls \<and> fst (ssl_init tls (bo_tls e) False) \<noteq> 0 then (early @ [Stopped Logger], 1)
             else if fst (core_event_loop_start (bo_listen e)) \<noteq> 0 then (all @ [Stopped Logger], 1)
             else (all @ [Started Listener, Started Inotify, Ran, Stopped Listener, Stopped Workers]
                     @ (if limits then [Stopped Janitor] else []) @ [Stopped FcgiPool, Stopped WebSockets]
                     @ (if tls then [Stopped Tls] else []) @ [Stopped ConnTable, Stopped Logger], 0))"

section \<open>The options\<close>

definition HALMOS_CONFIG_PATH :: string where "HALMOS_CONFIG_PATH = ''/etc/halmos/halmos.conf''"

definition version_line :: string where "version_line = ''Halmos Web Server v1.1.0-RC1''"

definition help_lines :: "string list" where
  "help_lines = [version_line, ''Usage:'', ''  halmos [option]'', [], ''Options:'',
     ''  -p, --profile    Analyze hardware resources and exit'',
     ''  -t, --test       Test configuration file syntax and exit'',
     ''  -v, --version    Output version information and exit'',
     ''Configuration:'', ''  Config file is loaded from: '' @ HALMOS_CONFIG_PATH]"

definition not_parsed :: string where
  "not_parsed = ''[ERROR] Configuration test FAILED: Cannot parse '' @ HALMOS_CONFIG_PATH"

text \<open>What is said of the path of the PHP-FPM configuration; only the test says that it was found.\<close>

definition fpm_lines :: "boot_env \<Rightarrow> Config \<Rightarrow> bool \<Rightarrow> string list" where
  "fpm_lines e c testing =
     (let path = cf_php_fpm_config_path c
      in if path = [] then [''[WARN] php_fpm_config_path is empty in configuration.'']
         else if bo_readable e path then
           (if testing then [''[OK] PHP-FPM config path: '' @ path @ '' (Found & Readable)''] else [])
         else [''[WARN] PHP-FPM config path NOT FOUND or unreadable: '' @ path,
               ''       Hint: Check if PHP-FPM is installed or if the path/permissions are correct.''])"

definition tls_lines :: "boot_env \<Rightarrow> Config \<Rightarrow> string list \<times> bool" where
  "tls_lines e c =
     (if \<not> cf_tls_enabled c then ([''[INFO] TLS Engine: Disabled (HTTP Mode)''], True)
      else
        let cert = (if bo_readable e (cf_ssl_certificate_file c) then []
                    else [''[ERROR] SSL Certificate missing or unreadable: '' @ cf_ssl_certificate_file c]);
            key = (if bo_exists e (cf_ssl_private_key_file c) then []
                   else [''[ERROR] SSL Private Key file not found: '' @ cf_ssl_private_key_file c])
        in if cert = [] \<and> key = [] then ([''[OK] TLS Engine: Enabled (Cert & Key valid)''], True) else (cert @ key, False))"

text \<open>The lines of both streams in their order, and the exit code.\<close>

definition config_test :: "boot_env \<Rightarrow> Config \<Rightarrow> string list \<times> int" where
  "config_test e c0 =
     (case core_config_load (bo_conf e) c0 of
        (res, c) \<Rightarrow>
          if res \<noteq> 0 then ([not_parsed], 1)
          else
            let intro_lines = [''[OK] Halmos config syntax: '' @ HALMOS_CONFIG_PATH,
                         ''[OK] Network binding: '' @ cf_server_name c @ '':'' @ dec_int (cf_server_port c),
                         (if bo_exists e (cf_document_root c) then ''[OK] Document root: '' @ cf_document_root c @ '' (Exists)''
                          else ''[WARN] Document root path not found: '' @ cf_document_root c)]
            in case tls_lines e c of
                 (ls, ok) \<Rightarrow>
                   if \<not> ok then (intro_lines @ ls, 1)
                   else (intro_lines @ ls @ fpm_lines e c True
                           @ [[], ''Configuration test SUCCESSFUL.'',
                              ''Please adjust the '' @ cf_php_fpm_config_path c @ '' configuration before running the web server.''], 0))"

text \<open>The report of \<open>core_adaptive_init\<close> on the hardware, which follows, is left out.\<close>

definition profile :: "boot_env \<Rightarrow> Config \<Rightarrow> string list \<times> int" where
  "profile e c0 =
     (case core_config_load (bo_conf e) c0 of
        (res, c) \<Rightarrow> if res \<noteq> 0 then ([not_parsed], 1) else (fpm_lines e c False, 0))"

definition halmos_main :: "boot_env \<Rightarrow> Config \<Rightarrow> string list \<Rightarrow> string list \<times> boot_step list \<times> int" where
  "halmos_main e c0 args =
     (case args of
        [] \<Rightarrow> (case run_server e c0 of (steps, code) \<Rightarrow> ([], steps, code))
      | a # _ \<Rightarrow>
          let quiet = (\<lambda>(out, code). (out, [], code))
          in if a = ''-v'' \<or> a = ''--version'' then quiet ([version_line], 0)
             else if a = ''-h'' \<or> a = ''--help'' then quiet (help_lines, 0)
             else if a = ''-p'' \<or> a = ''--profile'' then quiet (profile e c0)
             else if a = ''-t'' \<or> a = ''--test'' then quiet (config_test e c0)
             else quiet ([''Unknown command. Use '' @ [CHR 0x27] @ ''-h'' @ [CHR 0x27] @ '' or '' @ [CHR 0x27] @ ''--help'' @ [CHR 0x27] @ '' for available options.''], 0))"

section \<open>Shutdown\<close>

text \<open>Which other parts a part still calls while it is being stopped.\<close>

fun uses :: "part \<Rightarrow> part set" where
  "uses Workers = {FcgiPool, WebSockets, Tls, ConnTable, Logger}"
| "uses WebSockets = {Tls, ConnTable, Logger}"
| "uses Listener = {Logger}"
| "uses Janitor = {Logger}"
| "uses FcgiPool = {Logger}"
| "uses Tls = {Logger}"
| "uses ConnTable = {Logger}"
| "uses _ = {}"

definition precedes :: "'a \<Rightarrow> 'a \<Rightarrow> 'a list \<Rightarrow> bool" where
  "precedes x y xs \<longleftrightarrow> x \<in> set (takeWhile (\<lambda>z. z \<noteq> y) xs) \<and> y \<in> set xs"

lemma run_server_ok:
  "run_server e c0 = (steps, 0) \<Longrightarrow> \<exists>tls limits. steps =
     ([Started ConnTable, Started Logger] @ (if tls then [Started Tls] else []) @ [Started VHosts, Started WebSockets, Started Workers]
        @ (if limits then [Started Janitor] else []) @ [Started FcgiPool, Started Listener, Started Inotify])
     @ Ran # [Stopped Listener, Stopped Workers] @ (if limits then [Stopped Janitor] else []) @ [Stopped FcgiPool, Stopped WebSockets]
        @ (if tls then [Stopped Tls] else []) @ [Stopped ConnTable, Stopped Logger]"
  by (auto simp: run_server_def Let_def split: prod.splits if_splits)


definition good_start :: boot_env where
  "good_start = \<lparr> bo_conf = Some [''tls_enabled = true'', ''rate_limit_enabled = true''], bo_exists = (\<lambda>_. True), bo_readable = (\<lambda>_. True),
     bo_table_ok = True, bo_tls = \<lparr> te_ctx_ok = True, te_cert_ok = True, te_key_ok = True \<rparr>,
     bo_listen = \<lparr> le_malloc_ok = True, le_socket = 3, le_bind_ok = True, le_listen_ok = True, le_epoll = 4, le_add_ok = True,
       le_bridge = \<lparr> ue_socket = 5, ue_stat = None, ue_bind_ok = True, ue_listen_ok = True, ue_nonblock_ok = True \<rparr> \<rparr> \<rparr>"


end
