(* ===== verification/Spec2Isabelle.thy ===== *)
theory Spec2Isabelle
  imports Core_Queue H2_Session Log_Ring Conn_Table Sec_Traffic Adaptive Http_Route Multipart Server Fcgi_H2 Http1_Manager Startup
begin

text \<open>
  A verification development for Halmos, a web server in C.

  \<^bold>\<open>The program.\<close>  One thread runs an epoll loop (src/core/halmos_core_event_loop.c).  It accepts connections,
  gives each descriptor a slot of the connection table and puts an event with the generation of the
  slot into the task queue.  Workers of an elastic pool take events, hold the lock of the slot, and hand
  the connection to the bridge (src/protocol/halmos_http_bridge.c), which looks at the first bytes and
  calls the manager of HTTP/1 or HTTP/2, or the WebSocket module.  The managers parse requests, choose a
  virtual host and a route, and answer with a static file or through a connection to a FastCGI backend
  out of a pool.  The number that a manager returns says how the descriptor is armed again.  Around this
  there are a logger with its own thread, a rate limiter with a janitor, a planning of the capacity at
  start-up, TLS through OpenSSL, and a local socket over which backends talk to WebSocket clients.

  \<^bold>\<open>The theories.\<close>  Each models one part, in the order in which the parts call each other; names of
  functions, types and constants are those of the code.

  \<^item> \<open>Halmos_Base\<close>: machine words, big-endian numbers, \<open>snprintf\<close> into arrays, lemmas on lists and words, and
    the interfaces \<open>bounded_fifo\<close> (a buffer with a capacity) and \<open>keyed_table\<close> (a table that is a map).
  \<^item> \<open>Http_Types\<close>, \<open>Http_Utils\<close>: C strings, the calls of the C library on them, the request record, URL
    decoding, MIME types, the check of paths, reason phrases.
  \<^item> \<open>Core_Queue\<close>: src/core/halmos_core_queue.c, one definition for each critical section, and a step relation of
    any number of producers and workers over them (\<open>pool_step\<close>).  \<open>Log_Ring\<close>: src/utils/halmos_log.c in the
    same way (\<open>log_step\<close>).  Both interpret \<open>bounded_fifo\<close>.
  \<^item> \<open>Conn_Table\<close>, \<open>Sec_Traffic\<close>, \<open>Adaptive\<close>: the slots of the connections, the hash table of the rate limiter
    and the arithmetic of the capacities, at the widths of the code.
  \<^item> \<open>Http_Config\<close>, \<open>Http_Route\<close>, \<open>Multipart\<close>: the configuration line by line, virtual hosts and routes, both parsers
    of multipart bodies.
  \<^item> \<open>Huff_Table\<close>, \<open>Huffman_Code\<close>, \<open>Hpack\<close>, \<open>Hpack_Block\<close>: the Huffman decoder with its whole table, the code of RFC
    7541 that it is compared with, integers, strings, tables and header fields.
  \<^item> \<open>H2_Types\<close>, \<open>H2_Socket\<close>, \<open>H2_Response\<close>, \<open>H2_Session\<close>: sessions and streams (the bucket chains interpret
    \<open>keyed_table\<close>), the backlog of a connection, answers with flow control, and the loop over frames.
  \<^item> \<open>Ws_Frame\<close>, \<open>Ws_Send\<close>, \<open>Ws_Registry\<close>, \<open>Ws_System\<close>, \<open>Ws_Ipc\<close>: the receiver of frames, the sender, the registry
    with its raw pointers in an explicit heap, the dispatcher of messages, the local socket.
  \<^item> \<open>Fcgi_Proto\<close>, \<open>Fcgi_Response\<close>, \<open>Fcgi_Pool\<close>, \<open>Fcgi_Session\<close>, \<open>Fcgi_H2\<close>: records and parameters, the relay of an
    answer to a client, the pool, and the sessions of both protocols.
  \<^item> \<open>Http1_Parser\<close>, \<open>Http1_Response\<close>, \<open>Http1_Manager\<close>: requests, short answers and static files, and the whole
    of \<open>http1_manager_session\<close>.  The interfaces \<open>resumable\<close> and \<open>lively_resumable\<close> say what a sender promises that
    is called again and again; the plain and the TLS sender of files interpret them.
  \<^item> \<open>Server\<close>: event loop, queue, workers, bridge and connection table put together as a step relation
    (\<open>server_step\<close>).  \<open>Sec_Tls\<close>: the TLS objects in the slots.  \<open>Startup\<close>: options, start and shutdown.

  \<^bold>\<open>How state and effects are modelled.\<close>  Structs are records, enums datatypes, arrays of fixed size lists, and
  integers words of their width wherever they can wrap.  A function that changes a struct returns the
  new one.  Memory that is shared through pointers is explicit where a claim depends on it: the clients of the
  WebSocket registry are objects of a heap with numbers that are never used again, so that following a
  freed pointer is a result of its own (\<open>UseAfterFree\<close>); a write past an array of the stack, or through
  pointers that were moved by mistake, is \<open>None\<close> or \<open>StackOverflow\<close>.  What the kernel, OpenSSL, json-c, SHA-1,
  the file system, the clock and malloc answer is an argument: an environment record or a list of answers,
  one for each call.  Each critical section of a mutex is one step, so that the inductive relations cover every
  interleaving of the threads.

  \<^bold>\<open>What the lemmas show.\<close>
  \<^item> Ordering and accounting: the queue and the log are first in, first out and lose nothing they took;
    the counts of the worker pool are right in every reachable state, and a stop of the pool ends; a
    connection has one owner in every reachable state of the server; a session is destroyed once; an
    event for a closed connection is rejected; a pooled backend connection has at most one user; what was started
    is stopped in order.
  \<^item> Formats: HPACK integers and blocks, the Huffman code, frames of HTTP/2, multipart bodies, requests of HTTP/1,
    FastCGI requests and the relayed answer are read as they were written.
  \<^item> Independence of the cutting of the input: frames of HTTP/2 and of WebSocket, requests of HTTP/1 and
    messages on the local socket are the same however the bytes arrive.  Output that is taken in parts (the backlog of
    HTTP/2, WebSocket frames, static files) arrives whole and in order.
  \<^item> Equivalence with a specification: the Huffman table is the code of RFC 7541, the bucket chains are a map, the
    TLS objects in the slots are a map, the route that is chosen is the longest.
  \<^item> Bounds: buffers of HPACK and of the Huffman decoder, flow control, the rate limit, the capacities, and the
    arrays of the configuration.
  \<^item> Faults: theorems and lemmas that show what the code does wrong, among them \<open>http1_body_moves_pointers\<close>,
    \<open>http1_timeout_poisons_pool\<close>, \<open>h2_answer_cut_at_first_read\<close>, \<open>http1_long_query_overflows\<close>,
    \<open>fcgi_partial_body_lost\<close>, \<open>fcgi_failed_answer_closes_twice\<close>, \<open>ws_topic_limit_dangles\<close>.

  \<^bold>\<open>Bounds and termination.\<close>  There is no fuel: every loop is structural or has a measure.  The loops of senders
  and readers go down the list of the answers of their calls, the parser of a header down the text, the scan of
  the rate limiter over its 10007 entries, the reader of HTTP/1 down the bytes that are left in the
  socket.  The hundred attempts of a FastCGI request in \<open>fcgi_attempts\<close> are the bound of the code.  A list of
  answers that is used up means that nothing more comes (a reader waits or gives up, a sender finds no room,
  the relay takes everything; each theory says which).

  \<^bold>\<open>Not modelled.\<close>  The calls of the operating system themselves and the options of sockets; OpenSSL, json-c and
  SHA-1; the text of log lines and of the reports of start-up; telemetry numbers; the freeing of memory that
  nothing reads any more (but for sessions, TLS objects and WebSocket clients, whose freeing is modelled);
  signals (the handler only ends the event loop); inotify but for the reload it causes; the listing of
  directories and the loader of routes in src/protocol/halmos_http_route.c, which nothing calls; \<open>get_time_string\<close>.
  The routing part of \<open>parse_header\<close> is an argument of the HTTP/2 session, and the managers are arguments
  of the bridge: their own theories model them.
\<close>

end
